(* ===== verification/Prelude.thy ===== *)
theory Prelude
  imports Main "HOL-Library.Sublist" "HOL-Library.AList" "HOL-Library.Char_ord"
    "HOL-Library.List_Lexorder" "HOL-Library.Code_Target_Numeral"
begin

section \<open>Shared vocabulary: exceptions, stateful actions and their contracts\<close>

text \<open>
  Every component of the runner is Python code that reads and writes shared state, may raise,
  and may block. This theory gives that vocabulary once: the lifecycle phases, the exceptions
  with the class hierarchy the \<open>except\<close> clauses rely on, and a state-passing type of actions
  with sequencing, \<open>try\<close>/\<open>except\<close> and \<open>finally\<close>. The locale \<open>effect_contract\<close> collects the
  rules by which a property of single effects (the clock never goes back, a field is not
  written, the log only grows) is lifted to every program built from them.
\<close>

subsection \<open>Rule collections\<close>

named_theorems act_simps "execution of the action combinators"
named_theorems evaluate "stepwise execution on a concrete state"

subsection \<open>Lifecycle phases\<close>

text \<open>The phase names that \<open>execute\<close> and \<open>PhaseError\<close> use, in the order of the lifecycle.\<close>

datatype phase =
    Setup | Lock | ResolveCore | Build | Host | Start | Attach | Readiness | Test | Cleanup

fun phase_name :: "phase \<Rightarrow> string" where
  "phase_name Setup = ''setup''"
| "phase_name Lock = ''lock''"
| "phase_name ResolveCore = ''resolve-core''"
| "phase_name Build = ''build''"
| "phase_name Host = ''host''"
| "phase_name Start = ''start''"
| "phase_name Attach = ''attach''"
| "phase_name Readiness = ''readiness''"
| "phase_name Test = ''test''"
| "phase_name Cleanup = ''cleanup''"

fun phase_rank :: "phase \<Rightarrow> nat" where
  "phase_rank Setup = 0"
| "phase_rank Lock = 1"
| "phase_rank ResolveCore = 2"
| "phase_rank Build = 3"
| "phase_rank Host = 4"
| "phase_rank Start = 5"
| "phase_rank Attach = 6"
| "phase_rank Readiness = 7"
| "phase_rank Test = 8"
| "phase_rank Cleanup = 9"

lemma phase_rank_inject: "phase_rank p = phase_rank q \<Longrightarrow> p = q"
  by (cases p; cases q) simp_all

lemma phase_name_inject: "phase_name p = phase_name q \<Longrightarrow> p = q"
  by (cases p; cases q) simp_all

instantiation phase :: linorder
begin

definition less_eq_phase :: "phase \<Rightarrow> phase \<Rightarrow> bool" where
  "p \<le> q \<longleftrightarrow> phase_rank p \<le> phase_rank q"

definition less_phase :: "phase \<Rightarrow> phase \<Rightarrow> bool" where
  "p < q \<longleftrightarrow> phase_rank p < phase_rank q"

instance
  by standard (auto simp: less_eq_phase_def less_phase_def intro: phase_rank_inject)

end

subsection \<open>Exceptions\<close>

datatype os_kind = ENOENT | EEXIST | EACCES | ENOTDIR | EISDIR | EAGAIN | ESRCH | EPERM | EIO

text \<open>
  \<open>PcscQueryError\<close> and \<open>PhaseError\<close> are subclasses of \<open>HarnessError\<close>, which is a subclass of
  \<open>RuntimeError\<close>; \<open>FileNotFoundError\<close>, \<open>BlockingIOError\<close>, \<open>ProcessLookupError\<close>,
  \<open>PermissionError\<close> and the rest of \<open>OSError\<close> differ in their kind; \<open>JSONDecodeError\<close> is a
  \<open>ValueError\<close>; \<open>SystemExit\<close> is not an \<open>Exception\<close>.
\<close>

datatype exn =
    PhaseError phase string int
  | PcscQueryError string
  | HarnessError string
  | RuntimeError string
  | OSError os_kind string
  | TimeoutExpired string
  | ValueError string
  | KeyError string
  | IndexError
  | TypeError
  | AttributeError
  | AssertionError
  | SystemExit int

fun is_harness_error :: "exn \<Rightarrow> bool" where
  "is_harness_error (PhaseError _ _ _) = True"
| "is_harness_error (PcscQueryError _) = True"
| "is_harness_error (HarnessError _) = True"
| "is_harness_error _ = False"

fun is_phase_error :: "exn \<Rightarrow> bool" where
  "is_phase_error (PhaseError _ _ _) = True"
| "is_phase_error _ = False"

fun is_pcsc_error :: "exn \<Rightarrow> bool" where
  "is_pcsc_error (PcscQueryError _) = True"
| "is_pcsc_error _ = False"

fun is_runtime_error :: "exn \<Rightarrow> bool" where
  "is_runtime_error (RuntimeError _) = True"
| "is_runtime_error e = is_harness_error e"

fun is_os_error :: "exn \<Rightarrow> bool" where
  "is_os_error (OSError _ _) = True"
| "is_os_error _ = False"

fun is_os_kind :: "os_kind list \<Rightarrow> exn \<Rightarrow> bool" where
  "is_os_kind ks (OSError k _) = (k \<in> set ks)"
| "is_os_kind ks _ = False"

fun is_timeout :: "exn \<Rightarrow> bool" where
  "is_timeout (TimeoutExpired _) = True"
| "is_timeout _ = False"

fun is_value_error :: "exn \<Rightarrow> bool" where
  "is_value_error (ValueError _) = True"
| "is_value_error _ = False"

text \<open>\<open>except Exception\<close>: everything but \<open>SystemExit\<close>.\<close>

fun is_exception :: "exn \<Rightarrow> bool" where
  "is_exception (SystemExit _) = False"
| "is_exception _ = True"

text \<open>\<open>str(exc)\<close>, as the runner prints and records it.\<close>

fun exn_str :: "exn \<Rightarrow> string" where
  "exn_str (PhaseError _ m _) = m"
| "exn_str (PcscQueryError m) = m"
| "exn_str (HarnessError m) = m"
| "exn_str (RuntimeError m) = m"
| "exn_str (OSError _ m) = m"
| "exn_str (TimeoutExpired m) = m"
| "exn_str (ValueError m) = m"
| "exn_str (KeyError m) = m"
| "exn_str _ = []"

lemma harness_is_runtime: "is_harness_error e \<Longrightarrow> is_runtime_error e"
  by (cases e) simp_all

lemma phase_is_harness: "is_phase_error e \<Longrightarrow> is_harness_error e"
  by (cases e) simp_all

lemma os_kind_is_os: "is_os_kind ks e \<Longrightarrow> is_os_error e"
  by (cases e) simp_all

subsection \<open>Actions\<close>

text \<open>
  An action takes the state and returns how it ended and the new state. \<open>Ret\<close> is a normal
  return, \<open>Exn\<close> a raised exception, and \<open>Blocked\<close> a call that never returns (a child process
  that never ends, waited for without a timeout): no handler and no \<open>finally\<close> block runs after
  it.
\<close>

datatype 'a outcome = Ret 'a | Exn exn | Blocked

type_synonym ('s, 'a) act = "'s \<Rightarrow> 'a outcome \<times> 's"

definition retA :: "'a \<Rightarrow> ('s, 'a) act" where
  "retA x = (\<lambda>s. (Ret x, s))"

definition raiseA :: "exn \<Rightarrow> ('s, 'a) act" where
  "raiseA e = (\<lambda>s. (Exn e, s))"

definition blockA :: "('s, 'a) act" where
  "blockA = (\<lambda>s. (Blocked, s))"

definition getsA :: "('s \<Rightarrow> 'a) \<Rightarrow> ('s, 'a) act" where
  "getsA f = (\<lambda>s. (Ret (f s), s))"

definition modifyA :: "('s \<Rightarrow> 's) \<Rightarrow> ('s, unit) act" where
  "modifyA f = (\<lambda>s. (Ret (), f s))"

definition bindA :: "('s, 'a) act \<Rightarrow> ('a \<Rightarrow> ('s, 'b) act) \<Rightarrow> ('s, 'b) act" where
  "bindA m f = (\<lambda>s. case m s of
     (Ret x, s') \<Rightarrow> f x s' | (Exn e, s') \<Rightarrow> (Exn e, s') | (Blocked, s') \<Rightarrow> (Blocked, s'))"

definition thenA :: "('s, 'a) act \<Rightarrow> ('s, 'b) act \<Rightarrow> ('s, 'b) act" where
  "thenA m k = bindA m (\<lambda>_. k)"

text \<open>A block of statements, each run for its effect.\<close>

fun seqA :: "('s, unit) act list \<Rightarrow> ('s, unit) act" where
  "seqA [] = retA ()"
| "seqA (m # ms) = thenA m (seqA ms)"

definition whenA :: "bool \<Rightarrow> ('s, unit) act \<Rightarrow> ('s, unit) act" where
  "whenA b m = (if b then m else retA ())"

text \<open>
  \<open>catchA m h\<close> is \<open>try: m except ...: ...\<close>: the handler \<open>h\<close> picks the clause that matches
  the exception (\<open>None\<close> when none does). \<open>onA p k\<close> is one clause and \<open>orelseA\<close> tries the
  clauses in order. \<open>finallyA m f\<close> is \<open>try: m finally: f\<close>; an exception raised in \<open>f\<close>
  replaces the pending outcome.
\<close>

definition catchA :: "('s, 'a) act \<Rightarrow> (exn \<Rightarrow> ('s, 'a) act option) \<Rightarrow> ('s, 'a) act" where
  "catchA m h = (\<lambda>s. case m s of
     (Ret x, s') \<Rightarrow> (Ret x, s')
   | (Exn e, s') \<Rightarrow> (case h e of None \<Rightarrow> (Exn e, s') | Some k \<Rightarrow> k s')
   | (Blocked, s') \<Rightarrow> (Blocked, s'))"

definition onA :: "(exn \<Rightarrow> bool) \<Rightarrow> (exn \<Rightarrow> ('s, 'a) act) \<Rightarrow> exn \<Rightarrow> ('s, 'a) act option" where
  "onA p k = (\<lambda>e. if p e then Some (k e) else None)"

definition orelseA ::
  "(exn \<Rightarrow> ('s, 'a) act option) \<Rightarrow> (exn \<Rightarrow> ('s, 'a) act option) \<Rightarrow> exn \<Rightarrow> ('s, 'a) act option"
  where
  "orelseA h1 h2 = (\<lambda>e. case h1 e of Some k \<Rightarrow> Some k | None \<Rightarrow> h2 e)"

definition finallyA :: "('s, 'a) act \<Rightarrow> ('s, unit) act \<Rightarrow> ('s, 'a) act" where
  "finallyA m f = (\<lambda>s. case m s of
     (Blocked, s') \<Rightarrow> (Blocked, s')
   | (r, s') \<Rightarrow> (case f s' of
       (Ret _, s'') \<Rightarrow> (r, s'') | (Exn e, s'') \<Rightarrow> (Exn e, s'') | (Blocked, s'') \<Rightarrow> (Blocked, s'')))"

text \<open>A \<open>for\<close> loop run for its effect, and one that collects the results.\<close>

fun forA :: "'a list \<Rightarrow> ('a \<Rightarrow> ('s, unit) act) \<Rightarrow> ('s, unit) act" where
  "forA [] f = retA ()"
| "forA (x # xs) f = thenA (f x) (forA xs f)"

fun mapA :: "('a \<Rightarrow> ('s, 'b) act) \<Rightarrow> 'a list \<Rightarrow> ('s, 'b list) act" where
  "mapA f [] = retA []"
| "mapA f (x # xs) = bindA (f x) (\<lambda>y. bindA (mapA f xs) (\<lambda>ys. retA (y # ys)))"

lemmas act_defs = retA_def raiseA_def blockA_def getsA_def modifyA_def bindA_def thenA_def
  whenA_def catchA_def onA_def orelseA_def finallyA_def

lemma run_retA [act_simps, simp]: "retA x s = (Ret x, s)"
  by (simp add: act_defs)

lemma run_raiseA [act_simps, simp]: "raiseA e s = (Exn e, s)"
  by (simp add: act_defs)

lemma run_blockA [act_simps, simp]: "blockA s = (Blocked, s)"
  by (simp add: act_defs)

lemma run_getsA [act_simps, simp]: "getsA f s = (Ret (f s), s)"
  by (simp add: act_defs)

lemma run_modifyA [act_simps, simp]: "modifyA f s = (Ret (), f s)"
  by (simp add: act_defs)

lemma run_bindA [act_simps]:
  "m s = (Ret x, s') \<Longrightarrow> bindA m f s = f x s'"
  "m s = (Exn e, s') \<Longrightarrow> bindA m f s = (Exn e, s')"
  "m s = (Blocked, s') \<Longrightarrow> bindA m f s = (Blocked, s')"
  by (simp_all add: act_defs)

lemma bindA_simps [simp]:
  "bindA (retA x) f = f x"
  "bindA (raiseA e) f = raiseA e"
  "bindA blockA f = blockA"
  "bindA (getsA g) f s = f (g s) s"
  "bindA (modifyA u) f' s = f' () (u s)"
  by (simp_all add: act_defs fun_eq_iff)

lemma run_thenA [act_simps]:
  "m s = (Ret x, s') \<Longrightarrow> thenA m k s = k s'"
  "m s = (Exn e, s') \<Longrightarrow> thenA m k s = (Exn e, s')"
  "m s = (Blocked, s') \<Longrightarrow> thenA m k s = (Blocked, s')"
  by (simp_all add: act_defs)

lemma thenA_simps [simp]:
  "thenA (retA x) k = k"
  "thenA (raiseA e) k = raiseA e"
  "thenA (getsA g) k s = k s"
  "thenA (modifyA u) k s = k (u s)"
  by (simp_all add: act_defs fun_eq_iff)

lemma whenA_simps [act_simps, simp]:
  "whenA True m = m"
  "whenA False m = retA ()"
  by (simp_all add: whenA_def)

lemma run_catchA [act_simps]:
  "m s = (Ret x, s') \<Longrightarrow> catchA m h s = (Ret x, s')"
  "m s = (Exn e, s') \<Longrightarrow> catchA m h s = (case h e of None \<Rightarrow> (Exn e, s') | Some k \<Rightarrow> k s')"
  "m s = (Blocked, s') \<Longrightarrow> catchA m h s = (Blocked, s')"
  by (simp_all add: act_defs)

lemma catchA_simps [simp]:
  "catchA (retA x) h = retA x"
  "catchA (raiseA e) h s = (case h e of None \<Rightarrow> (Exn e, s) | Some k \<Rightarrow> k s)"
  by (simp_all add: act_defs fun_eq_iff)

lemma onA_simps [simp]:
  "p e \<Longrightarrow> onA p k e = Some (k e)"
  "\<not> p e \<Longrightarrow> onA p k e = None"
  by (simp_all add: onA_def)

lemma orelseA_simps [simp]:
  "h1 e = None \<Longrightarrow> orelseA h1 h2 e = h2 e"
  "h1 e = Some k \<Longrightarrow> orelseA h1 h2 e = Some k"
  by (simp_all add: orelseA_def)

lemma run_finallyA [act_simps]:
  "m s = (Blocked, s') \<Longrightarrow> finallyA m f s = (Blocked, s')"
  "m s = (r, s') \<Longrightarrow> r \<noteq> Blocked \<Longrightarrow> f s' = (Ret u, s'') \<Longrightarrow> finallyA m f s = (r, s'')"
  "m s = (r, s') \<Longrightarrow> r \<noteq> Blocked \<Longrightarrow> f s' = (Exn e, s'') \<Longrightarrow> finallyA m f s = (Exn e, s'')"
  by (cases r; simp add: act_defs)+

text \<open>
  Running a program on a concrete state by simplification: every rule needs the state, so the
  continuations stay as they are until their state is known.
\<close>

lemma evaluate_bindA [evaluate]:
  "bindA m f s = (case m s of
     (Ret x, s') \<Rightarrow> f x s' | (Exn e, s') \<Rightarrow> (Exn e, s') | (Blocked, s') \<Rightarrow> (Blocked, s'))"
  by (simp add: act_defs)

lemma evaluate_thenA [evaluate]:
  "thenA m k s = (case m s of
     (Ret x, s') \<Rightarrow> k s' | (Exn e, s') \<Rightarrow> (Exn e, s') | (Blocked, s') \<Rightarrow> (Blocked, s'))"
  by (simp add: act_defs)

lemma evaluate_catchA [evaluate]:
  "catchA m h s = (case m s of
     (Ret x, s') \<Rightarrow> (Ret x, s')
   | (Exn e, s') \<Rightarrow> (case h e of None \<Rightarrow> (Exn e, s') | Some k \<Rightarrow> k s')
   | (Blocked, s') \<Rightarrow> (Blocked, s'))"
  by (simp add: act_defs)

lemma evaluate_finallyA [evaluate]:
  "finallyA m f s = (case m s of
     (Blocked, s') \<Rightarrow> (Blocked, s')
   | (r, s') \<Rightarrow> (case f s' of
       (Ret _, s'') \<Rightarrow> (r, s'') | (Exn e, s'') \<Rightarrow> (Exn e, s'') | (Blocked, s'') \<Rightarrow> (Blocked, s'')))"
  by (simp add: act_defs)

lemma evaluate_clauses [evaluate]:
  "onA p k e = (if p e then Some (k e) else None)"
  "orelseA h1 h2 e = (case h1 e of Some k' \<Rightarrow> Some k' | None \<Rightarrow> h2 e)"
  by (simp_all add: act_defs)

declare Let_def [evaluate]

lemma bindA_assoc: "bindA (bindA m f) g = bindA m (\<lambda>x. bindA (f x) g)"
  by (auto simp: act_defs fun_eq_iff split: prod.splits outcome.splits)

lemma outcome_cases [case_names Ret Exn Blocked]:
  obtains (Ret) x s' where "(m :: ('s, 'a) act) s = (Ret x, s')"
        | (Exn) e s' where "m s = (Exn e, s')"
        | (Blocked) s' where "m s = (Blocked, s')"
  by (cases "m s"; cases "fst (m s)") auto

lemma bindA_RetE:
  assumes "bindA m f s = (Ret y, t)"
  obtains x s' where "m s = (Ret x, s')" and "f x s' = (Ret y, t)"
  using assms by (auto simp: bindA_def split: prod.splits outcome.splits)

lemma thenA_RetE:
  assumes "thenA m k s = (Ret y, t)"
  obtains x s' where "m s = (Ret x, s')" and "k s' = (Ret y, t)"
  using assms unfolding thenA_def by (rule bindA_RetE)

text \<open>\<open>try: m except ... raise\<close>: it only returns when its body does.\<close>

lemma catch_raise_RetE:
  assumes "catchA m (onA p (\<lambda>e. raiseA (f e))) s = (Ret x, t)"
  obtains "m s = (Ret x, t)"
  using assms by (auto simp: catchA_def onA_def split: prod.splits outcome.splits if_splits)

subsection \<open>How an action may end\<close>

text \<open>
  \<open>ends X b m\<close>: every exception that \<open>m\<close> raises satisfies \<open>X\<close>, and \<open>m\<close> only blocks if \<open>b\<close>
  allows it. With \<open>b\<close> false this is a termination statement. The rules follow the combinators.
\<close>

definition ends :: "(exn \<Rightarrow> bool) \<Rightarrow> bool \<Rightarrow> ('s, 'a) act \<Rightarrow> bool" where
  "ends X b m \<longleftrightarrow> (\<forall>s. case fst (m s) of Ret _ \<Rightarrow> True | Exn e \<Rightarrow> X e | Blocked \<Rightarrow> b)"

named_theorems ends_rules "rules for the possible ends of an action"

lemma endsI:
  "(\<And>s e s'. m s = (Exn e, s') \<Longrightarrow> X e) \<Longrightarrow> (\<And>s s'. m s = (Blocked, s') \<Longrightarrow> b) \<Longrightarrow> ends X b m"
  by (auto simp: ends_def split: outcome.split) (metis prod.collapse)+

lemma endsD_Exn: "ends X b m \<Longrightarrow> m s = (Exn e, s') \<Longrightarrow> X e"
  unfolding ends_def by (drule spec [of _ s]) simp

lemma endsD_Blocked: "ends X b m \<Longrightarrow> m s = (Blocked, s') \<Longrightarrow> b"
  unfolding ends_def by (drule spec [of _ s]) simp

lemma ends_not_blocked: "ends X False m \<Longrightarrow> fst (m s) \<noteq> Blocked"
  unfolding ends_def by (drule spec [of _ s]) auto

lemma ends_at: "ends X b m \<Longrightarrow> case fst (m s) of Ret _ \<Rightarrow> True | Exn e \<Rightarrow> X e | Blocked \<Rightarrow> b"
  unfolding ends_def by (rule spec)

lemma ends_mono: "ends X b m \<Longrightarrow> (\<And>e. X e \<Longrightarrow> Y e) \<Longrightarrow> (b \<Longrightarrow> c) \<Longrightarrow> ends Y c m"
  unfolding ends_def by (simp split: outcome.splits)

lemma ends_retA [ends_rules]: "ends X b (retA x)"
  by (simp add: ends_def)

lemma ends_raiseA [ends_rules]: "X e \<Longrightarrow> ends X b (raiseA e)"
  by (simp add: ends_def)

lemma ends_getsA [ends_rules]: "ends X b (getsA f)"
  by (simp add: ends_def)

lemma ends_modifyA [ends_rules]: "ends X b (modifyA f)"
  by (simp add: ends_def)

lemma ends_bindA [ends_rules]:
  assumes "ends X b m" and "\<And>x. ends X b (f x)"
  shows "ends X b (bindA m f)"
  unfolding ends_def
proof
  fix s
  show "case fst (bindA m f s) of Ret _ \<Rightarrow> True | Exn e \<Rightarrow> X e | Blocked \<Rightarrow> b"
  proof (cases rule: outcome_cases [of m s])
    case (Ret x s')
    then show ?thesis using assms(2) [of x] by (simp add: act_simps ends_def)
  next
    case (Exn e s')
    then show ?thesis using endsD_Exn [OF assms(1) Exn] by (simp add: act_simps)
  next
    case (Blocked s')
    then show ?thesis using endsD_Blocked [OF assms(1) Blocked] by (simp add: act_simps)
  qed
qed

lemma ends_thenA [ends_rules]: "ends X b m \<Longrightarrow> ends X b k \<Longrightarrow> ends X b (thenA m k)"
  unfolding thenA_def by (rule ends_bindA)

lemma ends_whenA [ends_rules]: "(c \<Longrightarrow> ends X b m) \<Longrightarrow> ends X b (whenA c m)"
  by (simp add: whenA_def ends_retA)

lemma ends_if [ends_rules]:
  "(c \<Longrightarrow> ends X b m) \<Longrightarrow> (\<not> c \<Longrightarrow> ends X b k) \<Longrightarrow> ends X b (if c then m else k)"
  by simp

lemma ends_case_option [ends_rules]:
  "(z = None \<Longrightarrow> ends X b m) \<Longrightarrow> (\<And>x. z = Some x \<Longrightarrow> ends X b (f x)) \<Longrightarrow>
     ends X b (case z of None \<Rightarrow> m | Some x \<Rightarrow> f x)"
  by (simp split: option.split)

lemma ends_case_prod [ends_rules]:
  "(\<And>x y. ends X b (f x y)) \<Longrightarrow> ends X b (case z of (x, y) \<Rightarrow> f x y)"
  by (simp split: prod.split)

lemma ends_Let [ends_rules]: "(\<And>x. x = z \<Longrightarrow> ends X b (f x)) \<Longrightarrow> ends X b (let x = z in f x)"
  by (simp add: Let_def)

lemma ends_forA [ends_rules]: "(\<And>x. x \<in> set xs \<Longrightarrow> ends X b (f x)) \<Longrightarrow> ends X b (forA xs f)"
  by (induction xs) (auto intro: ends_retA ends_thenA)

lemma ends_mapA [ends_rules]: "(\<And>x. x \<in> set xs \<Longrightarrow> ends X b (f x)) \<Longrightarrow> ends X b (mapA f xs)"
  by (induction xs) (auto intro!: ends_retA ends_bindA)

lemma ends_catchA:
  assumes m: "ends Y b m"
    and none: "\<And>e. Y e \<Longrightarrow> h e = None \<Longrightarrow> X e"
    and some: "\<And>e k. Y e \<Longrightarrow> h e = Some k \<Longrightarrow> ends X b k"
  shows "ends X b (catchA m h)"
  unfolding ends_def
proof
  fix s
  show "case fst (catchA m h s) of Ret _ \<Rightarrow> True | Exn e \<Rightarrow> X e | Blocked \<Rightarrow> b"
  proof (cases rule: outcome_cases [of m s])
    case (Exn e s')
    have "Y e" using endsD_Exn [OF m Exn] .
    then show ?thesis
      using Exn none [of e] some [of e] by (cases "h e") (auto simp: act_simps ends_def)
  next
    case (Blocked s')
    then show ?thesis using endsD_Blocked [OF m Blocked] by (simp add: act_simps)
  qed (simp add: act_simps)
qed

lemma ends_catch_onA:
  "ends Y b m \<Longrightarrow> (\<And>e. Y e \<Longrightarrow> \<not> p e \<Longrightarrow> X e) \<Longrightarrow>
     (\<And>e. Y e \<Longrightarrow> p e \<Longrightarrow> ends X b (k e)) \<Longrightarrow> ends X b (catchA m (onA p k))"
  by (rule ends_catchA [where Y = Y]) (auto simp: onA_def split: if_splits)

lemma ends_finallyA [ends_rules]:
  assumes "ends X b m" and "ends X b f"
  shows "ends X b (finallyA m f)"
  unfolding ends_def
proof
  fix s
  obtain r s' where m: "m s = (r, s')" by fastforce
  obtain q t where f: "f s' = (q, t)" by fastforce
  show "case fst (finallyA m f s) of Ret _ \<Rightarrow> True | Exn e \<Rightarrow> X e | Blocked \<Rightarrow> b"
    using m f endsD_Exn [OF assms(1)] endsD_Blocked [OF assms(1)]
      endsD_Exn [OF assms(2)] endsD_Blocked [OF assms(2)]
    by (auto simp: finallyA_def split: outcome.splits)
qed

lemma run_ends: "ends X b m \<Longrightarrow> fst (m s) = Exn e \<Longrightarrow> X e"
  by (metis endsD_Exn prod.collapse)

subsection \<open>What an action returns\<close>

definition yields :: "('a \<Rightarrow> bool) \<Rightarrow> ('s, 'a) act \<Rightarrow> bool" where
  "yields Q m \<longleftrightarrow> (\<forall>s x s'. m s = (Ret x, s') \<longrightarrow> Q x)"

lemma yieldsD: "yields Q m \<Longrightarrow> m s = (Ret x, s') \<Longrightarrow> Q x"
  by (auto simp: yields_def)

lemma yields_retA: "Q x \<Longrightarrow> yields Q (retA x)"
  by (simp add: yields_def)

lemma yields_raiseA: "yields Q (raiseA e)"
  by (simp add: yields_def)

lemma yields_bindA: "(\<And>x. yields Q (f x)) \<Longrightarrow> yields Q (bindA m f)"
  by (auto simp: yields_def elim!: bindA_RetE)

lemma yields_bindA_value: "yields P m \<Longrightarrow> (\<And>x. P x \<Longrightarrow> yields Q (f x)) \<Longrightarrow> yields Q (bindA m f)"
  unfolding yields_def by (blast elim!: bindA_RetE)

lemma yields_Let: "(\<And>x. yields Q (f x)) \<Longrightarrow> yields Q (let x = z in f x)"
  by simp

lemma yields_case_option:
  "yields Q m \<Longrightarrow> (\<And>x. yields Q (f x)) \<Longrightarrow> yields Q (case z of None \<Rightarrow> m | Some x \<Rightarrow> f x)"
  by (simp split: option.split)

subsection \<open>Contracts of effects\<close>

text \<open>
  \<open>within R m\<close>: every run of \<open>m\<close>, however it ends, relates the state before to the state
  after by \<open>R\<close>. For a reflexive and transitive \<open>R\<close> the combinators keep it; the locale proves
  that once for all such contracts.
\<close>

definition within :: "('s \<Rightarrow> 's \<Rightarrow> bool) \<Rightarrow> ('s, 'a) act \<Rightarrow> bool" where
  "within R m \<longleftrightarrow> (\<forall>s. R s (snd (m s)))"

lemma withinI: "(\<And>s. R s (snd (m s))) \<Longrightarrow> within R m"
  by (simp add: within_def)

lemma withinD: "within R m \<Longrightarrow> m s = (r, s') \<Longrightarrow> R s s'"
  by (metis snd_conv within_def)

lemma withinD_snd: "within R m \<Longrightarrow> R s (snd (m s))"
  by (simp add: within_def)

locale effect_contract =
  fixes R :: "'s \<Rightarrow> 's \<Rightarrow> bool"
  assumes contract_refl: "R s s"
    and contract_trans: "R s t \<Longrightarrow> R t u \<Longrightarrow> R s u"
begin

lemma within_retA: "within R (retA x)"
  by (rule withinI) (simp add: contract_refl)

lemma within_raiseA: "within R (raiseA e)"
  by (rule withinI) (simp add: contract_refl)

lemma within_blockA: "within R blockA"
  by (rule withinI) (simp add: contract_refl)

lemma within_getsA: "within R (getsA f)"
  by (rule withinI) (simp add: contract_refl)

lemma within_bind_getsA: "(\<And>s. within R (k (f s))) \<Longrightarrow> within R (bindA (getsA f) k)"
  by (simp add: within_def)

lemma within_modifyA: "(\<And>s. R s (f s)) \<Longrightarrow> within R (modifyA f)"
  by (rule withinI) simp

lemma within_bindA:
  assumes "within R m" and "\<And>x. within R (f x)"
  shows "within R (bindA m f)"
proof (rule withinI)
  fix s
  show "R s (snd (bindA m f s))"
  proof (cases rule: outcome_cases [of m s])
    case (Ret x s')
    have "R s s'" using withinD [OF assms(1) Ret] .
    moreover have "R s' (snd (f x s'))" using withinD_snd [OF assms(2)] .
    ultimately show ?thesis using Ret by (auto simp: act_simps intro: contract_trans)
  qed (use withinD [OF assms(1)] in \<open>auto simp: act_simps\<close>)
qed

lemma within_bindA_value:
  assumes m: "within R m" and Q: "yields Q m"
    and f: "\<And>x. Q x \<Longrightarrow> within R (f x)"
  shows "within R (bindA m f)"
proof (rule withinI)
  fix s
  show "R s (snd (bindA m f s))"
  proof (cases rule: outcome_cases [of m s])
    case (Ret x s')
    have "R s s'" using withinD [OF m Ret] .
    moreover have "R s' (snd (f x s'))" using withinD_snd [OF f [OF yieldsD [OF Q Ret]]] .
    ultimately show ?thesis using Ret by (auto simp: act_simps intro: contract_trans)
  qed (use withinD [OF m] in \<open>auto simp: act_simps\<close>)
qed

lemma within_thenA: "within R m \<Longrightarrow> within R k \<Longrightarrow> within R (thenA m k)"
  unfolding thenA_def by (rule within_bindA)

lemma within_whenA: "(b \<Longrightarrow> within R m) \<Longrightarrow> within R (whenA b m)"
  by (simp add: whenA_def within_retA)

lemma within_if:
  "(b \<Longrightarrow> within R m) \<Longrightarrow> (\<not> b \<Longrightarrow> within R k) \<Longrightarrow> within R (if b then m else k)"
  by simp

lemma within_case_option:
  "within R m \<Longrightarrow> (\<And>x. within R (f x)) \<Longrightarrow> within R (case z of None \<Rightarrow> m | Some x \<Rightarrow> f x)"
  by (simp split: option.split)

lemma within_case_prod:
  "(\<And>x y. within R (f x y)) \<Longrightarrow> within R (case z of (x, y) \<Rightarrow> f x y)"
  by (simp split: prod.split)

lemma within_Let: "(\<And>x. within R (f x)) \<Longrightarrow> within R (let x = z in f x)"
  by (simp add: Let_def)

lemma within_seqA: "(\<And>m. m \<in> set ms \<Longrightarrow> within R m) \<Longrightarrow> within R (seqA ms)"
  by (induction ms) (auto intro: within_retA within_thenA)

lemma within_forA: "(\<And>x. within R (f x)) \<Longrightarrow> within R (forA xs f)"
  by (induction xs) (auto intro: within_retA within_thenA)

lemma within_forA_in: "(\<And>x. x \<in> set xs \<Longrightarrow> within R (f x)) \<Longrightarrow> within R (forA xs f)"
  by (induction xs) (auto intro: within_retA within_thenA)

lemma within_mapA: "(\<And>x. within R (f x)) \<Longrightarrow> within R (mapA f xs)"
  by (induction xs) (auto intro: within_retA within_bindA)

lemma within_catchA:
  assumes "within R m" and "\<And>e k. h e = Some k \<Longrightarrow> within R k"
  shows "within R (catchA m h)"
proof (rule withinI)
  fix s
  show "R s (snd (catchA m h s))"
  proof (cases rule: outcome_cases [of m s])
    case (Exn e s')
    have R: "R s s'" using withinD [OF assms(1) Exn] .
    show ?thesis
    proof (cases "h e")
      case None
      with Exn R show ?thesis by (simp add: act_simps)
    next
      case (Some k)
      with Exn R withinD_snd [OF assms(2) [OF Some], of s'] show ?thesis
        by (auto simp: act_simps intro: contract_trans)
    qed
  qed (use withinD [OF assms(1)] in \<open>auto simp: act_simps\<close>)
qed

lemma within_catch_onA:
  "within R m \<Longrightarrow> (\<And>e. p e \<Longrightarrow> within R (k e)) \<Longrightarrow> within R (catchA m (onA p k))"
  by (rule within_catchA) (auto simp: onA_def split: if_splits)

lemma within_finallyA:
  assumes "within R m" and "within R f"
  shows "within R (finallyA m f)"
proof (rule withinI)
  fix s
  obtain r s' where m: "m s = (r, s')" by fastforce
  obtain q t where f: "f s' = (q, t)" by fastforce
  have "R s s'" "R s' t"
    using withinD [OF assms(1) m] withinD [OF assms(2) f] by auto
  then show "R s (snd (finallyA m f s))"
    using m f by (auto simp: finallyA_def split: outcome.splits intro: contract_trans)
qed

lemmas within_rules = within_retA within_raiseA within_blockA within_getsA within_modifyA
  within_bindA within_thenA within_whenA within_if within_case_option within_case_prod
  within_Let within_seqA within_forA within_mapA within_catchA within_finallyA

lemmas within_intros = within_retA within_raiseA within_blockA within_getsA
  within_bindA within_thenA within_whenA within_if within_case_option within_case_prod
  within_Let within_forA within_mapA within_catch_onA within_finallyA

end

text \<open>
  The first contract: a projection of the state is left as it was. It is interpreted here for
  every projection; the components instantiate it with the fields they must not write.
\<close>

interpretation same: effect_contract "\<lambda>s t. f t = f s" for f :: "'s \<Rightarrow> 'b"
  by unfold_locales auto

abbreviation leaves :: "('s \<Rightarrow> 'b) \<Rightarrow> ('s, 'a) act \<Rightarrow> bool" where
  "leaves f m \<equiv> within (\<lambda>s t. f t = f s) m"

lemma leavesD: "leaves f m \<Longrightarrow> m s = (r, s') \<Longrightarrow> f s' = f s"
  by (rule withinD)

subsection \<open>Dictionaries\<close>

text \<open>
  A Python dict keeps insertion order and its keys are distinct: an association list.
  \<open>dict_set\<close> is \<open>d[k] = v\<close> and \<open>dict_update\<close> is \<open>d.update(...)\<close>.
\<close>

definition dict_set :: "('k \<times> 'v) list \<Rightarrow> 'k \<Rightarrow> 'v \<Rightarrow> ('k \<times> 'v) list" where
  "dict_set d k v = AList.update k v d"

definition dict_update :: "('k \<times> 'v) list \<Rightarrow> ('k \<times> 'v) list \<Rightarrow> ('k \<times> 'v) list" where
  "dict_update d kvs = foldl (\<lambda>d (k, v). dict_set d k v) d kvs"

lemma dict_set_nonempty [simp]: "dict_set d k v \<noteq> []"
  by (cases d) (auto simp: dict_set_def)

lemma map_of_dict_set [simp]: "map_of (dict_set d k v) = (map_of d)(k \<mapsto> v)"
  by (simp add: dict_set_def update_conv')

lemma distinct_dict_set:
  "distinct (map fst d) \<Longrightarrow> distinct (map fst (dict_set d k v))"
  by (simp add: dict_set_def distinct_update)

lemma map_of_dict_update: "map_of (dict_update d kvs) = map_of d ++ map_of (rev kvs)"
  unfolding dict_update_def
  by (induction kvs arbitrary: d) (auto simp: fun_eq_iff map_add_def split: option.splits)

lemma distinct_dict_update:
  "distinct (map fst d) \<Longrightarrow> distinct (map fst (dict_update d kvs))"
  unfolding dict_update_def
  by (induction kvs arbitrary: d) (auto simp: distinct_dict_set)

text \<open>\<open>dict.fromkeys\<close> of a list: the elements in the order of their first occurrence.\<close>

fun dedup_from :: "'a list \<Rightarrow> 'a list \<Rightarrow> 'a list" where
  "dedup_from seen [] = []"
| "dedup_from seen (x # xs) =
     (if x \<in> set seen then dedup_from seen xs else x # dedup_from (x # seen) xs)"

definition dedup :: "'a list \<Rightarrow> 'a list" where
  "dedup xs = dedup_from [] xs"

lemma set_dedup_from [simp]: "set (dedup_from seen xs) = set xs - set seen"
  by (induction seen xs rule: dedup_from.induct) auto

lemma distinct_dedup_from [simp]: "distinct (dedup_from seen xs)"
  by (induction seen xs rule: dedup_from.induct) (auto simp: set_dedup_from)

lemma set_dedup [simp]: "set (dedup xs) = set xs"
  by (simp add: dedup_def set_dedup_from)

lemma distinct_dedup [simp]: "distinct (dedup xs)"
  by (simp add: dedup_def distinct_dedup_from)

lemma dedup_from_distinct:
  "distinct xs \<Longrightarrow> set xs \<inter> set seen = {} \<Longrightarrow> dedup_from seen xs = xs"
  by (induction seen xs rule: dedup_from.induct) auto

lemma dedup_idem: "distinct xs \<Longrightarrow> dedup xs = xs"
  by (simp add: dedup_def dedup_from_distinct)

lemma dedup_from_seen_cong: "set a = set b \<Longrightarrow> dedup_from a xs = dedup_from b xs"
proof (induction xs arbitrary: a b)
  case (Cons x xs)
  have "dedup_from (x # a) xs = dedup_from (x # b) xs" "dedup_from a xs = dedup_from b xs"
    using Cons.prems by (auto intro!: Cons.IH)
  with Cons.prems show ?case by simp
qed simp

lemma dedup_from_append:
  "dedup_from seen (xs @ ys) = dedup_from seen xs @ dedup_from (xs @ seen) ys"
proof (induction seen xs rule: dedup_from.induct)
  case (2 seen x xs)
  have "dedup_from (xs @ x # seen) ys = dedup_from (x # xs @ seen) ys"
    by (rule dedup_from_seen_cong) auto
  moreover have "x \<in> set seen \<Longrightarrow> dedup_from (xs @ seen) ys = dedup_from (x # xs @ seen) ys"
    by (rule dedup_from_seen_cong) auto
  ultimately show ?case using 2 by auto
qed simp

end
