(* ===== verification/PyText.thy ===== *)
theory PyText
  imports Prelude
begin

section \<open>The string operations the runner uses\<close>

text \<open>
  Python text is modelled as \<open>string\<close>, one \<open>char\<close> per code point, so the model covers the
  code points below 256. Here are the parts of \<open>str\<close>, \<open>int\<close> and \<open>re\<close> that the runner calls:
  trimming, lower-casing, line splitting, substring tests, numerals in both directions, and the
  scanners that the three regular expressions of \<open>harness.py\<close> amount to. The lemmas are the
  round trips between numbers and numerals and the facts about the scanners that the users rely
  on.
\<close>

subsection \<open>Character classes\<close>

definition char_nat :: "char \<Rightarrow> nat" where
  "char_nat c = of_char c"

definition newline :: char where
  "newline = CHR 0x0A"

text \<open>\<open>str.isspace\<close>, which is also \<open>\s\<close> of \<open>re\<close>.\<close>

definition py_space :: "char \<Rightarrow> bool" where
  "py_space c = (let n = char_nat c in
     (9 \<le> n \<and> n \<le> 13) \<or> (28 \<le> n \<and> n \<le> 32) \<or> n = 133 \<or> n = 160)"

definition is_digit :: "char \<Rightarrow> bool" where
  "is_digit c = (let n = char_nat c in 48 \<le> n \<and> n \<le> 57)"

definition is_hex :: "char \<Rightarrow> bool" where
  "is_hex c = (let n = char_nat c in
     (48 \<le> n \<and> n \<le> 57) \<or> (65 \<le> n \<and> n \<le> 70) \<or> (97 \<le> n \<and> n \<le> 102))"

text \<open>\<open>\w\<close> of \<open>re\<close>: alphanumeric in Unicode's sense, or an underscore.\<close>

definition is_word :: "char \<Rightarrow> bool" where
  "is_word c = (let n = char_nat c in
     (48 \<le> n \<and> n \<le> 57) \<or> (65 \<le> n \<and> n \<le> 90) \<or> n = 95 \<or> (97 \<le> n \<and> n \<le> 122)
     \<or> n = 170 \<or> n = 178 \<or> n = 179 \<or> n = 181 \<or> n = 185 \<or> n = 186 \<or> (188 \<le> n \<and> n \<le> 190)
     \<or> (192 \<le> n \<and> n \<le> 214) \<or> (216 \<le> n \<and> n \<le> 246) \<or> 248 \<le> n)"

definition lower_char :: "char \<Rightarrow> char" where
  "lower_char c = (let n = char_nat c in
     if (65 \<le> n \<and> n \<le> 90) \<or> (192 \<le> n \<and> n \<le> 222 \<and> n \<noteq> 215) then char_of (n + 32) else c)"

subsection \<open>Trimming, case, lines, substrings\<close>

definition py_lstrip :: "string \<Rightarrow> string" where
  "py_lstrip s = dropWhile py_space s"

definition py_strip :: "string \<Rightarrow> string" where
  "py_strip s = rev (dropWhile py_space (rev (py_lstrip s)))"

definition py_lower :: "string \<Rightarrow> string" where
  "py_lower s = map lower_char s"

text \<open>The line boundaries of \<open>str.splitlines\<close>; a carriage return with its line feed is one.\<close>

definition is_linebreak :: "char \<Rightarrow> bool" where
  "is_linebreak c = (let n = char_nat c in (10 \<le> n \<and> n \<le> 13) \<or> (28 \<le> n \<and> n \<le> 30) \<or> n = 133)"

fun splitlines_from :: "string \<Rightarrow> string \<Rightarrow> string list" where
  "splitlines_from acc [] = (if acc = [] then [] else [rev acc])"
| "splitlines_from acc (c # cs) =
     (if char_nat c = 13 \<and> cs \<noteq> [] \<and> char_nat (hd cs) = 10
      then splitlines_from acc cs
      else if is_linebreak c then rev acc # splitlines_from [] cs
      else splitlines_from (c # acc) cs)"

definition py_splitlines :: "string \<Rightarrow> string list" where
  "py_splitlines s = splitlines_from [] s"

text \<open>\<open>sub in s\<close>.\<close>

fun contains :: "string \<Rightarrow> string \<Rightarrow> bool" where
  "contains p [] = (p = [])"
| "contains p (c # cs) = (prefix p (c # cs) \<or> contains p cs)"

lemma contains_iff_sublist: "contains p s \<longleftrightarrow> sublist p s"
  by (induction s) (auto simp: sublist_Cons_right)

text \<open>\<open>s.split()\<close>: the maximal runs of non-space characters.\<close>

fun words_from :: "string \<Rightarrow> string \<Rightarrow> string list" where
  "words_from acc [] = (if acc = [] then [] else [rev acc])"
| "words_from acc (c # cs) =
     (if py_space c then (if acc = [] then words_from [] cs else rev acc # words_from [] cs)
      else words_from (c # acc) cs)"

definition py_split :: "string \<Rightarrow> string list" where
  "py_split s = words_from [] s"

text \<open>\<open>sep.join(xs)\<close>.\<close>

fun py_join :: "string \<Rightarrow> string list \<Rightarrow> string" where
  "py_join sep [] = []"
| "py_join sep [x] = x"
| "py_join sep (x # xs) = x @ sep @ py_join sep xs"

lemma py_strip_Nil [simp]: "py_strip [] = []"
  by (simp add: py_strip_def py_lstrip_def)

lemma py_strip_no_space_ends:
  assumes "py_strip s \<noteq> []"
  shows "\<not> py_space (last (py_strip s))" and "\<not> py_space (hd (py_strip s))"
proof -
  let ?l = "py_lstrip s"
  let ?d = "dropWhile py_space (rev ?l)"
  have d: "?d \<noteq> []" using assms by (simp add: py_strip_def)
  show "\<not> py_space (last (py_strip s))"
    using hd_dropWhile [OF d] d by (simp add: py_strip_def last_rev)
  obtain pre where pre: "rev ?l = pre @ ?d"
    by (metis takeWhile_dropWhile_id)
  have "?l = rev ?d @ rev pre" using arg_cong [OF pre, of rev] by simp
  moreover have "rev ?d \<noteq> []" using d by simp
  ultimately have "hd ?l = hd (rev ?d)" and "?l \<noteq> []"
    by (metis hd_append2) (metis \<open>?l = rev ?d @ rev pre\<close> \<open>rev ?d \<noteq> []\<close> append_is_Nil_conv)
  moreover have "\<not> py_space (hd ?l)"
    using hd_dropWhile [of py_space s] \<open>?l \<noteq> []\<close> by (simp add: py_lstrip_def)
  ultimately show "\<not> py_space (hd (py_strip s))"
    by (simp add: py_strip_def)
qed

lemma py_strip_idem [simp]: "py_strip (py_strip s) = py_strip s"
proof (cases "py_strip s = []")
  case False
  have l: "py_lstrip (py_strip s) = py_strip s"
    using py_strip_no_space_ends(2) [OF False] False
    by (cases "py_strip s") (simp_all add: py_lstrip_def)
  have "dropWhile py_space (rev (py_strip s)) = rev (py_strip s)"
    using py_strip_no_space_ends(1) [OF False] False
    by (cases "rev (py_strip s)") (simp_all add: last_rev [symmetric])
  with l show ?thesis by (simp add: py_strip_def [of "py_strip s"])
qed simp

lemma set_py_strip: "set (py_strip s) \<subseteq> set s"
  by (auto simp: py_strip_def py_lstrip_def dest!: set_dropWhileD)

subsection \<open>Numerals\<close>

definition digit_char :: "nat \<Rightarrow> char" where
  "digit_char d = (if d < 10 then char_of (48 + d) else char_of (87 + d))"

definition digit_val :: "char \<Rightarrow> nat" where
  "digit_val c = (let n = char_nat c in
     if n \<le> 57 then n - 48 else if n \<le> 70 then n - 55 else n - 87)"

text \<open>\<open>format(n, 'x')\<close> and \<open>str(n)\<close>: base 16 and base 10.\<close>

fun to_base :: "nat \<Rightarrow> nat \<Rightarrow> string" where
  "to_base b n = (if b < 2 \<or> n < b then [digit_char n]
                  else to_base b (n div b) @ [digit_char (n mod b)])"

declare to_base.simps [simp del]

definition of_base :: "nat \<Rightarrow> string \<Rightarrow> nat" where
  "of_base b s = foldl (\<lambda>a c. a * b + digit_val c) 0 s"

definition show_nat :: "nat \<Rightarrow> string" where
  "show_nat n = to_base 10 n"

definition show_int :: "int \<Rightarrow> string" where
  "show_int i = (if i < 0 then ''-'' @ show_nat (nat (- i)) else show_nat (nat i))"

text \<open>Zero padding on the left to a width, as in \<open>f"{n:04x}"\<close>.\<close>

definition zero_pad :: "nat \<Rightarrow> string \<Rightarrow> string" where
  "zero_pad w s = replicate (w - length s) (CHR ''0'') @ s"

definition hex4 :: "nat \<Rightarrow> string" where
  "hex4 n = zero_pad 4 (to_base 16 n)"

definition hex8_prefixed :: "nat \<Rightarrow> string" where
  "hex8_prefixed n = ''0x'' @ zero_pad 8 (to_base 16 n)"

lemma digit_val_digit_char: "d < 16 \<Longrightarrow> digit_val (digit_char d) = d"
  by (simp add: digit_val_def digit_char_def char_nat_def Let_def)

lemma char_nat_digit_char:
  "d < 16 \<Longrightarrow> char_nat (digit_char d) = (if d < 10 then 48 + d else 87 + d)"
  by (simp add: digit_char_def char_nat_def)

lemma is_hex_digit_char: "d < 16 \<Longrightarrow> is_hex (digit_char d)"
  by (auto simp: is_hex_def char_nat_digit_char Let_def)

lemma is_digit_digit_char: "d < 10 \<Longrightarrow> is_digit (digit_char d)"
  by (auto simp: is_digit_def char_nat_digit_char Let_def)

lemma of_base_append:
  "of_base b (s @ [c]) = of_base b s * b + digit_val c"
  by (simp add: of_base_def)

lemma of_to_base:
  assumes "2 \<le> b" "b \<le> 16"
  shows "of_base b (to_base b n) = n"
proof (induction n rule: less_induct)
  case (less n)
  show ?case
  proof (cases "n < b")
    case True
    then show ?thesis using assms by (simp add: to_base.simps [of b n] of_base_def digit_val_digit_char)
  next
    case False
    then have "n div b < n" using assms by (intro div_less_dividend) auto
    moreover have "n mod b < 16" using assms by (meson less_le_trans mod_less_divisor less_le_trans zero_less_numeral)
    ultimately show ?thesis using False assms less
      by (simp add: to_base.simps [of b n] of_base_append digit_val_digit_char)
  qed
qed

lemma to_base_nonempty [simp]: "to_base b n \<noteq> []"
  by (subst to_base.simps) simp

lemma set_to_base:
  assumes "2 \<le> b" and "\<And>d. d < b \<Longrightarrow> P (digit_char d)"
  shows "c \<in> set (to_base b n) \<Longrightarrow> P c"
proof (induction n rule: less_induct)
  case (less n)
  show ?case
  proof (cases "n < b")
    case True
    then show ?thesis using less.prems assms by (simp add: to_base.simps [of b n])
  next
    case False
    then have "n div b < n" using assms by (intro div_less_dividend) auto
    moreover have "c \<in> set (to_base b (n div b)) \<or> c = digit_char (n mod b)"
      using less.prems False assms(1) by (auto simp: to_base.simps [of b n])
    moreover have "n mod b < b" using assms(1) by simp
    ultimately show ?thesis using less.IH assms(2) by blast
  qed
qed

lemma hd_to_base:
  assumes "2 \<le> b" "b \<le> 16" "0 < n"
  shows "hd (to_base b n) \<noteq> CHR ''0''"
  using assms(3)
proof (induction n rule: less_induct)
  case (less n)
  show ?case
  proof (cases "n < b")
    case True
    then have "char_nat (digit_char n) \<noteq> 48"
      using less.prems assms by (simp add: char_nat_digit_char)
    moreover have "char_nat (CHR ''0'') = 48" by (simp add: char_nat_def)
    ultimately show ?thesis using True by (auto simp: to_base.simps [of b n])
  next
    case False
    have "n div b < n" "0 < n div b"
      using False assms by (auto simp: div_greater_zero_iff intro!: div_less_dividend)
    with less False assms show ?thesis
      by (simp add: to_base.simps [of b n] hd_append)
  qed
qed

lemma length_to_base:
  assumes "2 \<le> b" "0 < k"
  shows "length (to_base b n) \<le> k \<longleftrightarrow> n < b ^ k"
  using assms(2)
proof (induction k arbitrary: n)
  case (Suc k)
  show ?case
  proof (cases "n < b")
    case True
    moreover have "b \<le> b ^ Suc k" using assms(1) by (intro self_le_power) auto
    ultimately have "n < b ^ Suc k" by linarith
    with True show ?thesis by (simp add: to_base.simps [of b n])
  next
    case False
    then have len: "length (to_base b n) = Suc (length (to_base b (n div b)))"
      using assms by (simp add: to_base.simps [of b n])
    show ?thesis
    proof (cases "k = 0")
      case True
      then show ?thesis using False len
        by (simp add: Suc_le_eq)
    next
      case k: False
      then have "length (to_base b (n div b)) \<le> k \<longleftrightarrow> n div b < b ^ k"
        using Suc.IH by simp
      also have "\<dots> \<longleftrightarrow> n < b ^ Suc k"
        using assms(1) by (simp add: div_less_iff_less_mult mult.commute)
      finally show ?thesis using len by simp
    qed
  qed
qed simp

lemma of_base_zero_pad: "of_base b (zero_pad w s) = of_base b s"
proof -
  have "digit_val (CHR ''0'') = 0" by (simp add: digit_val_def char_nat_def)
  then have "foldl (\<lambda>a c. a * b + digit_val c) 0 (replicate k (CHR ''0'') @ s) = of_base b s" for k
    by (induction k) (simp_all add: of_base_def)
  then show ?thesis by (simp add: zero_pad_def of_base_def)
qed

lemma length_zero_pad: "length (zero_pad w s) = max w (length s)"
  by (simp add: zero_pad_def max_def)

lemma hex4_roundtrip: "of_base 16 (hex4 n) = n"
  by (simp add: hex4_def of_base_zero_pad of_to_base)

lemma length_hex4: "n < 65536 \<Longrightarrow> length (hex4 n) = 4"
  using length_to_base [of 16 4 n] by (simp add: hex4_def length_zero_pad max_def)

lemma hex4_inject: "hex4 m = hex4 n \<longleftrightarrow> m = n"
  by (metis hex4_roundtrip)

lemma show_nat_roundtrip: "of_base 10 (show_nat n) = n"
  by (simp add: show_nat_def of_to_base)

lemma show_nat_digits: "c \<in> set (show_nat n) \<Longrightarrow> is_digit c"
  unfolding show_nat_def by (rule set_to_base [where b = 10]) (auto intro: is_digit_digit_char)

subsection \<open>The number token of a C macro\<close>

text \<open>
  \<open>int(text, 0)\<close> on the token of \<open>core_usb_identity\<close>: hexadecimal after \<open>0x\<close>, otherwise
  decimal, where base 0 refuses a leading zero unless all digits are zero.
\<close>

definition has_hex_prefix :: "string \<Rightarrow> bool" where
  "has_hex_prefix t = (case t of c # d # _ \<Rightarrow> c = CHR ''0'' \<and> (d = CHR ''x'' \<or> d = CHR ''X'') | _ \<Rightarrow> False)"

definition int_base0 :: "string \<Rightarrow> nat option" where
  "int_base0 t =
     (if has_hex_prefix t then Some (of_base 16 (drop 2 t))
      else if hd t = CHR ''0'' \<and> (\<exists>c \<in> set t. c \<noteq> CHR ''0'') then None
      else Some (of_base 10 t))"

text \<open>
  The token \<open>(0[xX][0-9a-fA-F]+|[0-9]+)\b\<close> at the start of a text. The repetitions are greedy
  and the word boundary rules out every shorter match, so each alternative is its maximal run
  followed by a non-word character.
\<close>

definition at_boundary :: "string \<Rightarrow> bool" where
  "at_boundary s = (s = [] \<or> \<not> is_word (hd s))"

definition number_token :: "string \<Rightarrow> string option" where
  "number_token s =
     (let body = drop 2 s; hx = takeWhile is_hex body; dg = takeWhile is_digit s in
      if has_hex_prefix s \<and> hx \<noteq> [] \<and> at_boundary (dropWhile is_hex body)
      then Some (take 2 s @ hx)
      else if dg \<noteq> [] \<and> at_boundary (dropWhile is_digit s) then Some dg
      else None)"

text \<open>\<open>\s+\<close> and \<open>\s*\<close> in front of something that does not start with a space.\<close>

definition skip_spaces :: "string \<Rightarrow> string" where
  "skip_spaces s = dropWhile py_space s"

definition skip_spaces1 :: "string \<Rightarrow> string option" where
  "skip_spaces1 s = (case s of [] \<Rightarrow> None | c # cs \<Rightarrow> if py_space c then Some (skip_spaces cs) else None)"

definition skip_word :: "string \<Rightarrow> string \<Rightarrow> string option" where
  "skip_word w s = (if prefix w s then Some (drop (length w) s) else None)"

definition define_at :: "string \<Rightarrow> string \<Rightarrow> string option" where
  "define_at name s =
     Option.bind (skip_word ''#'' (skip_spaces s)) (\<lambda>s1.
     Option.bind (skip_word ''define'' (skip_spaces s1)) (\<lambda>s2.
     Option.bind (skip_spaces1 s2) (\<lambda>s3.
     Option.bind (skip_word name s3) (\<lambda>s4.
     Option.bind (skip_spaces1 s4) number_token))))"

text \<open>\<open>re.search\<close> with \<open>^\<close> in multi-line mode: the first line start that matches.\<close>

fun search_lines :: "(string \<Rightarrow> 'a option) \<Rightarrow> bool \<Rightarrow> string \<Rightarrow> 'a option" where
  "search_lines m bol [] = (if bol then m [] else None)"
| "search_lines m bol (c # cs) =
     (case (if bol then m (c # cs) else None) of
        Some x \<Rightarrow> Some x
      | None \<Rightarrow> search_lines m (c = newline) cs)"

definition search_define :: "string \<Rightarrow> string \<Rightarrow> string option" where
  "search_define name s = search_lines (define_at name) True s"

lemma search_lines_Some:
  "search_lines m bol s = Some x \<Longrightarrow>
     \<exists>pre post. s = pre @ post \<and> m post = Some x \<and>
       (if pre = [] then bol else last pre = newline)"
proof (induction m bol s rule: search_lines.induct)
  case (2 m bol c cs)
  show ?case
  proof (cases "(if bol then m (c # cs) else None) = None")
    case True
    with 2 obtain pre post where "cs = pre @ post" "m post = Some x"
      "if pre = [] then c = newline else last pre = newline"
      by auto
    then show ?thesis by (intro exI [of _ "c # pre"] exI [of _ post]) (auto split: if_splits)
  next
    case False
    with 2(2) have "bol \<and> m (c # cs) = Some x" by (auto split: if_splits)
    then show ?thesis by (intro exI [of _ "[]"] exI [of _ "c # cs"]) simp
  qed
qed (auto split: if_splits)

lemma search_lines_None:
  "search_lines m True (pre @ newline # post) = None \<Longrightarrow> m post = None"
proof -
  have "search_lines m bol (pre @ newline # post) = None \<Longrightarrow> m post = None" for bol
  proof (induction pre arbitrary: bol)
    case Nil
    then show ?case
      by (cases post) (auto split: option.splits if_splits)
  qed (auto split: option.splits if_splits)
  then show "search_lines m True (pre @ newline # post) = None \<Longrightarrow> m post = None" .
qed

lemma takeWhile_maximal:
  "takeWhile P s \<noteq> [] \<Longrightarrow> \<forall>c \<in> set (takeWhile P s). P c"
  by (auto dest: set_takeWhileD)

text \<open>What a number token is: a hexadecimal literal or a run of decimal digits.\<close>

lemma number_token_shape:
  assumes "number_token s = Some t"
  shows "prefix t s \<and>
    ((has_hex_prefix t \<and> drop 2 t \<noteq> [] \<and> (\<forall>c \<in> set (drop 2 t). is_hex c)) \<or>
     (t \<noteq> [] \<and> (\<forall>c \<in> set t. is_digit c)))"
proof (cases "has_hex_prefix s \<and> takeWhile is_hex (drop 2 s) \<noteq> [] \<and>
    at_boundary (dropWhile is_hex (drop 2 s))")
  case True
  then obtain c d r where s: "s = c # d # r" and hp: "c = CHR ''0''" "d = CHR ''x'' \<or> d = CHR ''X''"
    by (auto simp: has_hex_prefix_def split: list.splits)
  have t: "t = c # d # takeWhile is_hex r"
    using assms True s by (simp add: number_token_def Let_def)
  have "prefix (takeWhile is_hex r) r"
    by (metis prefixI takeWhile_dropWhile_id)
  then show ?thesis using t s hp True
    by (auto simp: has_hex_prefix_def dest: set_takeWhileD)
next
  case False
  then have "t = takeWhile is_digit s" "t \<noteq> []"
    using assms by (auto simp: number_token_def Let_def split: if_splits)
  then show ?thesis
    by (auto dest: set_takeWhileD) (metis prefixI takeWhile_dropWhile_id)
qed

subsection \<open>The port blocks of \<open>usbip port\<close>\<close>

text \<open>\<open>Port\s+(\d+):\<close> at the start of a text: the digits.\<close>

definition port_at :: "string \<Rightarrow> string option" where
  "port_at s =
     Option.bind (skip_word ''Port'' s) (\<lambda>s1.
     Option.bind (skip_spaces1 s1) (\<lambda>s2.
       let ds = takeWhile is_digit s2; r = dropWhile is_digit s2 in
       if ds \<noteq> [] \<and> r \<noteq> [] \<and> hd r = CHR '':'' then Some ds else None))"

text \<open>\<open>re.split\<close> at the line starts where a port header begins.\<close>

fun port_blocks :: "bool \<Rightarrow> string \<Rightarrow> string list" where
  "port_blocks bol [] = [[]]"
| "port_blocks bol (c # cs) =
     (let rest = port_blocks (c = newline) cs; cur = (c # hd rest) # tl rest in
      if bol \<and> port_at (c # cs) \<noteq> None then [] # cur else cur)"

lemma port_blocks_nonempty [simp]: "port_blocks bol s \<noteq> []"
  by (cases s) (simp_all add: Let_def)

lemma concat_port_blocks: "concat (port_blocks bol s) = s"
proof (induction bol s rule: port_blocks.induct)
  case (2 bol c cs)
  have "concat (port_blocks (c = newline) cs) = cs" by (rule 2)
  then have "hd (port_blocks (c = newline) cs) @ concat (tl (port_blocks (c = newline) cs)) = cs"
    by (metis concat.simps(2) list.collapse port_blocks_nonempty)
  then show ?case by (simp add: Let_def)
qed simp

lemma port_at_digits:
  assumes "port_at s = Some ds"
  shows "ds \<noteq> []" and "\<forall>c \<in> set ds. is_digit c"
  using assms
  by (auto simp: port_at_def Let_def split: if_splits dest: set_takeWhileD
      elim!: bind_eq_Some_conv [THEN iffD1, elim_format])

text \<open>\<open>str(int(digits))\<close>: the canonical numeral of a digit string.\<close>

definition canonical_port :: "string \<Rightarrow> string" where
  "canonical_port ds = show_nat (of_base 10 ds)"

lemma canonical_port_idem: "canonical_port (canonical_port ds) = canonical_port ds"
  by (simp add: canonical_port_def show_nat_roundtrip)

subsection \<open>Decimal arguments\<close>

text \<open>
  \<open>int(text)\<close>: surrounding white space, a sign, and decimal digits with single underscores
  between them.
\<close>

fun digits_ok :: "bool \<Rightarrow> string \<Rightarrow> bool" where
  "digits_ok after_digit [] = after_digit"
| "digits_ok after_digit (c # cs) =
     (if is_digit c then digits_ok True cs
      else c = CHR ''_'' \<and> after_digit \<and> digits_ok False cs)"

definition py_int :: "string \<Rightarrow> int option" where
  "py_int t =
     (let s = py_strip t;
          neg = (s \<noteq> [] \<and> hd s = CHR ''-'');
          body = (if s \<noteq> [] \<and> (hd s = CHR ''-'' \<or> hd s = CHR ''+'') then tl s else s) in
      if digits_ok False body
      then Some ((if neg then -1 else 1) * int (of_base 10 (filter is_digit body)))
      else None)"

lemma digits_ok_digits: "s \<noteq> [] \<Longrightarrow> \<forall>c \<in> set s. is_digit c \<Longrightarrow> digits_ok b s"
  by (induction s arbitrary: b) (auto, metis digits_ok.simps(1) list.set_cases)

lemma digit_not_space: "is_digit c \<Longrightarrow> \<not> py_space c"
  by (auto simp: is_digit_def py_space_def Let_def)

lemma digit_not_sign: "is_digit c \<Longrightarrow> c \<noteq> CHR ''-'' \<and> c \<noteq> CHR ''+''"
  by (auto simp: is_digit_def char_nat_def)

lemma strip_digits: "\<forall>c \<in> set s. is_digit c \<Longrightarrow> py_strip s = s"
proof -
  assume d: "\<forall>c \<in> set s. is_digit c"
  have drop: "dropWhile py_space t = t" if "set t \<subseteq> set s" for t
    using that d digit_not_space by (cases t) auto
  show "py_strip s = s"
    by (simp add: py_strip_def py_lstrip_def drop)
qed

lemma py_int_show_int: "py_int (show_int i) = Some i"
proof -
  let ?n = "show_nat (nat \<bar>i\<bar>)"
  have dig: "\<forall>c \<in> set ?n. is_digit c" by (auto dest: show_nat_digits)
  have ne: "?n \<noteq> []" by (simp add: show_nat_def)
  have ok: "digits_ok False ?n" using digits_ok_digits [OF ne dig] .
  have filt: "filter is_digit ?n = ?n" using dig by simp
  show ?thesis
  proof (cases "i < 0")
    case True
    have minus: "\<not> py_space (CHR ''-'')" by (simp add: py_space_def char_nat_def)
    have "py_space (last ?n) = False" using dig ne digit_not_space by (meson last_in_set)
    then have "dropWhile py_space (rev (CHR ''-'' # ?n)) = rev (CHR ''-'' # ?n)"
      using ne by (cases "rev ?n") (auto simp: last_rev [symmetric] hd_rev)
    then have "py_strip (CHR ''-'' # ?n) = CHR ''-'' # ?n"
      using minus by (simp add: py_strip_def py_lstrip_def)
    then show ?thesis using True ok filt
      by (simp add: show_int_def py_int_def show_nat_roundtrip)
  next
    case False
    have "hd ?n \<noteq> CHR ''-''" "hd ?n \<noteq> CHR ''+''"
      using dig ne digit_not_sign by (meson hd_in_set)+
    then show ?thesis using False ok filt strip_digits [OF dig]
      by (simp add: show_int_def py_int_def show_nat_roundtrip)
  qed
qed

subsection \<open>\<open>repr\<close> of the values in a readiness report\<close>

definition py_bool :: "bool \<Rightarrow> string" where
  "py_bool b = (if b then ''True'' else ''False'')"

definition repr_char :: "char \<Rightarrow> char \<Rightarrow> string" where
  "repr_char q c =
     (let n = char_nat c in
      if c = q \<or> n = 92 then [CHR 0x5C, c]
      else if n = 10 then [CHR 0x5C, CHR ''n'']
      else if n = 13 then [CHR 0x5C, CHR ''r'']
      else if n = 9 then [CHR 0x5C, CHR ''t'']
      else if n < 32 \<or> (127 \<le> n \<and> n \<le> 160) \<or> n = 173
      then [CHR 0x5C, CHR ''x''] @ zero_pad 2 (to_base 16 n)
      else [c])"

definition py_repr :: "string \<Rightarrow> string" where
  "py_repr s =
     (let q = (if CHR 0x27 \<in> set s \<and> CHR 0x22 \<notin> set s then CHR 0x22 else CHR 0x27)
      in [q] @ concat (map (repr_char q) s) @ [q])"

definition py_repr_list :: "string list \<Rightarrow> string" where
  "py_repr_list xs = ''['' @ py_join '', '' (map py_repr xs) @ '']''"

end
