(* ===== verification/Json.thy ===== *)
theory Json
  imports PyText
begin

section \<open>JSON documents and the Python operations on them\<close>

text \<open>
  \<open>state.json\<close>, \<open>metadata.json\<close> and the two catalog files are JSON. This theory gives the
  values \<open>json.loads\<close> returns (numbers are integers: none of the four documents holds a
  fraction), \<open>json.dumps\<close> in the two layouts the runner asks for, and the subscripting,
  iteration and truth tests that the code applies to a loaded document, with the exceptions
  Python raises on a value of the wrong shape.
\<close>

datatype json =
    JNull
  | JBool bool
  | JInt int
  | JStr string
  | JList "json list"
  | JObj "(string \<times> json) list"

subsection \<open>Printing\<close>

definition json_escape :: "char \<Rightarrow> string" where
  "json_escape c =
     (let n = char_nat c in
      if n = 34 \<or> n = 92 then [CHR 0x5C, c]
      else if n = 10 then [CHR 0x5C, CHR ''n'']
      else if n = 13 then [CHR 0x5C, CHR ''r'']
      else if n = 9 then [CHR 0x5C, CHR ''t'']
      else if n = 12 then [CHR 0x5C, CHR ''f'']
      else if n = 8 then [CHR 0x5C, CHR ''b'']
      else if n < 32 \<or> 126 < n then [CHR 0x5C, CHR ''u''] @ zero_pad 4 (to_base 16 n)
      else [c])"

definition json_quote :: "string \<Rightarrow> string" where
  "json_quote s = [CHR 0x22] @ concat (map json_escape s) @ [CHR 0x22]"

definition json_break :: "bool \<Rightarrow> nat \<Rightarrow> string" where
  "json_break compact k = (if compact then [] else newline # replicate (2 * k) (CHR '' ''))"

text \<open>
  \<open>json.dumps(v, indent=2)\<close>, and with \<open>compact\<close> the single-line form with the separators
  \<open>(",", ":")\<close>.
\<close>

fun json_dumps :: "bool \<Rightarrow> nat \<Rightarrow> json \<Rightarrow> string" where
  "json_dumps compact k JNull = ''null''"
| "json_dumps compact k (JBool b) = (if b then ''true'' else ''false'')"
| "json_dumps compact k (JInt i) = show_int i"
| "json_dumps compact k (JStr s) = json_quote s"
| "json_dumps compact k (JList xs) =
     (if xs = [] then ''[]''
      else ''['' @ json_break compact (Suc k)
        @ py_join ('','' @ json_break compact (Suc k)) (map (json_dumps compact (Suc k)) xs)
        @ json_break compact k @ '']'')"
| "json_dumps compact k (JObj kvs) =
     (if kvs = [] then [CHR ''{'', CHR ''}'']
      else [CHR ''{''] @ json_break compact (Suc k)
        @ py_join ('','' @ json_break compact (Suc k))
            (map (\<lambda>(key, v). json_quote key @ (if compact then '':'' else '': '')
               @ json_dumps compact (Suc k) v) kvs)
        @ json_break compact k @ [CHR ''}''])"

text \<open>\<open>sort_keys=True\<close>: the keys of every object in code point order.\<close>

fun json_sort :: "json \<Rightarrow> json" where
  "json_sort (JList xs) = JList (map json_sort xs)"
| "json_sort (JObj kvs) = JObj (sort_key fst (map (\<lambda>(key, v). (key, json_sort v)) kvs))"
| "json_sort v = v"

subsection \<open>Reading a loaded document\<close>

text \<open>\<open>v[key]\<close> with a string key.\<close>

definition json_get :: "json \<Rightarrow> string \<Rightarrow> exn + json" where
  "json_get v key = (case v of
     JObj kvs \<Rightarrow> (case map_of kvs key of None \<Rightarrow> Inl (KeyError key) | Some x \<Rightarrow> Inr x)
   | _ \<Rightarrow> Inl TypeError)"

text \<open>\<open>v.get(key, default)\<close>.\<close>

definition json_get_or :: "json \<Rightarrow> string \<Rightarrow> json \<Rightarrow> exn + json" where
  "json_get_or v key d = (case v of
     JObj kvs \<Rightarrow> (case map_of kvs key of None \<Rightarrow> Inr d | Some x \<Rightarrow> Inr x)
   | _ \<Rightarrow> Inl AttributeError)"

text \<open>\<open>for x in v\<close>: the items of a list, the keys of an object, the characters of a string.\<close>

definition json_iter :: "json \<Rightarrow> exn + json list" where
  "json_iter v = (case v of
     JList xs \<Rightarrow> Inr xs
   | JObj kvs \<Rightarrow> Inr (map (JStr \<circ> fst) kvs)
   | JStr s \<Rightarrow> Inr (map (\<lambda>c. JStr [c]) s)
   | _ \<Rightarrow> Inl TypeError)"

text \<open>A value used as a dictionary key or set element must be hashable.\<close>

definition json_hashable :: "json \<Rightarrow> bool" where
  "json_hashable v = (case v of JList _ \<Rightarrow> False | JObj _ \<Rightarrow> False | _ \<Rightarrow> True)"

definition json_key :: "json \<Rightarrow> exn + json" where
  "json_key v = (if json_hashable v then Inr v else Inl TypeError)"

text \<open>Truth testing.\<close>

definition json_truth :: "json \<Rightarrow> bool" where
  "json_truth v = (case v of
     JNull \<Rightarrow> False | JBool b \<Rightarrow> b | JInt i \<Rightarrow> i \<noteq> 0 | JStr s \<Rightarrow> s \<noteq> []
   | JList xs \<Rightarrow> xs \<noteq> [] | JObj kvs \<Rightarrow> kvs \<noteq> [])"

text \<open>\<open>int(v)\<close> on a loaded value.\<close>

definition json_int :: "json \<Rightarrow> exn + int" where
  "json_int v = (case v of
     JInt i \<Rightarrow> Inr i
   | JBool b \<Rightarrow> Inr (if b then 1 else 0)
   | JStr s \<Rightarrow> (case py_int s of Some i \<Rightarrow> Inr i | None \<Rightarrow> Inl (ValueError s))
   | _ \<Rightarrow> Inl TypeError)"

definition json_opt_str :: "string option \<Rightarrow> json" where
  "json_opt_str x = (case x of None \<Rightarrow> JNull | Some s \<Rightarrow> JStr s)"

definition json_strs :: "string list \<Rightarrow> json" where
  "json_strs xs = JList (map JStr xs)"

subsection \<open>Sequencing of fallible pure code\<close>

definition bindE :: "exn + 'a \<Rightarrow> ('a \<Rightarrow> exn + 'b) \<Rightarrow> exn + 'b" where
  "bindE m f = (case m of Inl e \<Rightarrow> Inl e | Inr x \<Rightarrow> f x)"

fun mapE :: "('a \<Rightarrow> exn + 'b) \<Rightarrow> 'a list \<Rightarrow> exn + 'b list" where
  "mapE f [] = Inr []"
| "mapE f (x # xs) = bindE (f x) (\<lambda>y. bindE (mapE f xs) (\<lambda>ys. Inr (y # ys)))"

lemma bindE_simps [simp]:
  "bindE (Inl e) f = Inl e"
  "bindE (Inr x) f = f x"
  by (simp_all add: bindE_def)

lemma bindE_Inr_conv: "bindE m f = Inr y \<longleftrightarrow> (\<exists>x. m = Inr x \<and> f x = Inr y)"
  by (cases m) auto

lemma bindE_Inl_conv: "bindE m f = Inl e \<longleftrightarrow> m = Inl e \<or> (\<exists>x. m = Inr x \<and> f x = Inl e)"
  by (cases m) auto

lemma mapE_Inr_conv: "mapE f xs = Inr ys \<longleftrightarrow> list_all2 (\<lambda>x y. f x = Inr y) xs ys"
proof (induction xs arbitrary: ys)
  case Nil
  then show ?case by auto
next
  case (Cons x xs)
  then show ?case
    by (cases ys) (auto simp: bindE_Inr_conv)
qed

lemma mapE_pure: "(\<And>x. x \<in> set xs \<Longrightarrow> f x = Inr (g x)) \<Longrightarrow> mapE f xs = Inr (map g xs)"
  by (induction xs) auto

text \<open>Lifting pure fallible code into an action.\<close>

definition liftE :: "exn + 'a \<Rightarrow> ('s, 'a) act" where
  "liftE r = (case r of Inl e \<Rightarrow> raiseA e | Inr x \<Rightarrow> retA x)"

lemma liftE_simps [simp]:
  "liftE (Inl e) = raiseA e"
  "liftE (Inr x) = retA x"
  by (simp_all add: liftE_def)

context effect_contract
begin

lemma within_liftE: "within R (liftE r)"
  by (cases r) (simp_all add: within_retA within_raiseA)

end

end
