(* ===== verification/Host.thy ===== *)
theory Host
  imports Json
begin

section \<open>The host: files, processes, time and external programs\<close>

text \<open>
  The runner is a client of the operating system. The record \<open>host\<close> is the part of it that the
  runner reads or writes: a clock, the files and symbolic links, the process table, the
  programs on the search path. What other programs do is a parameter: the record \<open>env\<close> gives
  the outcome of an external command, the delivery of a signal to a program, the evolution of
  the host while the runner waits, and the PC/SC library. The runner's own calls
  (\<open>pathlib\<close>, \<open>subprocess\<close>, \<open>os\<close>, \<open>time\<close>, \<open>shutil\<close>) are defined here on the host, with
  their exceptions, and on top of them the helper functions at the head of \<open>harness.py\<close>.
\<close>

subsection \<open>State\<close>

type_synonym path = "string list"

definition path_str :: "path \<Rightarrow> string" where
  "path_str p = (if p = [] then ''/'' else concat (map (\<lambda>c. CHR ''/'' # c) p))"

text \<open>A file holds plain text, or the text of a JSON document.\<close>

datatype content = Text string | Doc json

datatype node = Dir | File content

datatype pstat = Running | Zombie int

record proc =
  pgid :: int
  pstatus :: pstat
  owned :: bool
  comm :: string

datatype event =
    EvRun "string list"
  | EvSpawn "string list" int
  | EvKillpg int nat
  | EvKill int nat
  | EvPrint string

record host =
  now :: nat
  nodes :: "(path \<times> node) list"
  links :: "(path \<times> path) list"
  denied :: "path list"
  procs :: "(int \<times> proc) list"
  next_pid :: int
  tools :: "string list"
  environ :: "(string \<times> string) list"
  is_linux :: bool
  is_root :: bool
  lock_busy :: bool
  cards_open :: nat
  trace :: "event list"

text \<open>
  The clock counts milliseconds. A command either fails to start or runs for some time and
  exits; a duration \<open>None\<close> is a command that never exits.
\<close>

datatype run_result =
    SpawnFailed os_kind string
  | Finished int string string "nat option"

record env =
  ext_run :: "string list \<Rightarrow> path option \<Rightarrow> host \<Rightarrow> run_result \<times> host"
  ext_spawn :: "string list \<Rightarrow> (string \<times> string) list \<Rightarrow> host \<Rightarrow> os_kind option \<times> host"
  ext_idle :: "nat \<Rightarrow> host \<Rightarrow> host"
  ext_wait :: "int \<Rightarrow> nat option \<Rightarrow> host \<Rightarrow> host"
  ext_signal :: "int \<Rightarrow> nat \<Rightarrow> host \<Rightarrow> host"
  pcsc_symbols :: "host \<Rightarrow> string list option option"
  pcsc_establish :: "host \<Rightarrow> int \<times> host"
  pcsc_size :: "host \<Rightarrow> int \<times> nat \<times> host"
  pcsc_fill :: "nat \<Rightarrow> host \<Rightarrow> int \<times> string \<times> host"
  pcsc_release :: "host \<Rightarrow> host"
  wall_clock :: "host \<Rightarrow> string"
  platform_text :: "host \<Rightarrow> string"

text \<open>
  Whatever an external program does, it cannot set the clock back, reuse the runner's next
  process id, change the runner's environment and identity, or undo what the runner did.
\<close>

definition framed :: "host \<Rightarrow> host \<Rightarrow> host" where
  "framed h h' = h'\<lparr>now := max (now h) (now h'), next_pid := max (next_pid h) (next_pid h'),
     environ := environ h, is_linux := is_linux h, is_root := is_root h,
     cards_open := cards_open h, trace := trace h\<rparr>"

record world0 =
  host :: host

lemma framed_simps [simp]:
  "now (framed h h') = max (now h) (now h')"
  "next_pid (framed h h') = max (next_pid h) (next_pid h')"
  "nodes (framed h h') = nodes h'"
  "links (framed h h') = links h'"
  "denied (framed h h') = denied h'"
  "procs (framed h h') = procs h'"
  "tools (framed h h') = tools h'"
  "lock_busy (framed h h') = lock_busy h'"
  "environ (framed h h') = environ h"
  "is_linux (framed h h') = is_linux h"
  "is_root (framed h h') = is_root h"
  "cards_open (framed h h') = cards_open h"
  "trace (framed h h') = trace h"
  by (simp_all add: framed_def)

lemma framed_self [simp]: "framed h h = h"
  by (simp add: framed_def)

text \<open>Actions that only look at or change the host.\<close>

definition hostA :: "(host \<Rightarrow> 'a outcome \<times> host) \<Rightarrow> ('z world0_scheme, 'a) act" where
  "hostA f = (\<lambda>w. case f (host w) of (r, h) \<Rightarrow> (r, w\<lparr>host := h\<rparr>))"

definition askH :: "(host \<Rightarrow> 'a) \<Rightarrow> ('z world0_scheme, 'a) act" where
  "askH f = getsA (\<lambda>w. f (host w))"

definition logA :: "event \<Rightarrow> ('z world0_scheme, unit) act" where
  "logA ev = modifyA (\<lambda>w. w\<lparr>host := (host w)\<lparr>trace := trace (host w) @ [ev]\<rparr>\<rparr>)"

lemma run_hostA [act_simps, simp]:
  "f (host w) = (r, h) \<Longrightarrow> hostA f w = (r, w\<lparr>host := h\<rparr>)"
  by (simp add: hostA_def)

lemma run_askH [act_simps, simp]: "askH f w = (Ret (f (host w)), w)"
  by (simp add: askH_def)

lemma bind_askH [simp]: "bindA (askH f) k w = k (f (host w)) w"
  by (simp add: askH_def)

lemma run_logA [act_simps, simp]:
  "logA ev w = (Ret (), w\<lparr>host := (host w)\<lparr>trace := trace (host w) @ [ev]\<rparr>\<rparr>)"
  by (simp add: logA_def)

definition printA :: "string \<Rightarrow> ('z world0_scheme, unit) act" where
  "printA s = logA (EvPrint s)"

subsection \<open>Files\<close>

definition node_at :: "host \<Rightarrow> path \<Rightarrow> node option" where
  "node_at h p = (if p = [] then Some Dir else map_of (nodes h) p)"

definition path_exists :: "host \<Rightarrow> path \<Rightarrow> bool" where
  "path_exists h p \<longleftrightarrow> node_at h p \<noteq> None"

definition is_dir :: "host \<Rightarrow> path \<Rightarrow> bool" where
  "is_dir h p \<longleftrightarrow> node_at h p = Some Dir"

definition is_file :: "host \<Rightarrow> path \<Rightarrow> bool" where
  "is_file h p \<longleftrightarrow> (case node_at h p of Some (File _) \<Rightarrow> True | _ \<Rightarrow> False)"

definition realpath :: "host \<Rightarrow> path \<Rightarrow> path" where
  "realpath h p = (case map_of (links h) p of None \<Rightarrow> p | Some q \<Rightarrow> q)"

definition put_node :: "path \<Rightarrow> node \<Rightarrow> host \<Rightarrow> host" where
  "put_node p n h = h\<lparr>nodes := AList.update p n (nodes h)\<rparr>"

text \<open>The entries \<open>root/<name1>/name2\<close> whose first name satisfies a pattern, in directory order.\<close>

definition glob2 :: "host \<Rightarrow> path \<Rightarrow> (string \<Rightarrow> bool) \<Rightarrow> string \<Rightarrow> path list" where
  "glob2 h root pat leaf =
     filter (\<lambda>p. length p = length root + 2 \<and> take (length root) p = root
               \<and> pat (p ! length root) \<and> last p = leaf) (map fst (nodes h))"

definition content_text :: "content \<Rightarrow> string" where
  "content_text c = (case c of Text s \<Rightarrow> s | Doc j \<Rightarrow> json_dumps False 0 j @ [newline])"

definition read_result :: "host \<Rightarrow> path \<Rightarrow> exn + content" where
  "read_result h p =
     (if p \<in> set (denied h) then Inl (OSError EACCES (path_str p))
      else case node_at h p of
        None \<Rightarrow> Inl (OSError ENOENT (path_str p))
      | Some Dir \<Rightarrow> Inl (OSError EISDIR (path_str p))
      | Some (File c) \<Rightarrow> Inr c)"

definition read_content :: "path \<Rightarrow> ('z world0_scheme, content) act" where
  "read_content p = bindA (askH (\<lambda>h. read_result h p)) liftE"

text \<open>A read whose \<open>OSError\<close> the caller catches.\<close>

definition read_opt :: "host \<Rightarrow> path \<Rightarrow> string option" where
  "read_opt h p = (case read_result h p of Inl _ \<Rightarrow> None | Inr c \<Rightarrow> Some (content_text c))"

text \<open>\<open>Path.read_text\<close> and \<open>json.loads(Path.read_text())\<close>.\<close>

definition read_text :: "path \<Rightarrow> ('z world0_scheme, string) act" where
  "read_text p = bindA (read_content p) (\<lambda>c. retA (content_text c))"

definition read_json :: "path \<Rightarrow> ('z world0_scheme, json) act" where
  "read_json p = bindA (read_content p) (\<lambda>c.
     case c of Doc j \<Rightarrow> retA j | Text s \<Rightarrow> raiseA (ValueError ''JSONDecodeError''))"

text \<open>Opening for writing: the parent directory must exist and the target be writable.\<close>

definition open_error :: "host \<Rightarrow> path \<Rightarrow> exn option" where
  "open_error h p =
     (if p \<in> set (denied h) then Some (OSError EACCES (path_str p))
      else if p = [] \<or> is_dir h p then Some (OSError EISDIR (path_str p))
      else case node_at h (butlast p) of
        None \<Rightarrow> Some (OSError ENOENT (path_str p))
      | Some (File _) \<Rightarrow> Some (OSError ENOTDIR (path_str p))
      | Some Dir \<Rightarrow> None)"

definition write_content :: "path \<Rightarrow> content \<Rightarrow> ('z world0_scheme, unit) act" where
  "write_content p c = hostA (\<lambda>h. case open_error h p of
     Some e \<Rightarrow> (Exn e, h) | None \<Rightarrow> (Ret (), put_node p (File c) h))"

definition write_text :: "path \<Rightarrow> string \<Rightarrow> ('z world0_scheme, unit) act" where
  "write_text p s = write_content p (Text s)"

definition write_json :: "path \<Rightarrow> json \<Rightarrow> ('z world0_scheme, unit) act" where
  "write_json p j = write_content p (Doc j)"

definition file_text :: "host \<Rightarrow> path \<Rightarrow> string" where
  "file_text h p = (case node_at h p of Some (File c) \<Rightarrow> content_text c | _ \<Rightarrow> [])"

text \<open>\<open>open(p, "a")\<close>: the old content is kept; then \<open>write\<close> appends to it.\<close>

definition open_append :: "path \<Rightarrow> ('z world0_scheme, unit) act" where
  "open_append p = hostA (\<lambda>h. case open_error h p of
     Some e \<Rightarrow> (Exn e, h)
   | None \<Rightarrow> (Ret (), if is_file h p then h else put_node p (File (Text [])) h))"

definition append_text :: "path \<Rightarrow> string \<Rightarrow> ('z world0_scheme, unit) act" where
  "append_text p s = hostA (\<lambda>h. (Ret (),
     if s \<noteq> [] \<and> is_file h p then put_node p (File (Text (file_text h p @ s))) h else h))"

text \<open>
  \<open>Path.mkdir(parents=True, exist_ok=...)\<close>: missing ancestors are created first, from the top.
\<close>

fun mkdir_chain :: "path list \<Rightarrow> host \<Rightarrow> exn option \<times> host" where
  "mkdir_chain [] h = (None, h)"
| "mkdir_chain (q # qs) h =
     (case node_at h q of
        Some Dir \<Rightarrow> mkdir_chain qs h
      | Some (File _) \<Rightarrow> (Some (OSError ENOTDIR (path_str q)), h)
      | None \<Rightarrow> (if q \<in> set (denied h) then (Some (OSError EACCES (path_str q)), h)
                 else mkdir_chain qs (put_node q Dir h)))"

definition ancestors :: "path \<Rightarrow> path list" where
  "ancestors p = map (\<lambda>n. take n p) [1..<length p]"

definition mkdir_parents :: "bool \<Rightarrow> path \<Rightarrow> ('z world0_scheme, unit) act" where
  "mkdir_parents exist_ok p = hostA (\<lambda>h.
     if path_exists h p then
       (if exist_ok \<and> is_dir h p then Ret () else Exn (OSError EEXIST (path_str p)), h)
     else (case mkdir_chain (ancestors p @ [p]) h of
             (Some e, h') \<Rightarrow> (Exn e, h') | (None, h') \<Rightarrow> (Ret (), h')))"

text \<open>\<open>shutil.rmtree(p, ignore_errors=True)\<close>; entries that may not be removed stay.\<close>

definition rmtree :: "path \<Rightarrow> ('z world0_scheme, unit) act" where
  "rmtree p = hostA (\<lambda>h. (Ret (),
     h\<lparr>nodes := filter (\<lambda>(q, _). \<not> prefix p q \<or> q \<in> set (denied h)) (nodes h)\<rparr>))"

text \<open>\<open>shutil.which(name) is not None\<close>.\<close>

definition which :: "host \<Rightarrow> string \<Rightarrow> bool" where
  "which h name \<longleftrightarrow> name \<in> set (tools h)"

definition getenv :: "host \<Rightarrow> string \<Rightarrow> string option" where
  "getenv h name = map_of (environ h) name"

subsection \<open>Time\<close>

text \<open>\<open>time.monotonic()\<close> and \<open>time.sleep\<close>, which suspends for at least the given time.\<close>

definition monotonic :: "('z world0_scheme, nat) act" where
  "monotonic = askH now"

definition pass_time :: "nat \<Rightarrow> host \<Rightarrow> host" where
  "pass_time t h = h\<lparr>now := max (now h) t\<rparr>"

definition sleepA :: "env \<Rightarrow> nat \<Rightarrow> ('z world0_scheme, unit) act" where
  "sleepA E d = hostA (\<lambda>h. (Ret (), pass_time (now h + d) (framed h (ext_idle E d h))))"

text \<open>
  \<open>while time.monotonic() < deadline: body; time.sleep(delay)\<close>, where the body may leave the
  loop with a value. The number of rounds is bounded by the time that is left, because every
  round sleeps; \<open>poll_until_unfold\<close> in \<open>Process\<close> shows the bound is never reached.
\<close>

fun poll_fuel :: "nat \<Rightarrow> env \<Rightarrow> nat \<Rightarrow> nat \<Rightarrow> ('z world0_scheme, 'a option) act
    \<Rightarrow> ('z world0_scheme, 'a option) act" where
  "poll_fuel 0 E deadline delay body = blockA"
| "poll_fuel (Suc n) E deadline delay body =
     bindA monotonic (\<lambda>t.
       if t < deadline then
         bindA body (\<lambda>r. case r of
           Some x \<Rightarrow> retA (Some x)
         | None \<Rightarrow> thenA (sleepA E delay) (poll_fuel n E deadline delay body))
       else retA None)"

definition poll_until :: "env \<Rightarrow> nat \<Rightarrow> nat \<Rightarrow> ('z world0_scheme, 'a option) act
    \<Rightarrow> ('z world0_scheme, 'a option) act" where
  "poll_until E deadline delay body = (\<lambda>w.
     poll_fuel (Suc (Suc ((deadline - now (host w)) div delay))) E deadline delay body w)"

subsection \<open>External commands\<close>

record completed =
  cp_rc :: int
  cp_out :: "string option"
  cp_err :: "string option"

definition timeout_message :: "string list \<Rightarrow> nat \<Rightarrow> string" where
  "timeout_message argv t =
     ''Command '' @ [CHR 0x27] @ py_repr_list argv @ [CHR 0x27] @ '' timed out after ''
     @ show_nat t @ '' seconds''"

text \<open>
  \<open>subprocess.run\<close> with captured output: past the timeout the child is killed and
  \<open>TimeoutExpired\<close> raised; without one, a command that never exits blocks the runner.
\<close>

definition subprocess_run ::
  "env \<Rightarrow> string list \<Rightarrow> path option \<Rightarrow> nat option \<Rightarrow> ('z world0_scheme, int \<times> string \<times> string) act"
  where
  "subprocess_run E argv cwd timeout = hostA (\<lambda>h0.
     let h = h0\<lparr>trace := trace h0 @ [EvRun argv]\<rparr> in
     case ext_run E argv cwd h of (r, h1) \<Rightarrow>
       let h2 = framed h h1 in
       (case r of
          SpawnFailed k m \<Rightarrow> (Exn (OSError k m), h2)
        | Finished rc out err dur \<Rightarrow>
            (case (timeout, dur) of
               (None, None) \<Rightarrow> (Blocked, h2)
             | (None, Some d) \<Rightarrow> (Ret (rc, out, err), pass_time (now h + d) h2)
             | (Some t, None) \<Rightarrow>
                 (Exn (TimeoutExpired (timeout_message argv t)), pass_time (now h + 1000 * t) h2)
             | (Some t, Some d) \<Rightarrow>
                 if d \<le> 1000 * t then (Ret (rc, out, err), pass_time (now h + d) h2)
                 else (Exn (TimeoutExpired (timeout_message argv t)),
                       pass_time (now h + 1000 * t) h2))))"

definition or_text :: "string option \<Rightarrow> string option \<Rightarrow> string" where
  "or_text a b = (case a of Some (c # cs) \<Rightarrow> c # cs | _ \<Rightarrow> (case b of Some s \<Rightarrow> s | None \<Rightarrow> []))"

text \<open>
  \<open>run_command\<close>: the output goes to \<open>log\<close> when one is given, otherwise it is captured; with
  \<open>check\<close> a nonzero exit status is a \<open>HarnessError\<close>.
\<close>

definition finish_command :: "string list \<Rightarrow> path option \<Rightarrow> bool \<Rightarrow> int \<times> string \<times> string
    \<Rightarrow> ('z world0_scheme, completed) act" where
  "finish_command argv log check = (\<lambda>(rc, out, err).
     bindA (case log of None \<Rightarrow> retA () | Some f \<Rightarrow> append_text f (out @ err)) (\<lambda>_.
       let result = (if log = None then \<lparr>cp_rc = rc, cp_out = Some out, cp_err = Some err\<rparr>
                     else \<lparr>cp_rc = rc, cp_out = None, cp_err = None\<rparr>) in
       if check \<and> rc \<noteq> 0 then
         (let detail = (if log \<noteq> None then [] else py_strip (or_text (cp_out result) (cp_err result)))
          in raiseA (HarnessError (''command failed ('' @ show_int rc @ ''): ''
               @ py_join '' '' argv @ [newline] @ detail)))
       else retA result))"

definition run_command :: "env \<Rightarrow> string list \<Rightarrow> path option \<Rightarrow> nat option \<Rightarrow> path option \<Rightarrow> bool
    \<Rightarrow> ('z world0_scheme, completed) act" where
  "run_command E argv cwd timeout log check =
     bindA (subprocess_run E argv cwd timeout) (finish_command argv log check)"

definition git_value :: "env \<Rightarrow> path \<Rightarrow> string list \<Rightarrow> string \<Rightarrow> ('z world0_scheme, string) act" where
  "git_value E p args dflt =
     catchA
       (bindA (run_command E ([''git'', ''-C'', path_str p] @ args) None None None True) (\<lambda>r.
          retA (py_strip (case cp_out r of Some s \<Rightarrow> s | None \<Rightarrow> []))))
       (onA (\<lambda>e. is_harness_error e \<or> is_os_error e) (\<lambda>_. retA dflt))"

definition tool_version :: "env \<Rightarrow> string list \<Rightarrow> ('z world0_scheme, string) act" where
  "tool_version E argv =
     catchA
       (bindA (run_command E argv None (Some 5) None False) (\<lambda>r.
          case py_splitlines (or_text (cp_out r) (cp_err r)) of
            [] \<Rightarrow> retA ''unknown''
          | v # _ \<Rightarrow> retA (py_strip v)))
       (onA (\<lambda>e. is_os_error e \<or> is_timeout e) (\<lambda>_. retA ''unavailable''))"

text \<open>
  \<open>copy_core_tree\<close>: the tree below \<open>source\<close> without the ignored names, at any depth. An
  unreadable file makes \<open>shutil.Error\<close> (an \<open>OSError\<close>) after the rest was copied.
\<close>

definition ignored_names :: "string list" where
  "ignored_names = [''.git'', ''build'', ''cmake-build-debug'', ''cmake-build-release'']"

definition ignored :: "string \<Rightarrow> bool" where
  "ignored name \<longleftrightarrow> name \<in> set ignored_names \<or> prefix ''cmake-build-'' name"

definition copy_entries :: "host \<Rightarrow> path \<Rightarrow> path \<Rightarrow> (path \<times> node) list" where
  "copy_entries h source destination =
     map (\<lambda>(p, n). (destination @ drop (length source) p, n))
       (filter (\<lambda>(p, _). strict_prefix source p \<and> \<not> list_ex ignored (drop (length source) p)
                       \<and> p \<notin> set (denied h)) (nodes h))"

definition copy_core_tree :: "path \<Rightarrow> path \<Rightarrow> ('z world0_scheme, unit) act" where
  "copy_core_tree source destination = hostA (\<lambda>h.
     if \<not> is_dir h source then (Exn (OSError ENOENT (path_str source)), h)
     else if path_exists h destination then (Exn (OSError EEXIST (path_str destination)), h)
     else case mkdir_chain (ancestors destination @ [destination]) h of
       (Some e, h') \<Rightarrow> (Exn e, h')
     | (None, h') \<Rightarrow>
         (if list_ex (\<lambda>(p, _). strict_prefix source p \<and> \<not> list_ex ignored (drop (length source) p)
                               \<and> p \<in> set (denied h)) (nodes h)
          then Exn (OSError EACCES (path_str source)) else Ret (),
          h'\<lparr>nodes := nodes h' @ copy_entries h source destination\<rparr>))"

lemma run_host_action [evaluate]: "hostA f w = (case f (host w) of (r, h) \<Rightarrow> (r, w\<lparr>host := h\<rparr>))"
  by (simp add: hostA_def)

lemmas evaluate_host [evaluate] =
  printA_def [THEN fun_cong] read_content_def [THEN fun_cong] read_text_def [THEN fun_cong]
  read_json_def [THEN fun_cong] write_content_def [THEN fun_cong] write_text_def [THEN fun_cong]
  write_json_def [THEN fun_cong] open_append_def [THEN fun_cong] append_text_def [THEN fun_cong]
  mkdir_parents_def [THEN fun_cong] rmtree_def [THEN fun_cong] monotonic_def [THEN fun_cong]
  sleepA_def [THEN fun_cong] subprocess_run_def [THEN fun_cong]
  finish_command_def [THEN fun_cong, THEN fun_cong] run_command_def [THEN fun_cong]
  git_value_def [THEN fun_cong] tool_version_def [THEN fun_cong]
  copy_core_tree_def [THEN fun_cong]

end
