(* ===== verification/Process.thy ===== *)
theory Process
  imports Host
begin

section \<open>Child processes, signals, and what every host operation keeps\<close>

text \<open>
  The parts of \<open>subprocess.Popen\<close> and \<open>os\<close> that the runner uses on its children: starting in a
  new session, polling, waiting, signalling a process group or a process. Then the contract of
  all operations on the host: \<open>host_evolves\<close>. The locale \<open>host_client\<close> proves for every
  property that follows from this contract that each operation of this layer has it; it is
  interpreted for the clock, the trace of actions, the fixed identity of the runner, and any
  part of a larger state that lies outside the host. The last part is the polling loop.
\<close>

subsection \<open>Signals\<close>

definition SIGINT :: nat where "SIGINT = 2"

definition SIGKILL :: nat where "SIGKILL = 9"

definition SIGTERM :: nat where "SIGTERM = 15"

lemma signal_numbers [simp]: "SIGTERM \<noteq> SIGKILL" "SIGINT \<noteq> SIGKILL" "SIGKILL \<noteq> SIGTERM"
  by (simp_all add: SIGINT_def SIGKILL_def SIGTERM_def)

definition group_members :: "host \<Rightarrow> int \<Rightarrow> (int \<times> proc) list" where
  "group_members h g = filter (\<lambda>(_, q). pgid q = g) (procs h)"

definition kill_group :: "int \<Rightarrow> (int \<times> proc) list \<Rightarrow> (int \<times> proc) list" where
  "kill_group g ps = map (\<lambda>(i, q).
     (i, if pgid q = g \<and> owned q \<and> pstatus q = Running then q\<lparr>pstatus := Zombie (-9)\<rparr> else q)) ps"

text \<open>
  \<open>os.killpg\<close>: no such group raises \<open>ProcessLookupError\<close>, a group of foreign processes
  \<open>PermissionError\<close>. \<open>SIGKILL\<close> cannot be caught: the kernel ends the processes. Any other
  signal is handed to the program, which does with it what it likes.
\<close>

definition killpg :: "env \<Rightarrow> int \<Rightarrow> nat \<Rightarrow> ('z world0_scheme, unit) act" where
  "killpg E g sig = hostA (\<lambda>h.
     if group_members h g = [] then (Exn (OSError ESRCH ''No such process''), h)
     else if \<not> list_ex (\<lambda>(_, q). owned q) (group_members h g)
     then (Exn (OSError EPERM ''Operation not permitted''), h)
     else (let h' = h\<lparr>trace := trace h @ [EvKillpg g sig]\<rparr> in
       (Ret (), if sig = SIGKILL then h'\<lparr>procs := kill_group g (procs h')\<rparr>
                else framed h' (ext_signal E (- g) sig h'))))"

text \<open>\<open>os.kill\<close>; signal 0 only tests for existence.\<close>

definition kill_one :: "env \<Rightarrow> int \<Rightarrow> nat \<Rightarrow> ('z world0_scheme, unit) act" where
  "kill_one E pid sig = hostA (\<lambda>h.
     case map_of (procs h) pid of
       None \<Rightarrow> (Exn (OSError ESRCH ''No such process''), h)
     | Some q \<Rightarrow>
         if \<not> owned q then (Exn (OSError EPERM ''Operation not permitted''), h)
         else if sig = 0 then (Ret (), h)
         else (let h' = h\<lparr>trace := trace h @ [EvKill pid sig]\<rparr> in
           (Ret (), framed h' (ext_signal E pid sig h'))))"

subsection \<open>Popen\<close>

record popen =
  p_pid :: int
  p_returncode :: "int option"

definition basename :: "string \<Rightarrow> string" where
  "basename s = rev (takeWhile (\<lambda>c. c \<noteq> CHR ''/'') (rev s))"

definition child_proc :: "int \<Rightarrow> string list \<Rightarrow> proc" where
  "child_proc pid argv = \<lparr>pgid = pid, pstatus = Running, owned = True,
     comm = take 15 (basename (case argv of [] \<Rightarrow> [] | a # _ \<Rightarrow> a))\<rparr>"

text \<open>\<open>subprocess.Popen(argv, start_new_session=True)\<close>: the child leads its own group.\<close>

definition popenA ::
  "env \<Rightarrow> string list \<Rightarrow> (string \<times> string) list \<Rightarrow> ('z world0_scheme, popen) act" where
  "popenA E argv environment = hostA (\<lambda>h.
     case ext_spawn E argv environment h of (err, h1) \<Rightarrow>
       let h2 = framed h h1; pid = next_pid h2 in
       (case err of
          Some k \<Rightarrow> (Exn (OSError k (case argv of [] \<Rightarrow> [] | a # _ \<Rightarrow> a)), h2)
        | None \<Rightarrow> (Ret \<lparr>p_pid = pid, p_returncode = None\<rparr>,
            h2\<lparr>procs := AList.update pid (child_proc pid argv) (procs h2),
               next_pid := pid + 1,
               trace := trace h2 @ [EvSpawn argv pid]\<rparr>)))"

text \<open>
  \<open>waitpid\<close> without blocking: \<open>Some\<close> of the status once the child has ended, which also
  removes it from the table. A child that somebody else has reaped counts as ended with 0.
\<close>

definition reap :: "int \<Rightarrow> host \<Rightarrow> int option \<times> host" where
  "reap pid h = (case map_of (procs h) pid of
     None \<Rightarrow> (Some 0, h)
   | Some q \<Rightarrow> (case pstatus q of
       Running \<Rightarrow> (None, h)
     | Zombie rc \<Rightarrow> (Some rc, h\<lparr>procs := AList.delete pid (procs h)\<rparr>)))"

definition popen_poll :: "popen \<Rightarrow> ('z world0_scheme, int option \<times> popen) act" where
  "popen_poll p = hostA (\<lambda>h. case p_returncode p of
     Some rc \<Rightarrow> (Ret (Some rc, p), h)
   | None \<Rightarrow> (case reap (p_pid p) h of
       (None, h') \<Rightarrow> (Ret (None, p), h')
     | (Some rc, h') \<Rightarrow> (Ret (Some rc, p\<lparr>p_returncode := Some rc\<rparr>), h')))"

text \<open>
  \<open>Popen.wait(timeout)\<close>: returns the exit status, raises \<open>TimeoutExpired\<close>, or blocks.
\<close>

definition popen_wait :: "env \<Rightarrow> nat option \<Rightarrow> popen \<Rightarrow> ('z world0_scheme, int \<times> popen) act" where
  "popen_wait E timeout p = hostA (\<lambda>h. case p_returncode p of
     Some rc \<Rightarrow> (Ret (rc, p), h)
   | None \<Rightarrow> (case reap (p_pid p) h of
       (Some rc, h') \<Rightarrow> (Ret (rc, p\<lparr>p_returncode := Some rc\<rparr>), h')
     | (None, h') \<Rightarrow>
         (let h1 = framed h (ext_wait E (p_pid p) (map_option ((*) 1000) timeout) h) in
          case reap (p_pid p) h1 of
            (Some rc, h2) \<Rightarrow> (Ret (rc, p\<lparr>p_returncode := Some rc\<rparr>), h2)
          | (None, h2) \<Rightarrow> (case timeout of
              None \<Rightarrow> (Blocked, h2)
            | Some t \<Rightarrow> (Exn (TimeoutExpired ''timed out''), pass_time (now h + 1000 * t) h2)))))"

text \<open>The text of \<open>/proc/<pid>/stat\<close> up to the process state and a few fields more.\<close>

definition proc_stat_text :: "host \<Rightarrow> int \<Rightarrow> string option" where
  "proc_stat_text h pid = map_option (\<lambda>q.
     show_int pid @ '' ('' @ comm q @ '') ''
     @ (case pstatus q of Running \<Rightarrow> ''S'' | Zombie _ \<Rightarrow> ''Z'') @ '' 1 '' @ show_int (pgid q))
     (map_of (procs h) pid)"

declare pass_time_def [evaluate]

lemmas evaluate_process [evaluate] =
  killpg_def [THEN fun_cong] kill_one_def [THEN fun_cong] popenA_def [THEN fun_cong]
  popen_poll_def [THEN fun_cong] popen_wait_def [THEN fun_cong]

subsection \<open>The contract of the host operations\<close>

text \<open>
  \<open>host_evolves P h h'\<close>: the clock and the process ids only grow, the runner's identity stays,
  every PC/SC context opened in between was released, and the trace grew by events that
  satisfy \<open>P\<close>. Since \<open>P\<close> is free, the same lemmas bound what a program does to the outside
  world: the events of a composed program are those of its commands.
\<close>

definition host_evolves :: "(event \<Rightarrow> bool) \<Rightarrow> host \<Rightarrow> host \<Rightarrow> bool" where
  "host_evolves P h h' \<longleftrightarrow>
     now h \<le> now h' \<and> next_pid h \<le> next_pid h' \<and> environ h' = environ h \<and>
     is_linux h' = is_linux h \<and> is_root h' = is_root h \<and> cards_open h' = cards_open h \<and>
     (\<exists>es. trace h' = trace h @ es \<and> list_all P es)"

named_theorems evolves "host updates that keep the contract of the host"

lemma host_evolves_refl [evolves, simp]: "host_evolves P h h"
  by (simp add: host_evolves_def)

lemma host_evolves_trans:
  assumes "host_evolves P h h1" "host_evolves P h1 h2"
  shows "host_evolves P h h2"
  using assms unfolding host_evolves_def
  by (metis append_assoc list_all_append order_trans)

lemma host_evolves_framed [evolves]: "host_evolves P h h1 \<Longrightarrow> host_evolves P h (framed h1 h2)"
  by (auto simp: host_evolves_def)

lemma host_evolves_pass_time [evolves]:
  "host_evolves P h h1 \<Longrightarrow> host_evolves P h (pass_time t h1)"
  by (auto simp: host_evolves_def pass_time_def)

lemma host_evolves_put_node [evolves]:
  "host_evolves P h h1 \<Longrightarrow> host_evolves P h (put_node p n h1)"
  by (auto simp: host_evolves_def put_node_def)

lemma host_evolves_nodes [evolves]:
  "host_evolves P h h1 \<Longrightarrow> host_evolves P h (h1\<lparr>nodes := ns\<rparr>)"
  by (auto simp: host_evolves_def)

lemma host_evolves_procs [evolves]:
  "host_evolves P h h1 \<Longrightarrow> host_evolves P h (h1\<lparr>procs := ps\<rparr>)"
  by (auto simp: host_evolves_def)

lemma host_evolves_event [evolves]:
  "host_evolves P h h1 \<Longrightarrow> P ev \<Longrightarrow> host_evolves P h (h1\<lparr>trace := trace h1 @ [ev]\<rparr>)"
  by (auto simp: host_evolves_def)

lemma host_evolves_mkdir_chain [evolves]:
  "host_evolves P h h1 \<Longrightarrow> host_evolves P h (snd (mkdir_chain ps h1))"
proof (induction ps arbitrary: h1)
  case (Cons p ps)
  then show ?case
    by (auto split: option.split node.split intro: host_evolves_put_node)
qed simp

lemma host_evolves_reap [evolves]:
  "host_evolves P h h1 \<Longrightarrow> host_evolves P h (snd (reap pid h1))"
  by (auto simp: reap_def split: option.split pstat.split intro: evolves)

lemma host_evolves_reap_eq: "reap pid h1 = (r, h2) \<Longrightarrow> host_evolves P h h1 \<Longrightarrow> host_evolves P h h2"
  using host_evolves_reap [of P h h1 pid] by simp

lemma host_evolves_mkdir_eq:
  "mkdir_chain ps h1 = (r, h2) \<Longrightarrow> host_evolves P h h1 \<Longrightarrow> host_evolves P h h2"
  using host_evolves_mkdir_chain [of P h h1 ps] by simp

lemma host_evolves_silent: "host_evolves (\<lambda>_. False) h h' \<Longrightarrow> trace h' = trace h"
  by (auto simp: host_evolves_def list_all_iff)

locale host_client = effect_contract R
  for R :: "'z world0_scheme \<Rightarrow> 'z world0_scheme \<Rightarrow> bool" and P :: "event \<Rightarrow> bool" +
  assumes host_step: "host_evolves P (host w) h \<Longrightarrow> R w (w\<lparr>host := h\<rparr>)"
begin

lemma within_hostA: "(\<And>h. host_evolves P h (snd (f h))) \<Longrightarrow> within R (hostA f)"
  by (rule withinI) (auto simp: hostA_def split: prod.split intro!: host_step, metis snd_conv)

lemma within_askH: "within R (askH f)"
  by (simp add: askH_def within_getsA)

lemma within_bind_askH: "(\<And>h. within R (k (f h))) \<Longrightarrow> within R (bindA (askH f) k)"
  unfolding askH_def by (rule within_bind_getsA)

lemma within_logA: "P ev \<Longrightarrow> within R (logA ev)"
  unfolding logA_def by (intro within_modifyA host_step evolves)

lemma within_printA: "P (EvPrint s) \<Longrightarrow> within R (printA s)"
  by (simp add: printA_def within_logA)

lemma within_monotonic: "within R monotonic"
  by (simp add: monotonic_def within_askH)

lemma within_sleepA: "within R (sleepA E d)"
  unfolding sleepA_def by (rule within_hostA) (auto intro: evolves)

lemma within_read_content: "within R (read_content p)"
  unfolding read_content_def by (intro within_bindA within_askH within_liftE)

lemma within_read_text: "within R (read_text p)"
  unfolding read_text_def by (intro within_intros within_read_content)

lemma within_read_json: "within R (read_json p)"
  unfolding read_json_def
  by (intro within_bindA within_read_content) (simp add: within_retA within_raiseA split: content.split)

lemma within_write_content: "within R (write_content p c)"
  unfolding write_content_def
  by (rule within_hostA) (auto split: option.split intro: evolves)

lemma within_write_text: "within R (write_text p s)"
  by (simp add: write_text_def within_write_content)

lemma within_write_json: "within R (write_json p j)"
  by (simp add: write_json_def within_write_content)

lemma within_open_append: "within R (open_append p)"
  unfolding open_append_def
  by (rule within_hostA) (auto split: option.split intro: evolves)

lemma within_append_text: "within R (append_text p s)"
  unfolding append_text_def by (rule within_hostA) (auto intro: evolves)

lemma within_mkdir_parents: "within R (mkdir_parents b p)"
  unfolding mkdir_parents_def
  by (rule within_hostA)
    (auto split: prod.split option.split simp: host_evolves_mkdir_eq)

lemma within_rmtree: "within R (rmtree p)"
  unfolding rmtree_def by (rule within_hostA) (auto intro: evolves)

lemma within_copy_core_tree: "within R (copy_core_tree p q)"
  unfolding copy_core_tree_def
  by (rule within_hostA)
    (auto split: prod.split option.split simp: host_evolves_mkdir_eq intro!: host_evolves_nodes)

lemma within_subprocess_run: "P (EvRun argv) \<Longrightarrow> within R (subprocess_run E argv cwd t)"
  unfolding subprocess_run_def
  by (rule within_hostA)
    (auto simp: Let_def split: prod.split option.split run_result.split intro!: evolves)

lemma within_finish_command: "within R (finish_command argv log chk u)"
  unfolding finish_command_def Let_def
  by (intro within_intros within_append_text)

lemma within_run_command: "P (EvRun argv) \<Longrightarrow> within R (run_command E argv cwd t log chk)"
  unfolding run_command_def
  by (intro within_bindA within_subprocess_run within_finish_command)

lemma within_git_value:
  "P (EvRun ([''git'', ''-C'', path_str p] @ args)) \<Longrightarrow> within R (git_value E p args d)"
  unfolding git_value_def by (intro within_intros within_run_command)

lemma within_tool_version: "P (EvRun argv) \<Longrightarrow> within R (tool_version E argv)"
  unfolding tool_version_def
  by (intro within_catch_onA within_bindA within_run_command within_retA)
    (simp_all add: within_retA split: list.split)

lemma within_killpg: "P (EvKillpg g sig) \<Longrightarrow> within R (killpg E g sig)"
  unfolding killpg_def
  by (rule within_hostA) (auto simp: Let_def intro!: evolves)

lemma within_kill_zero: "within R (kill_one E pid 0)"
  unfolding kill_one_def
  by (rule within_hostA) (auto split: option.split)

lemma within_kill_one: "P (EvKill pid sig) \<Longrightarrow> within R (kill_one E pid sig)"
  unfolding kill_one_def
  by (rule within_hostA) (auto simp: Let_def split: option.split intro!: evolves)

lemma within_popenA: "(\<And>pid. P (EvSpawn argv pid)) \<Longrightarrow> within R (popenA E argv envv)"
  unfolding popenA_def
  by (rule within_hostA) (auto simp: Let_def host_evolves_def split: prod.split option.split)

lemma within_popen_poll: "within R (popen_poll p)"
  unfolding popen_poll_def
  by (rule within_hostA) (auto split: prod.split option.split simp: host_evolves_reap_eq)

lemma within_popen_wait: "within R (popen_wait E t p)"
proof -
  have "host_evolves P h h2" if "reap (p_pid p) (framed h h1) = (r, h2)" for h h1 h2 r
    using that by (rule host_evolves_reap_eq) (auto intro: evolves)
  then show ?thesis
    unfolding popen_wait_def
    by (intro within_hostA)
      (auto split: prod.split option.split simp: Let_def host_evolves_reap_eq
        intro!: host_evolves_pass_time)
qed

lemma within_poll_fuel:
  "within R body \<Longrightarrow> within R (poll_fuel n E deadline delay body)"
  by (induction n) (auto intro!: within_intros within_monotonic within_sleepA)

lemma within_poll_until: "within R body \<Longrightarrow> within R (poll_until E deadline delay body)"
  using within_poll_fuel [of body] by (simp add: within_def poll_until_def del: poll_fuel.simps)

lemmas host_rules = within_intros within_liftE within_askH within_logA within_printA
  within_monotonic within_sleepA within_read_content within_read_text within_read_json
  within_write_content within_write_text within_write_json within_open_append within_append_text
  within_mkdir_parents within_rmtree within_copy_core_tree within_subprocess_run
  within_run_command within_git_value within_tool_version within_killpg within_kill_zero
  within_popenA within_popen_poll within_popen_wait within_poll_until

end

text \<open>The clock never goes back.\<close>

abbreviation clock_le :: "'z world0_scheme \<Rightarrow> 'z world0_scheme \<Rightarrow> bool" where
  "clock_le w w' \<equiv> now (host w) \<le> now (host w')"

interpretation clock: host_client clock_le "\<lambda>_. True"
  by unfold_locales (auto simp: host_evolves_def)

text \<open>The trace grows by events of the given kind only, and the rest of the contract holds.\<close>

abbreviation evolves_le :: "(event \<Rightarrow> bool) \<Rightarrow> 'z world0_scheme \<Rightarrow> 'z world0_scheme \<Rightarrow> bool" where
  "evolves_le P w w' \<equiv> host_evolves P (host w) (host w')"

interpretation evolving: host_client "evolves_le P" P for P
  by unfold_locales (auto intro: host_evolves_trans)

text \<open>Fields outside the host are not touched by host operations.\<close>

interpretation outside: host_client "\<lambda>w w'. world0.more w' = world0.more w" "\<lambda>_. True"
  by unfold_locales auto

text \<open>A command is logged exactly once, however it ends.\<close>

lemma trace_subprocess_run [simp]:
  "trace (host (snd (subprocess_run E argv cwd t w))) = trace (host w) @ [EvRun argv]"
  by (simp add: subprocess_run_def hostA_def Let_def pass_time_def
      split: prod.split run_result.split option.split)

lemma trace_finish_command [simp]:
  "trace (host (snd (finish_command argv log chk u w))) = trace (host w)"
  by (rule host_evolves_silent, rule withinD_snd [OF evolving.within_finish_command])

lemma trace_run_command [simp]:
  "trace (host (snd (run_command E argv cwd t log chk w))) = trace (host w) @ [EvRun argv]"
  using trace_subprocess_run [of E argv cwd t w]
  by (cases rule: outcome_cases [of "subprocess_run E argv cwd t" w])
    (simp_all add: run_command_def act_simps del: trace_subprocess_run)

lemma run_command_logged:
  "run_command E argv cwd t log chk w = (r, w') \<Longrightarrow> trace (host w') = trace (host w) @ [EvRun argv]"
  using trace_run_command [of E argv cwd t log chk w] by simp

text \<open>An event that has been logged stays in the trace.\<close>

definition logs :: "event \<Rightarrow> ('z world0_scheme, 'a) act \<Rightarrow> 'z world0_scheme \<Rightarrow> bool" where
  "logs ev m w \<longleftrightarrow> ev \<in> set (trace (host (snd (m w))))"

lemma evolves_trace: "host_evolves P h h' \<Longrightarrow> set (trace h) \<subseteq> set (trace h')"
  by (auto simp: host_evolves_def)

lemma logs_bindA:
  assumes "logs ev m w" "\<And>x. within (evolves_le P) (k x)"
  shows "logs ev (bindA m k) w"
proof (cases rule: outcome_cases [of m w])
  case (Ret x w')
  then show ?thesis
    using assms(1) evolves_trace [OF withinD_snd [OF assms(2)], of w' x]
    by (auto simp: logs_def act_simps)
qed (use assms(1) in \<open>auto simp: logs_def act_simps\<close>)

lemma logs_thenA: "logs ev m w \<Longrightarrow> within (evolves_le P) k \<Longrightarrow> logs ev (thenA m k) w"
  unfolding thenA_def by (rule logs_bindA)

lemma logs_catch_onA:
  assumes "logs ev m w" "\<And>e. within (evolves_le P) (k e)"
  shows "logs ev (catchA m (onA p k)) w"
proof (cases rule: outcome_cases [of m w])
  case (Exn e w')
  then show ?thesis
    using assms(1) evolves_trace [OF withinD_snd [OF assms(2)], of w' e]
    by (auto simp: logs_def act_simps onA_def)
qed (use assms(1) in \<open>auto simp: logs_def act_simps\<close>)

subsection \<open>How the host operations end\<close>

lemma ends_liftE [ends_rules]: "(\<And>e. r = Inl e \<Longrightarrow> X e) \<Longrightarrow> ends X b (liftE r)"
  by (cases r) (simp_all add: ends_def)

lemma ends_hostA:
  "(\<And>h. case fst (f h) of Ret _ \<Rightarrow> True | Exn e \<Rightarrow> X e | Blocked \<Rightarrow> b) \<Longrightarrow> ends X b (hostA f)"
  by (auto simp: ends_def hostA_def split: prod.split) (metis fst_conv)

lemma ends_askH [ends_rules]: "ends X b (askH f)"
  by (simp add: askH_def ends_getsA)

lemma ends_logA [ends_rules]: "ends X b (logA ev)"
  by (simp add: logA_def ends_modifyA)

lemma ends_printA [ends_rules]: "ends X b (printA s)"
  by (simp add: printA_def ends_logA)

lemma ends_monotonic [ends_rules]: "ends X b monotonic"
  by (simp add: monotonic_def ends_askH)

lemma ends_sleepA [ends_rules]: "ends X b (sleepA E d)"
  by (simp add: sleepA_def ends_hostA)

lemma ends_read_content [ends_rules]:
  "(\<And>e. is_os_error e \<Longrightarrow> X e) \<Longrightarrow> ends X b (read_content p)"
  unfolding read_content_def askH_def
  by (simp add: ends_def read_result_def liftE_def split: sum.split node.split option.split)

lemma ends_read_text [ends_rules]: "(\<And>e. is_os_error e \<Longrightarrow> X e) \<Longrightarrow> ends X b (read_text p)"
  unfolding read_text_def by (intro ends_rules)

lemma ends_read_json [ends_rules]:
  "(\<And>e. is_os_error e \<Longrightarrow> X e) \<Longrightarrow> (\<And>m. X (ValueError m)) \<Longrightarrow> ends X b (read_json p)"
  unfolding read_json_def
  by (intro ends_bindA ends_read_content) (auto simp: ends_def split: content.split)

lemma ends_write_content:
  "(\<And>e. is_os_error e \<Longrightarrow> X e) \<Longrightarrow> ends X b (write_content p c)"
  unfolding write_content_def
  by (rule ends_hostA) (auto simp: open_error_def split: option.split node.split)

lemma ends_write_text [ends_rules]: "(\<And>e. is_os_error e \<Longrightarrow> X e) \<Longrightarrow> ends X b (write_text p s)"
  by (simp add: write_text_def ends_write_content)

lemma ends_write_json [ends_rules]: "(\<And>e. is_os_error e \<Longrightarrow> X e) \<Longrightarrow> ends X b (write_json p j)"
  by (simp add: write_json_def ends_write_content)

lemma ends_open_append [ends_rules]:
  "(\<And>e. is_os_error e \<Longrightarrow> X e) \<Longrightarrow> ends X b (open_append p)"
  unfolding open_append_def
  by (rule ends_hostA) (auto simp: open_error_def split: option.split node.split)

lemma ends_append_text [ends_rules]: "ends X b (append_text p s)"
  by (simp add: append_text_def ends_hostA)

lemma ends_rmtree [ends_rules]: "ends X b (rmtree p)"
  by (simp add: rmtree_def ends_hostA)

lemma mkdir_chain_error: "mkdir_chain ps h = (Some e, h') \<Longrightarrow> is_os_error e"
  by (induction ps h rule: mkdir_chain.induct)
    (auto split: option.splits node.splits if_splits)

lemma ends_mkdir_parents [ends_rules]:
  "(\<And>e. is_os_error e \<Longrightarrow> X e) \<Longrightarrow> ends X b (mkdir_parents ok p)"
  unfolding mkdir_parents_def
  by (rule ends_hostA) (auto split: prod.split option.split dest: mkdir_chain_error)

lemma ends_copy_core_tree [ends_rules]:
  "(\<And>e. is_os_error e \<Longrightarrow> X e) \<Longrightarrow> ends X b (copy_core_tree p q)"
  unfolding copy_core_tree_def
  by (rule ends_hostA) (auto split: prod.split option.split dest: mkdir_chain_error)

lemma ends_subprocess_run:
  "(\<And>e. is_os_error e \<Longrightarrow> X e) \<Longrightarrow> (\<And>m. t \<noteq> None \<Longrightarrow> X (TimeoutExpired m)) \<Longrightarrow>
     (t = None \<Longrightarrow> b) \<Longrightarrow> ends X b (subprocess_run E argv cwd t)"
  unfolding subprocess_run_def
  by (rule ends_hostA) (auto simp: Let_def split: prod.split run_result.split option.split)

lemma ends_run_command [ends_rules]:
  "(\<And>e. is_os_error e \<Longrightarrow> X e) \<Longrightarrow> (\<And>m. t \<noteq> None \<Longrightarrow> X (TimeoutExpired m)) \<Longrightarrow>
     (\<And>m. chk \<Longrightarrow> X (HarnessError m)) \<Longrightarrow> (t = None \<Longrightarrow> b) \<Longrightarrow>
     ends X b (run_command E argv cwd t log chk)"
  unfolding run_command_def finish_command_def Let_def
  by (intro ends_bindA ends_subprocess_run ends_case_prod)
    (auto intro: ends_rules split: option.split)

lemma ends_git_value [ends_rules]: "b \<Longrightarrow> ends X b (git_value E p args d)"
  unfolding git_value_def
  by (rule ends_catch_onA [where Y = "\<lambda>e. is_harness_error e \<or> is_os_error e"])
    (auto intro!: ends_rules)

lemma ends_tool_version [ends_rules]: "ends X b (tool_version E argv)"
  unfolding tool_version_def
  by (rule ends_catch_onA [where Y = "\<lambda>e. is_os_error e \<or> is_timeout e"])
    (auto intro!: ends_rules split: list.split)

lemma ends_killpg [ends_rules]: "(\<And>e. is_os_error e \<Longrightarrow> X e) \<Longrightarrow> ends X b (killpg E g sig)"
  unfolding killpg_def by (rule ends_hostA) (auto simp: Let_def)

lemma ends_kill_one [ends_rules]: "(\<And>e. is_os_error e \<Longrightarrow> X e) \<Longrightarrow> ends X b (kill_one E g sig)"
  unfolding kill_one_def by (rule ends_hostA) (auto simp: Let_def split: option.split)

lemma ends_popenA [ends_rules]: "(\<And>e. is_os_error e \<Longrightarrow> X e) \<Longrightarrow> ends X b (popenA E argv envv)"
  unfolding popenA_def by (rule ends_hostA) (auto simp: Let_def split: prod.split option.split)

lemma ends_popen_poll [ends_rules]: "ends X b (popen_poll p)"
  unfolding popen_poll_def by (rule ends_hostA) (auto split: prod.split option.split)

lemma ends_popen_wait [ends_rules]:
  "(\<And>m. t \<noteq> None \<Longrightarrow> X (TimeoutExpired m)) \<Longrightarrow> (t = None \<Longrightarrow> b) \<Longrightarrow> ends X b (popen_wait E t p)"
  unfolding popen_wait_def
  by (rule ends_hostA) (auto simp: Let_def split: prod.split option.split)

subsection \<open>The polling loop\<close>

text \<open>
  A round of the loop advances the clock by at least the delay, so the loop never runs out of
  the rounds it is given, whatever the body does to the host.
\<close>

lemma sleepA_advances: "now (host w) + d \<le> now (host (snd (sleepA E d w)))"
  by (simp add: sleepA_def hostA_def pass_time_def)

lemma run_sleepA: "sleepA E d w = (Ret (), w\<lparr>host := pass_time (now (host w) + d)
    (framed (host w) (ext_idle E d (host w)))\<rparr>)"
  by (simp add: sleepA_def hostA_def)

lemma poll_fuel_Suc:
  "poll_fuel (Suc n) E deadline delay body w =
     (if now (host w) < deadline then
        bindA body (\<lambda>r. case r of
          Some x \<Rightarrow> retA (Some x)
        | None \<Rightarrow> thenA (sleepA E delay) (poll_fuel n E deadline delay body)) w
      else (Ret None, w))"
  by (simp add: monotonic_def)

locale polling =
  fixes E :: env and delay :: nat and body :: "('z world0_scheme, 'a option) act"
  assumes delay_pos: "0 < delay"
    and body_clock: "within clock_le body"
begin

definition enough :: "nat \<Rightarrow> nat \<Rightarrow> 'z world0_scheme \<Rightarrow> bool" where
  "enough n deadline w \<longleftrightarrow> (\<exists>m. n = Suc m \<and> deadline \<le> now (host w) + m * delay)"

lemma enough_start: "enough (Suc (Suc ((deadline - now (host w)) div delay))) deadline w"
proof -
  let ?d = "deadline - now (host w)"
  have "?d \<le> Suc (?d div delay) * delay"
    using delay_pos by (metis Suc_leI dividend_less_div_times less_imp_le mult_Suc add.commute)
  then show ?thesis by (auto simp: enough_def)
qed

lemma enough_next:
  assumes "enough (Suc n) deadline w" "now (host w) < deadline" "body w = (r, w1)"
    "sleepA E delay w1 = (q, w2)"
  shows "enough n deadline w2"
proof -
  from assms(1,2) obtain m where m: "n = Suc m" "deadline \<le> now (host w) + Suc m * delay"
    by (cases n) (auto simp: enough_def)
  moreover have "now (host w) \<le> now (host w1)" using withinD [OF body_clock assms(3)] .
  moreover have "now (host w1) + delay \<le> now (host w2)"
    using sleepA_advances [of w1 delay E] assms(4) by simp
  ultimately show ?thesis by (auto simp: enough_def)
qed

lemma poll_fuel_irrelevant:
  "enough n deadline w \<Longrightarrow> enough m deadline w \<Longrightarrow>
     poll_fuel n E deadline delay body w = poll_fuel m E deadline delay body w"
proof (induction n arbitrary: m w)
  case 0
  then show ?case by (simp add: enough_def)
next
  case (Suc n)
  obtain m' where m: "m = Suc m'" using Suc.prems(2) by (auto simp: enough_def)
  show ?case
  proof (cases "now (host w) < deadline")
    case False
    then show ?thesis using m by (simp add: monotonic_def)
  next
    case True
    show ?thesis
    proof (cases rule: outcome_cases [of body w])
      case (Ret x w1)
      show ?thesis
      proof (cases x)
        case None
        obtain w2 where s: "sleepA E delay w1 = (Ret (), w2)" by (simp add: run_sleepA)
        have "poll_fuel n E deadline delay body w2 = poll_fuel m' E deadline delay body w2"
          using Suc.IH enough_next [OF Suc.prems(1) True Ret s]
            enough_next [OF Suc.prems(2) [unfolded m] True Ret s] by blast
        then show ?thesis using Ret None True m s
          by (simp add: monotonic_def act_simps)
      qed (use Ret True m in \<open>simp add: monotonic_def act_simps\<close>)
    qed (use True m in \<open>simp_all add: monotonic_def act_simps\<close>)
  qed
qed

text \<open>The loop as the code writes it.\<close>

lemma poll_until_unfold:
  "poll_until E deadline delay body w =
     (if now (host w) < deadline then
        bindA body (\<lambda>r. case r of
          Some x \<Rightarrow> retA (Some x)
        | None \<Rightarrow> thenA (sleepA E delay) (poll_until E deadline delay body)) w
      else (Ret None, w))"
proof (cases "now (host w) < deadline")
  case False
  then show ?thesis by (simp add: poll_until_def monotonic_def)
next
  case True
  let ?n = "Suc ((deadline - now (host w)) div delay)"
  have en: "enough (Suc ?n) deadline w" by (rule enough_start)
  have tail: "poll_fuel ?n E deadline delay body w2 = poll_until E deadline delay body w2"
    if "body w = (r, w1)" "sleepA E delay w1 = (q, w2)" for r q w1 w2
    unfolding poll_until_def
    by (rule poll_fuel_irrelevant [OF enough_next [OF en True that] enough_start])
  have "poll_until E deadline delay body w = poll_fuel (Suc ?n) E deadline delay body w"
    by (simp add: poll_until_def del: poll_fuel.simps)
  also have "\<dots> = bindA body (\<lambda>r. case r of
      Some x \<Rightarrow> retA (Some x)
    | None \<Rightarrow> thenA (sleepA E delay) (poll_fuel ?n E deadline delay body)) w"
    using True by (simp only: poll_fuel_Suc if_True)
  also have "\<dots> = bindA body (\<lambda>r. case r of
      Some x \<Rightarrow> retA (Some x)
    | None \<Rightarrow> thenA (sleepA E delay) (poll_until E deadline delay body)) w"
  proof (cases rule: outcome_cases [of body w])
    case (Ret x w1)
    obtain w2 where s: "sleepA E delay w1 = (Ret (), w2)" by (simp add: run_sleepA)
    show ?thesis using Ret tail [OF Ret s] s
      by (cases x) (simp_all add: act_simps del: poll_fuel.simps)
  qed (simp_all add: act_simps del: poll_fuel.simps)
  finally show ?thesis using True by simp
qed

text \<open>
  Induction over the rounds: a property of the outcome holds if it holds at the deadline, when
  the body leaves the loop, and is passed back through a round.
\<close>

lemma poll_induct [case_names deadline round]:
  assumes stop: "\<And>w. deadline \<le> now (host w) \<Longrightarrow> P w (Ret None, w)"
    and round: "\<And>w. now (host w) < deadline \<Longrightarrow>
      (\<And>w1 w2. body w = (Ret None, w1) \<Longrightarrow> sleepA E delay w1 = (Ret (), w2) \<Longrightarrow>
         P w2 (poll_until E deadline delay body w2)) \<Longrightarrow>
      P w (poll_until E deadline delay body w)"
  shows "P w (poll_until E deadline delay body w)"
proof (induction "deadline - now (host w)" arbitrary: w rule: less_induct)
  case less
  show ?case
  proof (cases "now (host w) < deadline")
    case False
    then show ?thesis using stop [of w] by (simp add: poll_until_unfold [of deadline w])
  next
    case True
    show ?thesis
    proof (rule round [OF True])
      fix w1 w2
      assume b: "body w = (Ret None, w1)" and s: "sleepA E delay w1 = (Ret (), w2)"
      have "now (host w) \<le> now (host w1)" using withinD [OF body_clock b] .
      moreover have "now (host w1) + delay \<le> now (host w2)"
        using sleepA_advances [of w1 delay E] s by simp
      ultimately have "deadline - now (host w2) < deadline - now (host w)"
        using True delay_pos by linarith
      then show "P w2 (poll_until E deadline delay body w2)" by (rule less)
    qed
  qed
qed

text \<open>A loop that ends without a value has reached its deadline.\<close>

lemma poll_timeout:
  assumes "poll_until E deadline delay body w = (Ret None, w')"
  shows "deadline \<le> now (host w')"
proof -
  have "fst (poll_until E deadline delay body w) = Ret None \<longrightarrow>
      deadline \<le> now (host (snd (poll_until E deadline delay body w)))"
  proof (induction rule: poll_induct [where P = "\<lambda>w out. fst out = Ret None \<longrightarrow>
      deadline \<le> now (host (snd out))"])
    case (deadline w)
    then show ?case by simp
  next
    case (round w)
    show ?case
    proof (cases rule: outcome_cases [of body w])
      case (Ret x w1)
      obtain w2 where s: "sleepA E delay w1 = (Ret (), w2)" by (simp add: run_sleepA)
      show ?thesis using round Ret s
        by (cases x) (simp_all add: poll_until_unfold [of deadline w] act_simps)
    qed (use round in \<open>simp_all add: poll_until_unfold [of deadline w] act_simps\<close>)
  qed
  then show ?thesis using assms by simp
qed

text \<open>
  A loop that ends before its deadline ends as a round of the body did, which started in a state
  that every contract of the body and of sleeping relates to the initial one.
\<close>

lemma poll_from_round:
  assumes client: "host_client R P" and body: "within R body"
    and run: "poll_until E deadline delay body w = (r, w')" "r \<noteq> Ret None"
  shows "\<exists>w0. R w w0 \<and> now (host w0) < deadline \<and> body w0 = (r, w')"
proof -
  have eff: "effect_contract R" using client by (rule host_client.axioms)
  have "fst (poll_until E deadline delay body w) \<noteq> Ret None \<longrightarrow>
      (\<exists>w0. R w w0 \<and> now (host w0) < deadline \<and>
         body w0 = poll_until E deadline delay body w)"
  proof (induction rule: poll_induct [where P = "\<lambda>w out. fst out \<noteq> Ret None \<longrightarrow>
      (\<exists>w0. R w w0 \<and> now (host w0) < deadline \<and> body w0 = out)"])
    case (deadline w)
    then show ?case by simp
  next
    case (round w)
    have refl: "R w w" by (rule effect_contract.contract_refl [OF eff])
    show ?case
    proof (cases "\<exists>w1. body w = (Ret None, w1)")
      case True
      then obtain w1 where b: "body w = (Ret None, w1)" by blast
      obtain w2 where s: "sleepA E delay w1 = (Ret (), w2)" by (simp add: run_sleepA)
      have "R w w2"
        using withinD [OF body b] withinD [OF host_client.within_sleepA [OF client] s]
          effect_contract.contract_trans [OF eff] by blast
      then show ?thesis
        using round b s effect_contract.contract_trans [OF eff]
        by (simp add: poll_until_unfold [of deadline w] act_simps) blast
    next
      case False
      then have "poll_until E deadline delay body w = body w"
        using round(1)
        by (auto simp: poll_until_unfold [of deadline w] bindA_def split: prod.split outcome.split
            option.split)
      then show ?thesis using refl round(1) by auto
    qed
  qed
  then show ?thesis using run by simp
qed

text \<open>The loop raises and blocks only as its body does.\<close>

lemma poll_ends:
  assumes "ends X b body"
  shows "ends X b (poll_until E deadline delay body)"
  unfolding ends_def
proof
  fix w
  show "case fst (poll_until E deadline delay body w) of
      Ret _ \<Rightarrow> True | Exn e \<Rightarrow> X e | Blocked \<Rightarrow> b"
  proof (induction rule: poll_induct)
    case (deadline w)
    then show ?case by simp
  next
    case (round w)
    show ?case
    proof (cases rule: outcome_cases [of body w])
      case (Ret x w1)
      obtain w2 where s: "sleepA E delay w1 = (Ret (), w2)" by (simp add: run_sleepA)
      show ?thesis using round Ret s
        by (cases x) (simp_all add: poll_until_unfold [of deadline w] act_simps)
    next
      case (Exn e w1)
      then show ?thesis using round endsD_Exn [OF assms Exn]
        by (simp add: poll_until_unfold [of deadline w] act_simps)
    next
      case (Blocked w1)
      then show ?thesis using round endsD_Blocked [OF assms Blocked]
        by (simp add: poll_until_unfold [of deadline w] act_simps)
    qed
  qed
qed

end

end
