(* ===== verification/Pcsc.thy ===== *)
theory Pcsc
  imports Process
begin

section \<open>Querying PC/SC for readers\<close>

text \<open>
  \<open>LinuxPlatform.pcsc_readers\<close> calls the pcsc-lite library through \<open>ctypes\<close>. The library is
  not part of the repository: the parameters of \<open>env\<close> give the status and the data of each
  call. \<open>cards_open\<close> counts the contexts the runner has established and not released. Reader
  names are modelled by their bytes.
\<close>

definition SCARD_E_NO_READERS_AVAILABLE :: nat where
  "SCARD_E_NO_READERS_AVAILABLE = 0x8010002E"

text \<open>
  \<open>ctypes\<close> returns a C \<open>int\<close>, so a status with its top bit set arrives negative;
  \<open>& 0xFFFFFFFF\<close> makes it unsigned again.
\<close>

definition status_bits :: "int \<Rightarrow> nat" where
  "status_bits i = nat (and i 0xFFFFFFFF)"

lemma status_bits_mod: "status_bits i = nat (i mod 2 ^ 32)"
proof -
  have "and i (mask 32) = i mod 2 ^ 32"
    by (simp add: take_bit_eq_mask [symmetric] take_bit_eq_mod)
  then show ?thesis by (simp add: status_bits_def mask_eq_exp_minus_1)
qed

definition status_text :: "string \<Rightarrow> nat \<Rightarrow> string" where
  "status_text call status = call @ '' failed: '' @ hex8_prefixed status"

text \<open>The items of \<open>raw.split(b"\0")\<close> that are not empty.\<close>

fun split_nul :: "string \<Rightarrow> string \<Rightarrow> string list" where
  "split_nul acc [] = [rev acc]"
| "split_nul acc (c # cs) =
     (if c = CHR 0x00 then rev acc # split_nul [] cs else split_nul (c # acc) cs)"

definition buffer_items :: "string \<Rightarrow> string list" where
  "buffer_items raw = filter (\<lambda>s. s \<noteq> []) (split_nul [] raw)"

text \<open>The buffer is zeroed when it is created and keeps its size, whatever is written to it.\<close>

definition buffer_raw :: "nat \<Rightarrow> string \<Rightarrow> string" where
  "buffer_raw n written = take n written @ replicate (n - length written) (CHR 0x00)"

definition list_readers :: "env \<Rightarrow> (host, string list option) act" where
  "list_readers E =
     bindA (\<lambda>h. case pcsc_size E h of (st, n, h') \<Rightarrow> (Ret (status_bits st, n), framed h h'))
     (\<lambda>(status, n).
       if status = SCARD_E_NO_READERS_AVAILABLE then retA (Some [])
       else if status \<noteq> 0 then raiseA (PcscQueryError (status_text ''SCardListReaders'' status))
       else if n = 0 then retA (Some [])
       else bindA (\<lambda>h. case pcsc_fill E n h of (st, written, h') \<Rightarrow>
                     (Ret (status_bits st, written), framed h h'))
            (\<lambda>(status2, written).
              if status2 \<noteq> 0
              then raiseA (PcscQueryError (status_text ''SCardListReaders buffer query'' status2))
              else retA (Some (buffer_items (buffer_raw n written)))))"

definition establish_context :: "env \<Rightarrow> (host, nat) act" where
  "establish_context E = (\<lambda>h. case pcsc_establish E h of (st, h') \<Rightarrow>
     let h1 = framed h h' in
     (Ret (status_bits st),
      if status_bits st = 0 then h1\<lparr>cards_open := Suc (cards_open h1)\<rparr> else h1))"

definition release_context :: "env \<Rightarrow> (host, unit) act" where
  "release_context E = modifyA (\<lambda>h.
     let h1 = framed h (pcsc_release E h) in h1\<lparr>cards_open := cards_open h1 - 1\<rparr>)"

definition pcsc_session :: "env \<Rightarrow> (host, string list option) act" where
  "pcsc_session E =
     bindA (establish_context E) (\<lambda>status.
       if status \<noteq> 0 then raiseA (PcscQueryError (status_text ''SCardEstablishContext'' status))
       else finallyA (list_readers E) (release_context E))"

text \<open>
  \<open>None\<close> when the library or one of its entry points is missing, a list of readers, or
  \<open>PcscQueryError\<close>.
\<close>

definition pcsc_query :: "env \<Rightarrow> (host, string list option) act" where
  "pcsc_query E =
     bindA (getsA (pcsc_symbols E)) (\<lambda>lib. case lib of
       None \<Rightarrow> retA None
     | Some None \<Rightarrow> retA None
     | Some (Some syms) \<Rightarrow>
         if ''SCardEstablishContext'' \<notin> set syms \<or> ''SCardReleaseContext'' \<notin> set syms then retA None
         else if ''SCardListReaders'' \<notin> set syms \<and> ''SCardListReadersA'' \<notin> set syms then retA None
         else pcsc_session E)"

definition pcsc_readers :: "env \<Rightarrow> ('z world0_scheme, string list option) act" where
  "pcsc_readers E = hostA (pcsc_query E)"

lemmas evaluate_pcsc [evaluate] =
  list_readers_def [THEN fun_cong] establish_context_def [THEN fun_cong]
  release_context_def [THEN fun_cong] pcsc_session_def [THEN fun_cong]
  pcsc_query_def [THEN fun_cong] pcsc_readers_def [THEN fun_cong]

subsection \<open>Contexts are released and the host contract is kept\<close>

lemma evolves_list_readers: "host_evolves P h (snd (list_readers E h))"
  by (auto simp: list_readers_def bindA_def split: prod.split intro!: evolves host_evolves_framed)

lemma list_readers_not_blocked: "fst (list_readers E h) \<noteq> Blocked"
  by (auto simp: list_readers_def bindA_def split: prod.split)

lemma establish_evolves:
  assumes "establish_context E h = (Ret st, h1)"
  shows "host_evolves P h (h1\<lparr>cards_open := cards_open h\<rparr>)"
    and "cards_open h1 = (if st = 0 then Suc (cards_open h) else cards_open h)"
  using assms
  by (auto simp: establish_context_def Let_def host_evolves_def split: prod.splits if_splits)

lemma run_establish: "\<exists>st h1. establish_context E h = (Ret st, h1)"
  by (simp add: establish_context_def Let_def split: prod.split)

lemma evolves_pcsc_session: "host_evolves P h (snd (pcsc_session E h))"
proof -
  obtain st h1 where e: "establish_context E h = (Ret st, h1)"
    using run_establish by blast
  note est = establish_evolves [OF e]
  show ?thesis
  proof (cases "st = 0")
    case False
    then show ?thesis using e est by (simp add: pcsc_session_def act_simps host_evolves_def)
  next
    case True
    obtain r h2 where l: "list_readers E h1 = (r, h2)" by fastforce
    have "r \<noteq> Blocked" using list_readers_not_blocked [of E h1] l by simp
    then have "pcsc_session E h = (r, (framed h2 (pcsc_release E h2))
        \<lparr>cards_open := cards_open (framed h2 (pcsc_release E h2)) - 1\<rparr>)"
      using e True l
      by (simp add: pcsc_session_def act_simps finallyA_def release_context_def Let_def
          split: outcome.split)
    moreover have "host_evolves P h1 h2" using evolves_list_readers [of P h1 E] l by simp
    ultimately have e2: "host_evolves P h1 h2" and
      run: "pcsc_session E h = (r, (framed h2 (pcsc_release E h2))
        \<lparr>cards_open := cards_open (framed h2 (pcsc_release E h2)) - 1\<rparr>)" by simp_all
    let ?c = "cards_open h"
    have "host_evolves P (h1\<lparr>cards_open := ?c\<rparr>) (h2\<lparr>cards_open := ?c\<rparr>)"
      using e2 by (simp add: host_evolves_def)
    with est(1) have "host_evolves P h (h2\<lparr>cards_open := ?c\<rparr>)" by (rule host_evolves_trans)
    then have "host_evolves P h (framed (h2\<lparr>cards_open := ?c\<rparr>) (pcsc_release E h2))"
      by (rule host_evolves_framed)
    moreover have "cards_open h2 = Suc ?c" using e2 est(2) True by (simp add: host_evolves_def)
    ultimately show ?thesis using run by (simp add: host_evolves_def)
  qed
qed

lemma evolves_pcsc_query: "host_evolves P h (snd (pcsc_query E h))"
  by (auto simp: pcsc_query_def evolves_pcsc_session split: option.split)

context host_client
begin

lemma within_pcsc_readers: "within R (pcsc_readers E)"
  unfolding pcsc_readers_def by (rule within_hostA) (rule evolves_pcsc_query)

end

text \<open>A query ends with a result or with \<open>PcscQueryError\<close>, nothing else.\<close>

lemma list_readers_outcome:
  "list_readers E h = (r, h') \<Longrightarrow>
     (\<exists>xs. r = Ret (Some xs)) \<or> (\<exists>m. r = Exn (PcscQueryError m))"
  by (auto simp: list_readers_def bindA_def split: prod.splits if_splits)

lemma pcsc_session_outcome:
  assumes "pcsc_session E h = (r, h')"
  shows "(\<exists>xs. r = Ret (Some xs)) \<or> (\<exists>m. r = Exn (PcscQueryError m))"
proof -
  obtain st h1 where e: "establish_context E h = (Ret st, h1)"
    using run_establish by blast
  obtain q h2 where l: "list_readers E h1 = (q, h2)" by fastforce
  show ?thesis
    using assms e l list_readers_outcome [OF l]
    by (auto simp: pcsc_session_def act_simps finallyA_def release_context_def
        split: if_splits)
qed

lemma pcsc_query_outcome:
  "pcsc_query E h = (r, h') \<Longrightarrow> (\<exists>x. r = Ret x) \<or> (\<exists>m. r = Exn (PcscQueryError m))"
  by (auto simp: pcsc_query_def split: option.splits if_splits dest!: pcsc_session_outcome)

lemma pcsc_readers_outcome:
  "pcsc_readers E w = (r, w') \<Longrightarrow> (\<exists>x. r = Ret x) \<or> (\<exists>m. r = Exn (PcscQueryError m))"
  unfolding pcsc_readers_def hostA_def
  by (auto split: prod.splits dest: pcsc_query_outcome)

lemma ends_pcsc_readers [ends_rules]:
  "(\<And>m. X (PcscQueryError m)) \<Longrightarrow> ends X b (pcsc_readers E)"
  by (rule endsI) (auto dest: pcsc_readers_outcome)

subsection \<open>Decoding the reader list\<close>

definition multi_string :: "string list \<Rightarrow> string" where
  "multi_string names = concat (map (\<lambda>n. n @ [CHR 0x00]) names) @ [CHR 0x00]"

lemma split_nul_name:
  "CHR 0x00 \<notin> set n \<Longrightarrow> split_nul acc (n @ CHR 0x00 # rest) = (rev acc @ n) # split_nul [] rest"
  by (induction n arbitrary: acc) auto

lemma split_nul_zeros: "set (split_nul [] (replicate k (CHR 0x00))) = {[]}"
  by (induction k) auto

lemma buffer_items_multi:
  assumes "\<forall>n \<in> set names. n \<noteq> [] \<and> CHR 0x00 \<notin> set n"
  shows "buffer_items (concat (map (\<lambda>n. n @ [CHR 0x00]) names) @ replicate k (CHR 0x00)) = names"
  using assms
proof (induction names)
  case Nil
  then show ?case
    using split_nul_zeros [of k] by (auto simp: buffer_items_def filter_empty_conv)
next
  case (Cons n names)
  then show ?case
    using split_nul_name [of n "[]" "concat (map (\<lambda>n. n @ [CHR 0x00]) names) @ replicate k (CHR 0x00)"]
    by (simp add: buffer_items_def)
qed

subsection \<open>A scripted environment\<close>

text \<open>
  Concrete instances of the parameters, for the examples below and in the later theories: every
  command ends at once with the status and output the script gives and changes the host as it
  says; a started child keeps running until it is killed; there is no PC/SC library.
\<close>

definition scripted :: "(string list \<Rightarrow> host \<Rightarrow> int \<times> string \<times> host) \<Rightarrow> env" where
  "scripted f = \<lparr>
     ext_run = (\<lambda>argv cwd h. case f argv h of (rc, out, h') \<Rightarrow> (Finished rc out [] (Some 0), h')),
     ext_spawn = (\<lambda>argv environment h. (None, h)),
     ext_idle = (\<lambda>d h. h),
     ext_wait = (\<lambda>pid t h. h),
     ext_signal = (\<lambda>pid sig h. h),
     pcsc_symbols = (\<lambda>h. None),
     pcsc_establish = (\<lambda>h. (0, h)),
     pcsc_size = (\<lambda>h. (0, 0, h)),
     pcsc_fill = (\<lambda>n h. (0, [], h)),
     pcsc_release = (\<lambda>h. h),
     wall_clock = (\<lambda>h. ''2024-01-01T00:00:00+00:00''),
     platform_text = (\<lambda>h. ''Linux'')\<rparr>"

lemma scripted_simps [simp]:
  "ext_run (scripted f) argv cwd h = (case f argv h of (rc, out, h') \<Rightarrow> (Finished rc out [] (Some 0), h'))"
  "ext_spawn (scripted f) argv environment h = (None, h)"
  "ext_idle (scripted f) d h = h"
  "ext_wait (scripted f) pid t h = h"
  "ext_signal (scripted f) pid sig h = h"
  "pcsc_symbols (scripted f) h = None"
  "wall_clock (scripted f) h = ''2024-01-01T00:00:00+00:00''"
  "platform_text (scripted f) h = ''Linux''"
  "pcsc_establish (scripted f) h = (0, h)"
  "pcsc_release (scripted f) h = h"
  by (simp_all add: scripted_def)

definition plain_host :: "(path \<times> node) list \<Rightarrow> string list \<Rightarrow> host" where
  "plain_host ns ts = \<lparr>now = 0, nodes = ns, links = [], denied = [], procs = [], next_pid = 100,
     tools = ts, environ = [], is_linux = True, is_root = True, lock_busy = False, cards_open = 0,
     trace = []\<rparr>"

text \<open>A PC/SC service that reports the given names.\<close>

definition with_readers :: "string list \<Rightarrow> env \<Rightarrow> env" where
  "with_readers names E = E\<lparr>
     pcsc_symbols := (\<lambda>h. Some (Some [''SCardEstablishContext'', ''SCardListReaders'',
       ''SCardReleaseContext''])),
     pcsc_size := (\<lambda>h. (0, length (multi_string names), h)),
     pcsc_fill := (\<lambda>n h. (0, multi_string names, h))\<rparr>"

lemma with_readers_simps [simp]:
  "ext_run (with_readers names E) = ext_run E"
  "ext_spawn (with_readers names E) = ext_spawn E"
  "ext_idle (with_readers names E) = ext_idle E"
  "ext_wait (with_readers names E) = ext_wait E"
  "ext_signal (with_readers names E) = ext_signal E"
  "wall_clock (with_readers names E) = wall_clock E"
  "platform_text (with_readers names E) = platform_text E"
  "pcsc_establish (with_readers names E) = pcsc_establish E"
  "pcsc_release (with_readers names E) = pcsc_release E"
  "pcsc_symbols (with_readers names E) h = Some (Some [''SCardEstablishContext'',
     ''SCardListReaders'', ''SCardReleaseContext''])"
  "pcsc_size (with_readers names E) h = (0, length (multi_string names), h)"
  "pcsc_fill (with_readers names E) n h = (0, multi_string names, h)"
  by (simp_all add: with_readers_def)

lemma buffer_items_multi_string:
  "list_all (\<lambda>n. n \<noteq> [] \<and> CHR 0x00 \<notin> set n) names \<Longrightarrow> buffer_items (multi_string names) = names"
  using buffer_items_multi [of names 1] by (simp add: multi_string_def list_all_iff)

lemma run_scripted_readers [simp]:
  assumes "list_all (\<lambda>n. n \<noteq> [] \<and> CHR 0x00 \<notin> set n) names"
  shows "pcsc_readers (with_readers names (scripted f)) w = (Ret (Some names), w)"
proof -
  have "length (multi_string names) \<noteq> 0" by (simp add: multi_string_def)
  then show ?thesis
    using buffer_items_multi_string [OF assms]
    by (simp add: evaluate status_bits_mod SCARD_E_NO_READERS_AVAILABLE_def buffer_raw_def)
qed

subsection \<open>Properties\<close>



text \<open>C21. Every PC/SC context that a query establishes is released before it ends, whether it returns
  or raises; a query never blocks, and it only fails with \<open>PcscQueryError\<close>.\<close>

theorem pcsc_query_balanced:
  "cards_open (snd (pcsc_query E h)) = cards_open h
     \<and> (case fst (pcsc_query E h) of
          Ret _ \<Rightarrow> True | Exn e \<Rightarrow> is_pcsc_error e | Blocked \<Rightarrow> False)"
proof
  show "cards_open (snd (pcsc_query E h)) = cards_open h"
    using evolves_pcsc_query [of "\<lambda>_. True" h E] by (simp add: host_evolves_def)
  show "case fst (pcsc_query E h) of Ret _ \<Rightarrow> True | Exn e \<Rightarrow> is_pcsc_error e | Blocked \<Rightarrow> False"
    using pcsc_query_outcome [of E h]
    by (cases rule: outcome_cases [of "pcsc_query E" h]) auto
qed



end
