(* ===== verification/Platform.thy ===== *)
theory Platform
  imports Pcsc
begin

section \<open>\<open>LinuxPlatform\<close>: attaching the virtual device to the host\<close>

text \<open>
  \<open>plat_state\<close> extends the world with the attributes of a \<open>LinuxPlatform\<close> object; every method
  is an action on it. The host is read through \<open>sysfs\<close> paths and changed through the
  external commands \<open>usbip\<close>, \<open>modprobe\<close>, \<open>systemctl\<close> and the diagnostic tools. The two locals
  of \<open>wait_ready\<close> that its timeout message reads after the loop are the field \<open>ready_locals\<close>.
\<close>

subsection \<open>State\<close>

definition DEFAULT_VID :: string where "DEFAULT_VID = ''20a0''"

definition DEFAULT_PID :: string where "DEFAULT_PID = ''42d4''"

definition BUS_ID :: string where "BUS_ID = ''1-1''"

definition USBIP_PORT :: nat where "USBIP_PORT = 3240"

definition DEFAULT_READINESS_STATUS :: "string list" where
  "DEFAULT_READINESS_STATUS =
     [''usb'', ''ccid_interface'', ''hid_interface'', ''webusb_interface'', ''hidraw'', ''pcsc'']"

text \<open>The \<open>status\<close> dictionary of \<open>wait_ready\<close>.\<close>

record ready_status =
  rs_usb :: bool
  rs_ccid_interface :: bool
  rs_hid_interface :: bool
  rs_webusb_interface :: bool
  rs_hidraw :: bool
  rs_pcsc_checked :: bool
  rs_pcsc_readers :: "string list"
  rs_pcsc_all_readers :: "string list"
  rs_pcsc :: bool

record plat_state = world0 +
  output_dir :: path
  timeout :: int
  usb_vid :: string
  usb_pid :: string
  readiness_requirements :: "string list"
  device_path :: "path option"
  usb_port :: "string option"
  owns_attachment :: bool
  pcsc_readers_before :: "string set"
  ready_locals :: "(ready_status \<times> (string \<times> bool) list) option"

text \<open>\<open>LinuxPlatform(output_dir, timeout, readiness_requirements=...)\<close>.\<close>

definition init_platform :: "host \<Rightarrow> path \<Rightarrow> int \<Rightarrow> string list \<Rightarrow> plat_state" where
  "init_platform h out t reqs = \<lparr>host = h, output_dir = out, timeout = t,
     usb_vid = DEFAULT_VID, usb_pid = DEFAULT_PID, readiness_requirements = reqs,
     device_path = None, usb_port = None, owns_attachment = False, pcsc_readers_before = {},
     ready_locals = None\<rparr>"

definition set_usb_identity :: "string \<Rightarrow> string \<Rightarrow> ('z plat_state_scheme, unit) act" where
  "set_usb_identity vid pid = modifyA (\<lambda>w. w\<lparr>usb_vid := vid, usb_pid := pid\<rparr>)"

text \<open>\<open>time.monotonic() + seconds\<close>; a negative timeout gives a deadline that has passed.\<close>

definition deadline_after :: "int \<Rightarrow> nat \<Rightarrow> nat" where
  "deadline_after seconds t = nat (int t + 1000 * seconds)"

subsection \<open>Host prerequisites\<close>

definition privileged :: "host \<Rightarrow> string list \<Rightarrow> string list" where
  "privileged h argv = (if is_root h then argv else [''sudo'', ''-n''] @ argv)"

definition vhci_available :: "host \<Rightarrow> bool" where
  "vhci_available h = path_exists h [''sys'', ''devices'', ''platform'', ''vhci_hcd.0'']"

definition usbfs_available :: "host \<Rightarrow> bool" where
  "usbfs_available h = is_dir h [''dev'', ''bus'', ''usb'']"

definition missing_tools :: "host \<Rightarrow> string list" where
  "missing_tools h =
     (if which h ''usbip'' then [] else [''usbip''])
     @ (if \<not> vhci_available h \<and> \<not> which h ''modprobe'' then [''modprobe''] else [])
     @ (if \<not> is_root h \<and> \<not> which h ''sudo'' then [''sudo''] else [])"

definition require_host :: "('z world0_scheme, unit) act" where
  "require_host = bindA (askH (\<lambda>h. h)) (\<lambda>h.
     if \<not> is_linux h then
       raiseA (PhaseError phase.Host ''USB/IP attach is supported on Linux only'' 1)
     else if missing_tools h \<noteq> [] then
       raiseA (PhaseError phase.Host
         (''missing required command(s): '' @ py_join '', '' (missing_tools h)) 1)
     else retA ())"

definition prepare_host :: "env \<Rightarrow> ('z world0_scheme, unit) act" where
  "prepare_host E =
     thenA require_host
    (thenA (bindA (askH (\<lambda>h. h)) (\<lambda>h. whenA (\<not> vhci_available h)
        (thenA (run_command E (privileged h [''modprobe'', ''vhci_hcd'']) None (Some 20) None True)
          (retA ()))))
    (thenA (bindA (askH vhci_available) (\<lambda>ok. whenA (\<not> ok)
        (raiseA (PhaseError phase.Host ''vhci_hcd loaded but its sysfs device is unavailable'' 1))))
    (thenA (bindA (askH usbfs_available) (\<lambda>ok. whenA (\<not> ok)
        (raiseA (PhaseError phase.Host
           ''usbfs device nodes are unavailable at /dev/bus/usb; use a Linux VM or runner with host USB support''
           1))))
      (bindA (askH (\<lambda>h. h)) (\<lambda>h. whenA (which h ''systemctl'' \<and> which h ''pcscd'')
        (thenA (run_command E (privileged h [''systemctl'', ''start'', ''pcscd''])
            None (Some 20) None False)
          (retA ())))))))"

subsection \<open>USB devices with the expected identity\<close>

definition SYS_DEVICES :: path where
  "SYS_DEVICES = [''sys'', ''bus'', ''usb'', ''devices'']"

definition device_of_vendor_file :: "host \<Rightarrow> string \<Rightarrow> string \<Rightarrow> path \<Rightarrow> path option" where
  "device_of_vendor_file h vid pid vendor_file =
     (case read_opt h vendor_file of
        None \<Rightarrow> None
      | Some v \<Rightarrow>
          if py_lower (py_strip v) \<noteq> vid then None
          else (case read_opt h (butlast vendor_file @ [''idProduct'']) of
                  None \<Rightarrow> None
                | Some p \<Rightarrow>
                    if py_lower (py_strip p) = pid then Some (realpath h (butlast vendor_file))
                    else None))"

definition usb_devices :: "host \<Rightarrow> string \<Rightarrow> string \<Rightarrow> path set" where
  "usb_devices h vid pid =
     (if \<not> path_exists h SYS_DEVICES then {}
      else set (List.map_filter (device_of_vendor_file h vid pid)
                  (glob2 h SYS_DEVICES (\<lambda>_. True) ''idVendor'')))"

definition matching_usb_devices :: "('z plat_state_scheme, path set) act" where
  "matching_usb_devices = getsA (\<lambda>w. usb_devices (host w) (usb_vid w) (usb_pid w))"

subsection \<open>The port number of the attachment\<close>

definition block_is_ours :: "string \<Rightarrow> string \<Rightarrow> string \<Rightarrow> bool" where
  "block_is_ours vid pid block \<longleftrightarrow>
     contains (vid @ '':'' @ pid) (py_lower block) \<or> contains ''CanoKey'' block
     \<or> contains ''1-1'' block"

fun pick_port :: "string \<Rightarrow> string \<Rightarrow> string list \<Rightarrow> string option" where
  "pick_port vid pid [] = None"
| "pick_port vid pid (b # bs) =
     (if block_is_ours vid pid b then
        (case search_lines port_at True b of
           Some ds \<Rightarrow> Some (canonical_port ds)
         | None \<Rightarrow> pick_port vid pid bs)
      else pick_port vid pid bs)"

definition port_of_output :: "string \<Rightarrow> string \<Rightarrow> string \<Rightarrow> string option" where
  "port_of_output vid pid out = pick_port vid pid (port_blocks True out)"

definition find_usbip_port :: "env \<Rightarrow> ('z plat_state_scheme, string option) act" where
  "find_usbip_port E =
     bindA (run_command E [''usbip'', ''port''] None (Some 10) None False) (\<lambda>r.
       getsA (\<lambda>w. port_of_output (usb_vid w) (usb_pid w)
                    (case cp_out r of Some s \<Rightarrow> s | None \<Rightarrow> [])))"

subsection \<open>Attaching\<close>

definition attach_command :: "string list" where
  "attach_command = [''usbip'', ''--tcp-port'', show_nat USBIP_PORT, ''attach'', ''--remote'',
     ''127.0.0.1'', ''--busid'', BUS_ID]"

text \<open>One round of the wait for the device: \<open>sorted(candidates)[0]\<close> is the least new device.\<close>

definition attach_round :: "env \<Rightarrow> path set \<Rightarrow> ('z plat_state_scheme, unit option) act" where
  "attach_round E before =
     bindA matching_usb_devices (\<lambda>found.
       let candidates = found - before in
       if candidates = {} then retA None
       else thenA (modifyA (\<lambda>w. w\<lparr>device_path := Some (hd (sorted_list_of_set candidates))\<rparr>))
           (thenA (bindA (getsA usb_port) (\<lambda>p. whenA (p = None)
               (bindA (find_usbip_port E) (\<lambda>q. modifyA (\<lambda>w. w\<lparr>usb_port := q\<rparr>)))))
             (retA (Some ()))))"

definition reader_baseline :: "env \<Rightarrow> ('z plat_state_scheme, unit) act" where
  "reader_baseline E =
     bindA (catchA (pcsc_readers E)
       (onA is_pcsc_error (\<lambda>exc. raiseA (PhaseError Attach
          (''Cannot establish PC/SC reader baseline: '' @ exn_str exc) 1))))
     (\<lambda>readers. modifyA (\<lambda>w. w\<lparr>pcsc_readers_before :=
        (case readers of None \<Rightarrow> {} | Some xs \<Rightarrow> set xs)\<rparr>))"

definition attach_device :: "env \<Rightarrow> ('z plat_state_scheme, unit) act" where
  "attach_device E =
     catchA (bindA (askH (\<lambda>h. privileged h attach_command)) (\<lambda>argv.
         thenA (run_command E argv None (Some 30) None True) (retA ())))
       (onA (\<lambda>e. is_harness_error e \<or> is_timeout e) (\<lambda>exc.
          raiseA (PhaseError Attach (''USB/IP attach failed: '' @ exn_str exc) 1)))"

definition attach_wait :: "env \<Rightarrow> path set \<Rightarrow> ('z plat_state_scheme, unit) act" where
  "attach_wait E before =
     bindA monotonic (\<lambda>t. bindA (getsA timeout) (\<lambda>secs.
     bindA (poll_until E (deadline_after secs t) 250 (attach_round E before)) (\<lambda>r. case r of
       Some _ \<Rightarrow> retA ()
     | None \<Rightarrow> raiseA (PhaseError Attach
         (''Timed out waiting for USB device after '' @ show_int secs @ '' seconds'') 1))))"

definition attach :: "env \<Rightarrow> path set \<Rightarrow> ('z plat_state_scheme, unit) act" where
  "attach E before =
     thenA (reader_baseline E)
    (thenA (attach_device E)
    (thenA (modifyA (\<lambda>w. w\<lparr>owns_attachment := True\<rparr>))
    (thenA (bindA (find_usbip_port E) (\<lambda>q. modifyA (\<lambda>w. w\<lparr>usb_port := q\<rparr>)))
      (attach_wait E before))))"

subsection \<open>Readiness\<close>

definition interface_classes :: "host \<Rightarrow> path option \<Rightarrow> string set" where
  "interface_classes h dp = (case dp of
     None \<Rightarrow> {}
   | Some d \<Rightarrow> set (List.map_filter (\<lambda>f. map_option (\<lambda>s. py_lower (py_strip s)) (read_opt h f))
                   (glob2 h d (prefix (last d @ '':'')) ''bInterfaceClass'')))"

text \<open>\<open>str(entry.resolve()).startswith(base)\<close> compares the texts of the paths.\<close>

definition hidraw_ready :: "host \<Rightarrow> path option \<Rightarrow> bool" where
  "hidraw_ready h dp = (case dp of
     None \<Rightarrow> False
   | Some d \<Rightarrow> list_ex (\<lambda>entry. prefix (path_str d) (path_str (realpath h entry)))
                   (glob2 h [''sys'', ''class'', ''hidraw''] (prefix ''hidraw'') ''device''))"

definition probe_status :: "host \<Rightarrow> path option \<Rightarrow> string set \<Rightarrow> string set
    \<Rightarrow> string list option \<Rightarrow> ready_status" where
  "probe_status h dp classes baseline readers =
     (let all_readers = (case readers of None \<Rightarrow> [] | Some xs \<Rightarrow> xs);
          new_readers = sorted_list_of_set (set all_readers - baseline) in
      \<lparr>rs_usb = (case dp of None \<Rightarrow> False | Some d \<Rightarrow> path_exists h d),
       rs_ccid_interface = ''0b'' \<in> classes,
       rs_hid_interface = ''03'' \<in> classes,
       rs_webusb_interface = ''ff'' \<in> classes,
       rs_hidraw = hidraw_ready h dp,
       rs_pcsc_checked = (readers \<noteq> None),
       rs_pcsc_readers = new_readers,
       rs_pcsc_all_readers = all_readers,
       rs_pcsc = (readers = None \<or> new_readers \<noteq> [])\<rparr>)"

text \<open>\<open>bool(status[name])\<close> for the default names, and the table of explicit requirements.\<close>

definition status_flag :: "ready_status \<Rightarrow> string \<Rightarrow> bool option" where
  "status_flag st name = map_of
     [(''usb'', rs_usb st), (''ccid_interface'', rs_ccid_interface st),
      (''hid_interface'', rs_hid_interface st), (''webusb_interface'', rs_webusb_interface st),
      (''hidraw'', rs_hidraw st), (''pcsc'', rs_pcsc st)] name"

definition requirement_flag :: "ready_status \<Rightarrow> string \<Rightarrow> bool option" where
  "requirement_flag st name = map_of
     [(''usb'', rs_usb st), (''ccid'', rs_ccid_interface st),
      (''hid'', rs_hid_interface st \<and> rs_hidraw st), (''webusb'', rs_webusb_interface st),
      (''pcsc'', rs_pcsc_checked st \<and> rs_pcsc_readers st \<noteq> [])] name"

definition lookup_flags :: "(string \<Rightarrow> bool option) \<Rightarrow> string list \<Rightarrow> exn + (string \<times> bool) list" where
  "lookup_flags f names = mapE (\<lambda>n. case f n of
     None \<Rightarrow> Inl (KeyError n) | Some b \<Rightarrow> Inr (n, b)) (dedup names)"

definition requirement_status :: "ready_status \<Rightarrow> string list \<Rightarrow> exn + (string \<times> bool) list" where
  "requirement_status st reqs =
     (if reqs = [] then lookup_flags (status_flag st) DEFAULT_READINESS_STATUS
      else lookup_flags (requirement_flag st) reqs)"

definition judge_probe :: "string set \<Rightarrow> string list option \<Rightarrow> ('z plat_state_scheme, ready_status option) act"
  where
  "judge_probe classes readers =
     bindA (getsA (\<lambda>w. probe_status (host w) (device_path w) classes
                         (pcsc_readers_before w) readers)) (\<lambda>st.
     bindA (bindA (getsA readiness_requirements) (\<lambda>reqs. liftE (requirement_status st reqs))) (\<lambda>flags.
     thenA (modifyA (\<lambda>w. w\<lparr>ready_locals := Some (st, flags)\<rparr>))
       (if list_all snd flags then retA (Some st) else retA None)))"

definition ready_round :: "env \<Rightarrow> ('z plat_state_scheme, ready_status option) act" where
  "ready_round E =
     bindA (getsA (\<lambda>w. interface_classes (host w) (device_path w))) (\<lambda>classes.
     bindA (catchA (pcsc_readers E)
       (onA is_pcsc_error (\<lambda>exc. raiseA (PhaseError Readiness (exn_str exc) 1))))
       (judge_probe classes))"

text \<open>The report of a timeout: the unmet requirements and one line per probe.\<close>

definition status_lines :: "ready_status \<Rightarrow> string list" where
  "status_lines st =
     [''  usb: '' @ py_bool (rs_usb st),
      ''  ccid_interface: '' @ py_bool (rs_ccid_interface st),
      ''  hid_interface: '' @ py_bool (rs_hid_interface st),
      ''  webusb_interface: '' @ py_bool (rs_webusb_interface st),
      ''  hidraw: '' @ py_bool (rs_hidraw st),
      ''  pcsc_checked: '' @ py_bool (rs_pcsc_checked st),
      ''  pcsc_readers: '' @ py_repr_list (rs_pcsc_readers st),
      ''  pcsc_all_readers: '' @ py_repr_list (rs_pcsc_all_readers st),
      ''  pcsc: '' @ py_bool (rs_pcsc st)]"

definition ready_message :: "int \<Rightarrow> (ready_status \<times> (string \<times> bool) list) option \<Rightarrow> string" where
  "ready_message secs locals =
     ''Timed out waiting for virtual CanoKey after '' @ show_int secs @ '' seconds'' @ [newline]
     @ ''Unmet readiness requirements: ''
     @ py_join '', '' (case locals of None \<Rightarrow> []
         | Some (_, flags) \<Rightarrow> map fst (filter (\<lambda>(_, ready). \<not> ready) flags))
     @ [newline]
     @ py_join [newline] (case locals of None \<Rightarrow> [] | Some (st, _) \<Rightarrow> status_lines st)"

definition wait_ready :: "env \<Rightarrow> ('z plat_state_scheme, ready_status) act" where
  "wait_ready E =
     bindA monotonic (\<lambda>t. bindA (getsA timeout) (\<lambda>secs.
     thenA (modifyA (\<lambda>w. w\<lparr>ready_locals := None\<rparr>))
    (bindA (poll_until E (deadline_after secs t) 250 (ready_round E)) (\<lambda>r. case r of
       Some st \<Rightarrow> retA st
     | None \<Rightarrow> bindA (getsA ready_locals) (\<lambda>locals.
         raiseA (PhaseError Readiness (ready_message secs locals) 1))))))"

subsection \<open>Detaching and diagnostics\<close>

definition detach_command :: "string \<Rightarrow> string list" where
  "detach_command port = [''usbip'', ''detach'', ''--port'', port]"

text \<open>\<open>self.usb_port or self.find_usbip_port()\<close>: an empty text is false.\<close>

definition known_port :: "env \<Rightarrow> ('z plat_state_scheme, string option) act" where
  "known_port E = bindA (getsA usb_port) (\<lambda>p. case p of
     Some (c # cs) \<Rightarrow> retA (Some (c # cs)) | _ \<Rightarrow> find_usbip_port E)"

definition forget_attachment :: "('z plat_state_scheme, unit) act" where
  "forget_attachment = modifyA (\<lambda>w. w\<lparr>owns_attachment := False, usb_port := None, device_path := None\<rparr>)"

definition detach :: "env \<Rightarrow> ('z plat_state_scheme, unit) act" where
  "detach E =
     bindA (getsA (\<lambda>w. \<not> owns_attachment w \<or> \<not> which (host w) ''usbip'')) (\<lambda>skip.
       if skip then retA ()
       else bindA (known_port E) (\<lambda>port. case port of
         None \<Rightarrow> retA ()
       | Some p \<Rightarrow>
           finallyA
             (bindA (askH (\<lambda>h. privileged h (detach_command p))) (\<lambda>argv.
                thenA (run_command E argv None (Some 20) None False) (retA ())))
             forget_attachment))"

definition debug_commands :: "string \<Rightarrow> string \<Rightarrow> (string \<times> string list) list" where
  "debug_commands vid pid =
     [(''usbip-port.txt'', [''usbip'', ''port'']),
      (''lsusb.txt'', [''lsusb'', ''-v'', ''-d'', vid @ '':'' @ pid]),
      (''kernel.txt'', [''uname'', ''-a''])]"

definition logged_command :: "env \<Rightarrow> path \<Rightarrow> string list \<Rightarrow> ('z world0_scheme, unit) act" where
  "logged_command E log argv =
     thenA (write_text log []) (thenA (run_command E argv None (Some 20) (Some log) False) (retA ()))"

definition collect_debug :: "env \<Rightarrow> ('z plat_state_scheme, unit) act" where
  "collect_debug E =
     bindA (getsA (\<lambda>w. (output_dir w, debug_commands (usb_vid w) (usb_pid w)))) (\<lambda>(out, commands).
     thenA (forA commands (\<lambda>(filename, command).
         bindA (askH (\<lambda>h. which h (hd command))) (\<lambda>there.
           if \<not> there then write_text (out @ [filename]) (hd command @ '' unavailable'' @ [newline])
           else logged_command E (out @ [filename]) command)))
    (thenA (bindA (getsA (\<lambda>w. if which (host w) ''udevadm'' then device_path w else None)) (\<lambda>dp.
         case dp of None \<Rightarrow> retA ()
         | Some d \<Rightarrow> logged_command E (out @ [''udev.txt''])
             [''udevadm'', ''info'', ''--query=all'', ''--path='' @ path_str d]))
      (bindA (askH (\<lambda>h. h)) (\<lambda>h. whenA (which h ''journalctl'')
         (logged_command E (out @ [''pcscd.log''])
            (privileged h [''journalctl'', ''-u'', ''pcscd'', ''--no-pager'', ''-n'', ''300'']))))))"

lemmas evaluate_platform [evaluate] =
  set_usb_identity_def [THEN fun_cong] require_host_def [THEN fun_cong]
  prepare_host_def [THEN fun_cong] matching_usb_devices_def [THEN fun_cong]
  find_usbip_port_def [THEN fun_cong] attach_round_def [THEN fun_cong]
  reader_baseline_def [THEN fun_cong] attach_device_def [THEN fun_cong]
  attach_wait_def [THEN fun_cong] attach_def [THEN fun_cong] judge_probe_def [THEN fun_cong] ready_round_def [THEN fun_cong]
  wait_ready_def [THEN fun_cong] known_port_def [THEN fun_cong]
  forget_attachment_def [THEN fun_cong] detach_def [THEN fun_cong]
  logged_command_def [THEN fun_cong] collect_debug_def [THEN fun_cong]

subsection \<open>What the operations keep\<close>

context host_client
begin

lemma within_prepare_host:
  assumes "\<And>h. P (EvRun (privileged h [''modprobe'', ''vhci_hcd'']))"
    and "\<And>h. P (EvRun (privileged h [''systemctl'', ''start'', ''pcscd'']))"
  shows "within R (prepare_host E)"
  unfolding prepare_host_def require_host_def
  by (intro host_rules assms)

end

text \<open>
  Operations that write no attribute satisfy every contract of the host operations, on the state
  of the platform.
\<close>

locale platform_reader = host_client R P
  for R :: "'z plat_state_scheme \<Rightarrow> 'z plat_state_scheme \<Rightarrow> bool" and P :: "event \<Rightarrow> bool"
begin

lemma within_find_usbip_port:
  "P (EvRun [''usbip'', ''port'']) \<Longrightarrow> within R (find_usbip_port E)"
  unfolding find_usbip_port_def by (intro host_rules)

lemma within_matching_usb_devices: "within R matching_usb_devices"
  unfolding matching_usb_devices_def by (rule within_getsA)

lemma within_attach_device:
  "(\<And>h. P (EvRun (privileged h attach_command))) \<Longrightarrow> within R (attach_device E)"
  unfolding attach_device_def by (intro within_catch_onA within_bind_askH host_rules)

lemma within_known_port: "P (EvRun [''usbip'', ''port'']) \<Longrightarrow> within R (known_port E)"
  unfolding known_port_def
  by (rule within_bindA [OF within_getsA])
    (auto split: option.split list.split intro: within_retA within_find_usbip_port)

lemma within_logged_command: "P (EvRun argv) \<Longrightarrow> within R (logged_command E log argv)"
  unfolding logged_command_def by (intro host_rules)

lemma within_collect_debug:
  assumes "\<And>vid pid c. c \<in> set (debug_commands vid pid) \<Longrightarrow> P (EvRun (snd c))"
    and "\<And>d. P (EvRun [''udevadm'', ''info'', ''--query=all'', ''--path='' @ path_str d])"
    and "\<And>h. P (EvRun (privileged h [''journalctl'', ''-u'', ''pcscd'', ''--no-pager'', ''-n'', ''300'']))"
  shows "within R (collect_debug E)"
proof -
  have "within R (forA (debug_commands vid pid) (\<lambda>(filename, command).
         bindA (askH (\<lambda>h. which h (hd command))) (\<lambda>there.
           if \<not> there then write_text (out @ [filename]) (hd command @ '' unavailable'' @ [newline])
           else logged_command E (out @ [filename]) command)))" for vid pid out
    by (rule within_forA_in)
      (auto intro!: within_bind_askH within_if within_write_text within_logged_command
        dest: assms(1))
  then show ?thesis
    unfolding collect_debug_def
    by (intro within_bind_getsA, simp only: prod.case, intro within_bind_askH within_bindA within_getsA within_case_prod within_case_option
        within_thenA within_whenA within_retA within_logged_command assms)
qed

end

text \<open>
  A contract of the platform layer: it holds of every host step that logs only allowed events
  and of every update of the five attributes that attaching, waiting and detaching write. Each
  operation satisfies every such contract that allows the commands it runs.
\<close>

locale platform_client = platform_reader R P
  for R :: "'z plat_state_scheme \<Rightarrow> 'z plat_state_scheme \<Rightarrow> bool" and P :: "event \<Rightarrow> bool" +
  assumes device_step: "R w (w\<lparr>device_path := d\<rparr>)"
    and port_step: "R w (w\<lparr>usb_port := p\<rparr>)"
    and owner_step: "R w (w\<lparr>owns_attachment := a\<rparr>)"
    and baseline_step: "R w (w\<lparr>pcsc_readers_before := b\<rparr>)"
    and locals_step: "R w (w\<lparr>ready_locals := l\<rparr>)"
begin

lemma recall_step: "R w (w\<lparr>usb_port := p, owns_attachment := a\<rparr>)"
  by (rule contract_trans [OF port_step owner_step])

lemma forget_step: "R w (w\<lparr>owns_attachment := a, usb_port := p, device_path := d\<rparr>)"
  by (rule contract_trans [OF contract_trans [OF owner_step port_step] device_step])

lemmas attribute_steps = device_step port_step owner_step baseline_step locals_step
  recall_step forget_step

lemma within_attach_round:
  "P (EvRun [''usbip'', ''port'']) \<Longrightarrow> within R (attach_round E before)"
  unfolding attach_round_def Let_def
  by (intro host_rules within_modifyA attribute_steps within_find_usbip_port
      within_matching_usb_devices)

lemma within_reader_baseline: "within R (reader_baseline E)"
  unfolding reader_baseline_def
  by (intro host_rules within_modifyA attribute_steps within_pcsc_readers)

lemma within_attach_wait:
  "P (EvRun [''usbip'', ''port'']) \<Longrightarrow> within R (attach_wait E before)"
  unfolding attach_wait_def by (intro host_rules within_attach_round)

lemma within_attach:
  "P (EvRun [''usbip'', ''port'']) \<Longrightarrow> (\<And>h. P (EvRun (privileged h attach_command))) \<Longrightarrow>
     within R (attach E before)"
  unfolding attach_def
  by (intro host_rules within_modifyA attribute_steps within_reader_baseline within_attach_device
      within_find_usbip_port within_attach_wait)

lemma within_ready_round: "within R (ready_round E)"
  unfolding ready_round_def judge_probe_def
  by (intro host_rules within_modifyA attribute_steps within_pcsc_readers)

lemma within_wait_ready: "within R (wait_ready E)"
  unfolding wait_ready_def
  by (intro host_rules within_modifyA attribute_steps within_ready_round)

lemma within_detach:
  assumes "P (EvRun [''usbip'', ''port''])" "\<And>h p. P (EvRun (privileged h (detach_command p)))"
  shows "within R (detach E)"
  unfolding detach_def forget_attachment_def
  by (intro within_bindA within_getsA within_if within_retA within_known_port assms
      within_case_option within_finallyA within_bind_askH within_thenA within_run_command
      within_modifyA attribute_steps)

lemmas platform_rules = host_rules within_modifyA attribute_steps within_pcsc_readers
  within_find_usbip_port within_matching_usb_devices within_attach within_wait_ready
  within_detach

end

text \<open>The clock and the trace, on the larger state.\<close>

interpretation plat_clock: platform_client clock_le "\<lambda>_. True"
  by unfold_locales auto

interpretation plat_evolving: platform_client "evolves_le P" P for P
  by unfold_locales auto

text \<open>What no operation of the platform writes: its configuration, and the owner's own fields.\<close>

definition plat_config :: "'z plat_state_scheme \<Rightarrow> path \<times> int \<times> string \<times> string \<times> string list \<times> 'z" where
  "plat_config w = (output_dir w, timeout w, usb_vid w, usb_pid w, readiness_requirements w,
     plat_state.more w)"

interpretation plat_fixed: platform_client "\<lambda>w w'. plat_config w' = plat_config w" "\<lambda>_. True"
  by unfold_locales (auto simp: plat_config_def)

interpretation plat_watch: platform_client
  "\<lambda>w w'. evolves_le P w w' \<and> plat_config w' = plat_config w" P for P
  by unfold_locales (auto simp: plat_config_def intro: host_evolves_trans)

interpretation attach_poll: polling E 250 "attach_round E before" for E before
  by unfold_locales (simp_all add: plat_clock.within_attach_round)

interpretation ready_poll: polling E 250 "ready_round E" for E
  by unfold_locales (simp_all add: plat_clock.within_ready_round)

lemmas evaluate_platform_loops [evaluate] =
  attach_poll.poll_until_unfold ready_poll.poll_until_unfold

subsection \<open>How the operations end\<close>

text \<open>
  A failure of a platform operation is a \<open>PhaseError\<close> of its own phase, or one of the errors of
  an external command. None of them can block, since every command has a timeout.
\<close>

definition phase_failure :: "phase \<Rightarrow> exn \<Rightarrow> bool" where
  "phase_failure p e \<longleftrightarrow> (\<exists>m. e = PhaseError p m 1) \<or> is_os_error e \<or> is_timeout e"

lemma phase_failureI [intro, simp]:
  "phase_failure p (PhaseError p m 1)"
  "is_os_error e \<Longrightarrow> phase_failure p e"
  "phase_failure p (TimeoutExpired m)"
  by (auto simp: phase_failure_def)

lemma ends_find_usbip_port [ends_rules]:
  "(\<And>e. is_os_error e \<Longrightarrow> X e) \<Longrightarrow> (\<And>m. X (TimeoutExpired m)) \<Longrightarrow> ends X b (find_usbip_port E)"
  unfolding find_usbip_port_def by (intro ends_rules) auto

lemma ends_attach_round: "ends (phase_failure Attach) False (attach_round E before)"
  unfolding attach_round_def matching_usb_devices_def
  by (intro ends_rules) auto

lemma ends_attach_wait: "ends (phase_failure Attach) False (attach_wait E before)"
  unfolding attach_wait_def
  by (intro ends_rules attach_poll.poll_ends ends_attach_round phase_failureI)

lemma ends_reader_baseline: "ends (phase_failure Attach) False (reader_baseline E)"
  unfolding reader_baseline_def
  by (intro ends_rules ends_catch_onA [where Y = is_pcsc_error]) auto

lemma ends_attach_device: "ends (phase_failure Attach) False (attach_device E)"
  unfolding attach_device_def
  by (rule ends_catch_onA [where Y = "\<lambda>e. is_harness_error e \<or> is_os_error e \<or> is_timeout e"])
    (auto intro!: ends_rules)

lemma ends_attach: "ends (phase_failure Attach) False (attach E before)"
  unfolding attach_def
  by (intro ends_rules ends_reader_baseline ends_attach_device ends_attach_wait) auto

lemma ends_prepare_host:
  "ends (\<lambda>e. phase_failure phase.Host e \<or> (\<exists>m. e = HarnessError m)) False (prepare_host E)"
  unfolding prepare_host_def require_host_def
  by (intro ends_rules) auto

lemma ends_collect_debug: "ends (\<lambda>e. is_os_error e \<or> is_timeout e) False (collect_debug E)"
  unfolding collect_debug_def logged_command_def
  by (intro ends_rules) auto

lemma ends_detach: "ends (\<lambda>e. is_os_error e \<or> is_timeout e) False (detach E)"
proof -
  have "ends (\<lambda>e. is_os_error e \<or> is_timeout e) False (known_port E)"
    unfolding known_port_def
    by (rule ends_bindA) (auto intro!: ends_rules split: option.split list.split)
  then show ?thesis
    unfolding detach_def forget_attachment_def
    by (intro ends_rules) auto
qed

subsection \<open>Attaching\<close>

lemma finite_usb_devices [simp]: "finite (usb_devices h vid pid)"
  by (simp add: usb_devices_def)

lemma privileged_evolves:
  "host_evolves P h h' \<Longrightarrow> privileged h' argv = privileged h argv"
  by (simp add: host_evolves_def privileged_def)

text \<open>The wait for the device writes neither the reader baseline nor the ownership.\<close>

definition attach_notes :: "'z plat_state_scheme \<Rightarrow> string set \<times> bool" where
  "attach_notes w = (pcsc_readers_before w, owns_attachment w)"

interpretation noted: platform_reader "\<lambda>w w'. attach_notes w' = attach_notes w" "\<lambda>_. True"
  by unfold_locales (auto simp: attach_notes_def)

lemma noted_attach_wait: "leaves attach_notes (attach_wait E before)"
  unfolding attach_wait_def attach_round_def find_usbip_port_def matching_usb_devices_def Let_def
  by (intro noted.host_rules same.within_modifyA) (simp_all add: attach_notes_def)

lemma noted_find_usbip_port: "leaves attach_notes (find_usbip_port E)"
  unfolding find_usbip_port_def by (intro noted.host_rules) simp

lemma noted_attach_device: "leaves attach_notes (attach_device E)"
  unfolding attach_device_def by (intro noted.host_rules) simp

interpretation owner_kept: platform_reader "\<lambda>w w'. owns_attachment w' = owns_attachment w" "\<lambda>_. True"
  by unfold_locales auto

lemma owner_kept_find: "leaves owns_attachment (find_usbip_port E)"
  unfolding find_usbip_port_def by (intro owner_kept.host_rules) simp

lemma owner_kept_baseline: "leaves owns_attachment (reader_baseline E)"
  unfolding reader_baseline_def
  by (intro owner_kept.host_rules owner_kept.within_pcsc_readers same.within_modifyA) simp

text \<open>The search for the port does not write the device.\<close>

interpretation device_kept: platform_reader "\<lambda>w w'. device_path w' = device_path w" "\<lambda>_. True"
  by unfold_locales auto

lemma device_kept_find: "leaves device_path (find_usbip_port E)"
  unfolding find_usbip_port_def by (intro device_kept.host_rules) simp

lemma attach_round_Some:
  assumes "attach_round E before w = (Ret (Some ()), w')"
  defines "c \<equiv> usb_devices (host w) (usb_vid w) (usb_pid w) - before"
  shows "c \<noteq> {} \<and> device_path w' = Some (Min c)"
proof -
  have c: "c \<noteq> {}"
    using assms by (auto simp: attach_round_def matching_usb_devices_def)
  let ?w1 = "w\<lparr>device_path := Some (hd (sorted_list_of_set c))\<rparr>"
  let ?port = "bindA (getsA usb_port) (\<lambda>p. whenA (p = None)
      (bindA (find_usbip_port E) (\<lambda>q. modifyA (\<lambda>w. w\<lparr>usb_port := q\<rparr>))))"
  have "thenA ?port (retA (Some ())) ?w1 = (Ret (Some ()), w')"
    using assms c by (simp add: attach_round_def matching_usb_devices_def)
  moreover have "leaves device_path (thenA ?port (retA (Some ())))"
    by (intro device_kept.host_rules same.within_modifyA device_kept_find) simp
  ultimately have "device_path w' = device_path ?w1" by (rule leavesD [rotated])
  moreover have "hd (sorted_list_of_set c) = Min c"
    using c by (simp add: c_def sorted_list_of_set_nonempty)
  ultimately show ?thesis using c by simp
qed

lemma attach_wait_Ret:
  assumes "attach_wait E before w = (Ret (), w')"
  shows "\<exists>h. host_evolves (\<lambda>_. True) (host w) h \<and> host_evolves (\<lambda>_. True) h (host w')
    \<and> usb_devices h (usb_vid w) (usb_pid w) - before \<noteq> {}
    \<and> device_path w' = Some (Min (usb_devices h (usb_vid w) (usb_pid w) - before))"
proof -
  obtain deadline where
    "poll_until E deadline 250 (attach_round E before) w = (Ret (Some ()), w')"
    using assms by (auto simp: attach_wait_def monotonic_def elim!: bindA_RetE split: option.splits)
  from attach_poll.poll_from_round [OF plat_watch.host_client_axioms [where P = "\<lambda>_. True"]
      plat_watch.within_attach_round [OF TrueI] this]
  obtain w0 where w0: "evolves_le (\<lambda>_. True) w w0" "plat_config w0 = plat_config w"
    and round: "attach_round E before w0 = (Ret (Some ()), w')"
    by auto
  have "evolves_le (\<lambda>_. True) w0 w'"
    using plat_evolving.within_attach_round round by (rule withinD) simp
  with w0 attach_round_Some [OF round] show ?thesis
    by (auto simp: plat_config_def)
qed


text \<open>A host on which \<open>usbip attach\<close> makes the device \<open>9-1\<close> appear.\<close>

definition sysfs_device :: "string \<Rightarrow> string \<Rightarrow> string \<Rightarrow> (path \<times> node) list" where
  "sysfs_device name vid pid = [(SYS_DEVICES @ [name], Dir),
     (SYS_DEVICES @ [name, ''idVendor''], File (Text (vid @ [newline]))),
     (SYS_DEVICES @ [name, ''idProduct''], File (Text (pid @ [newline])))]"

definition port_listing :: string where
  "port_listing = ''Imported USB devices'' @ [newline] @ ''===================='' @ [newline]
     @ ''Port 03: <Port in Use> at Full Speed(12Mbps)'' @ [newline]
     @ ''       unknown vendor : unknown product (20a0:42d4)'' @ [newline]"

definition usbip_script :: "string list \<Rightarrow> host \<Rightarrow> int \<times> string \<times> host" where
  "usbip_script argv h =
     (if argv = attach_command
      then (0, [], h\<lparr>nodes := nodes h @ sysfs_device ''9-1'' DEFAULT_VID DEFAULT_PID\<rparr>)
      else if argv = [''usbip'', ''port''] then (0, port_listing, h) else (0, [], h))"

definition usb_world :: "string list \<Rightarrow> plat_state" where
  "usb_world reqs = init_platform (plain_host [(SYS_DEVICES, Dir)] [''usbip'']) [''out''] 5 reqs"

lemma port_listing_port [simp]: "port_of_output ''20a0'' ''42d4'' port_listing = Some ''3''"
  by code_simp

lemma identity_text [simp]:
  "py_lower (py_strip [CHR ''2'', CHR ''0'', CHR ''a'', CHR ''0'', newline]) = ''20a0''"
  "py_lower (py_strip [CHR ''4'', CHR ''2'', CHR ''d'', CHR ''4'', newline]) = ''42d4''"
  by code_simp+

lemmas evaluate_files = path_exists_def node_at_def is_dir_def is_file_def realpath_def glob2_def
  read_opt_def read_result_def content_text_def SYS_DEVICES_def

lemmas evaluate_devices = usb_devices_def device_of_vendor_file_def sysfs_device_def evaluate_files
  map_filter_simps


text \<open>C15. \<open>attach\<close> always ends: it returns, raises an attach-phase error, or passes on an \<open>OSError\<close> or
  \<open>TimeoutExpired\<close> of an external command. However it ends, the attachment is owned afterwards
  exactly if it was owned before or the \<open>usbip attach\<close> command of this call succeeded.\<close>

theorem attach_ends_and_owns:
  "(case fst (attach E before w) of
      Ret _ \<Rightarrow> True | Exn e \<Rightarrow> phase_failure Attach e | Blocked \<Rightarrow> False)
   \<and> owns_attachment (snd (attach E before w)) =
       (owns_attachment w \<or> (\<exists>w1 w2. reader_baseline E w = (Ret (), w1)
                                  \<and> attach_device E w1 = (Ret (), w2)))"
proof
  show "case fst (attach E before w) of
      Ret _ \<Rightarrow> True | Exn e \<Rightarrow> phase_failure Attach e | Blocked \<Rightarrow> False"
    by (rule ends_at [OF ends_attach])
  show "owns_attachment (snd (attach E before w)) =
      (owns_attachment w \<or> (\<exists>w1 w2. reader_baseline E w = (Ret (), w1)
                                 \<and> attach_device E w1 = (Ret (), w2)))"
  proof (cases rule: outcome_cases [of "reader_baseline E" w])
    case (Ret u w1)
    have base: "owns_attachment w1 = owns_attachment w"
      using leavesD [OF owner_kept_baseline Ret] .
    show ?thesis
    proof (cases rule: outcome_cases [of "attach_device E" w1])
      case (Ret v w2)
      let ?rest = "thenA (bindA (find_usbip_port E) (\<lambda>q. modifyA (\<lambda>w. w\<lparr>usb_port := q\<rparr>)))
        (attach_wait E before)"
      have "leaves attach_notes ?rest"
        by (intro noted.host_rules same.within_modifyA noted_find_usbip_port noted_attach_wait)
          (simp add: attach_notes_def)
      from withinD_snd [OF this, of "w2\<lparr>owns_attachment := True\<rparr>"]
      have "owns_attachment (snd (?rest (w2\<lparr>owns_attachment := True\<rparr>)))"
        by (simp add: attach_notes_def)
      then show ?thesis
        using \<open>reader_baseline E w = (Ret u, w1)\<close> Ret by (simp add: attach_def act_simps)
    next
      case (Exn e w2)
      then show ?thesis
        using \<open>reader_baseline E w = (Ret u, w1)\<close> base leavesD [OF noted_attach_device Exn]
        by (simp add: attach_def act_simps attach_notes_def)
    next
      case (Blocked w2)
      then show ?thesis
        using \<open>reader_baseline E w = (Ret u, w1)\<close> base leavesD [OF noted_attach_device Blocked]
        by (simp add: attach_def act_simps attach_notes_def)
    qed
  next
    case (Exn e w1)
    then show ?thesis using leavesD [OF owner_kept_baseline Exn] by (simp add: attach_def act_simps)
  next
    case (Blocked w1)
    then show ?thesis
      using leavesD [OF owner_kept_baseline Blocked] by (simp add: attach_def act_simps)
  qed
qed

text \<open>If PC/SC cannot be asked for the baseline, \<open>attach\<close> fails in the attach phase before any
  command is run: no device is attached, and nothing is owned that was not.\<close>

lemma attach_needs_baseline:
  assumes "fst (pcsc_readers E w) = Exn e"
  shows "fst (attach E before w)
      = Exn (PhaseError Attach (''Cannot establish PC/SC reader baseline: '' @ exn_str e) 1)
    \<and> trace (host (snd (attach E before w))) = trace (host w)
    \<and> owns_attachment (snd (attach E before w)) = owns_attachment w"
proof -
  obtain w1 where q: "pcsc_readers E w = (Exn e, w1)"
    using assms by (metis prod.collapse)
  then have "is_pcsc_error e" using pcsc_readers_outcome by fastforce
  then have run: "attach E before w =
      (Exn (PhaseError Attach (''Cannot establish PC/SC reader baseline: '' @ exn_str e) 1), w1)"
    using q by (simp add: attach_def reader_baseline_def act_simps)
  have "trace (host w1) = trace (host w)"
    using withinD [OF evolving.within_pcsc_readers q] by (rule host_evolves_silent)
  moreover have "owns_attachment w1 = owns_attachment w"
    using withinD [OF noted.within_pcsc_readers q] by (simp add: attach_notes_def)
  ultimately show ?thesis using run by simp
qed

end
