(* ===== verification/Catalog.thy ===== *)
theory Catalog
  imports Json
begin

section \<open>The firmware catalog: profile expansion and release mappings\<close>

text \<open>
  \<open>catalog.py\<close> reads \<open>firmwares.yaml\<close> and \<open>profiles.yaml\<close> (both JSON documents) and lists the
  firmware entries of a profile. The functions below take the loaded documents and follow the
  source statement by statement, with the exception Python raises on a document of the wrong
  shape. Dictionaries built by the code (\<open>by_id\<close>) are association lists.
\<close>

subsection \<open>Definitions\<close>

text \<open>\<open>{entry["id"]: entry for entry in entries}\<close>: a later entry replaces an earlier one.\<close>

definition entry_id :: "json \<Rightarrow> exn + json" where
  "entry_id entry = bindE (json_get entry ''id'') json_key"

definition index_entries :: "json list \<Rightarrow> exn + (json \<times> json) list" where
  "index_entries entries =
     bindE (mapE (\<lambda>e. bindE (entry_id e) (\<lambda>k. Inr (k, e))) entries)
       (\<lambda>kvs. Inr (dict_update [] kvs))"

text \<open>\<open>profile not in profiles\<close>.\<close>

definition profile_known :: "json \<Rightarrow> string \<Rightarrow> exn + bool" where
  "profile_known profiles name = (case profiles of
     JObj kvs \<Rightarrow> Inr (map_of kvs name \<noteq> None)
   | JList xs \<Rightarrow> Inr (JStr name \<in> set xs)
   | JStr s \<Rightarrow> Inr (contains name s)
   | _ \<Rightarrow> Inl TypeError)"

text \<open>The ids a requested name stands for.\<close>

definition expand_request :: "json list \<Rightarrow> json \<Rightarrow> json \<Rightarrow> exn + json list" where
  "expand_request entries aliases requested =
     (if requested = JStr ''all-supported-releases'' then
        bindE (mapE (\<lambda>e. json_get e ''id'') entries) (\<lambda>ids.
          Inr (filter (\<lambda>i. i \<noteq> JStr ''head'') ids))
      else (case aliases of
        JObj kvs \<Rightarrow> bindE (json_key requested) (\<lambda>r. Inr [case r of
            JStr name \<Rightarrow> (case map_of kvs name of Some v \<Rightarrow> v | None \<Rightarrow> r)
          | _ \<Rightarrow> r])
      | _ \<Rightarrow> Inl AttributeError))"

text \<open>
  The two nested loops: \<open>selected\<close> and \<open>seen\<close> grow together, and an id that the catalog does
  not hold stops the expansion.
\<close>

definition unknown_firmware :: "string \<Rightarrow> json \<Rightarrow> exn" where
  "unknown_firmware profile i = ValueError (''profile '' @ profile @
     '' references unknown firmware: '' @ (case i of JStr s \<Rightarrow> s | v \<Rightarrow> json_dumps False 0 v))"

fun select_ids :: "string \<Rightarrow> (json \<times> json) list \<Rightarrow> json list \<times> json list \<Rightarrow> json list
    \<Rightarrow> exn + json list \<times> json list" where
  "select_ids profile by_id (selected, seen) [] = Inr (selected, seen)"
| "select_ids profile by_id (selected, seen) (i # ids) =
     bindE (json_key i) (\<lambda>k. case map_of by_id k of
        None \<Rightarrow> Inl (unknown_firmware profile i)
      | Some entry \<Rightarrow>
          select_ids profile by_id
            (if k \<in> set seen then (selected, seen) else (selected @ [entry], seen @ [k])) ids)"

fun select_requests :: "string \<Rightarrow> json list \<Rightarrow> json \<Rightarrow> (json \<times> json) list
    \<Rightarrow> json list \<times> json list \<Rightarrow> json list \<Rightarrow> exn + json list \<times> json list" where
  "select_requests profile entries aliases by_id acc [] = Inr acc"
| "select_requests profile entries aliases by_id acc (r # rs) =
     bindE (expand_request entries aliases r) (\<lambda>ids.
     bindE (select_ids profile by_id acc ids) (\<lambda>acc'.
       select_requests profile entries aliases by_id acc' rs))"

definition profile_firmwares ::
  "string \<Rightarrow> json list \<Rightarrow> json \<Rightarrow> (json \<times> json) list \<Rightarrow> json \<Rightarrow> exn + json" where
  "profile_firmwares name entries aliases by_id profiles =
     bindE (profile_known profiles name) (\<lambda>known.
       if \<not> known then Inl (ValueError (''unknown profile: '' @ name))
       else
         bindE (json_get profiles name) (\<lambda>p.
         bindE (json_get p ''firmwares'') (\<lambda>wanted.
         bindE (json_iter wanted) (\<lambda>requests.
         bindE (select_requests name entries aliases by_id ([], []) requests) (\<lambda>acc.
           Inr (JList (fst acc)))))))"

definition list_firmwares :: "json \<Rightarrow> (exn + json) \<Rightarrow> string option \<Rightarrow> exn + json" where
  "list_firmwares catalog profiles_doc profile =
     bindE (json_get catalog ''firmwares'') (\<lambda>firmwares.
     bindE (json_iter firmwares) (\<lambda>entries.
     bindE (index_entries entries) (\<lambda>by_id.
     bindE (json_get catalog ''aliases'') (\<lambda>aliases.
       case profile of
         None \<Rightarrow> Inr firmwares
       | Some name \<Rightarrow>
           bindE profiles_doc (\<lambda>d. bindE (json_get d ''profiles'')
             (profile_firmwares name entries aliases by_id))))))"

definition list_release_mappings :: "json \<Rightarrow> exn + json" where
  "list_release_mappings catalog = json_get catalog ''release_mappings''"

text \<open>
  \<open>main\<close>: the listing is printed in one of the two layouts; a \<open>ValueError\<close> becomes a usage
  error, which exits with status 2.
\<close>

definition catalog_main ::
  "json \<Rightarrow> (exn + json) \<Rightarrow> string option \<Rightarrow> bool \<Rightarrow> bool \<Rightarrow> exn + string" where
  "catalog_main catalog profiles_doc profile release_map compact =
     (case (if release_map then list_release_mappings catalog
            else list_firmwares catalog profiles_doc profile) of
        Inl e \<Rightarrow> Inl (if is_value_error e then SystemExit 2 else e)
      | Inr entries \<Rightarrow> Inr (json_dumps compact 0 entries @ [newline]))"

end
