(* ===== verification/PlatformFacts.thy ===== *)
theory PlatformFacts
  imports Platform
begin

section \<open>Finding, awaiting and releasing the device\<close>

text \<open>
  The remaining properties of \<open>LinuxPlatform\<close>: which devices \<open>matching_usb_devices\<close> finds, which
  port \<open>find_usbip_port\<close> takes for ours, what \<open>wait_ready\<close> has established when it returns, what
  \<open>detach\<close> does on every branch, and the limits of the diagnostics.
\<close>

subsection \<open>Devices and ports\<close>

lemma device_of_vendor_file_Some:
  "device_of_vendor_file h vid pid f = Some d \<longleftrightarrow>
     (\<exists>v p. read_opt h f = Some v \<and> py_lower (py_strip v) = vid
          \<and> read_opt h (butlast f @ [''idProduct'']) = Some p \<and> py_lower (py_strip p) = pid
          \<and> d = realpath h (butlast f))"
  by (auto simp: device_of_vendor_file_def split: option.splits)

lemma glob2_iff:
  "f \<in> set (glob2 h root pat leaf) \<longleftrightarrow>
     (\<exists>name. f = root @ [name, leaf] \<and> pat name \<and> f \<in> set (map fst (nodes h)))"
proof
  assume "f \<in> set (glob2 h root pat leaf)"
  then have f: "length f = length root + 2" "take (length root) f = root" "pat (f ! length root)"
    "last f = leaf" "f \<in> set (map fst (nodes h))"
    by (auto simp: glob2_def)
  obtain a b where ab: "drop (length root) f = [a, b]"
    using f(1) by (auto simp: length_Suc_conv numeral_2_eq_2 dest!: arg_cong [where f = length]
        intro!: that [of "f ! length root" "f ! Suc (length root)"] nth_equalityI
        simp: nth_Cons split: nat.splits)
  then have "f = root @ [a, b]" using f(2) append_take_drop_id [of "length root" f] by simp
  with f show "\<exists>name. f = root @ [name, leaf] \<and> pat name \<and> f \<in> set (map fst (nodes h))"
    by (auto simp: nth_append)
qed (auto simp: glob2_def nth_append)

text \<open>\<open>matching_usb_devices\<close> finds exactly the devices of \<open>/sys/bus/usb/devices\<close> whose
  \<open>idVendor\<close> and \<open>idProduct\<close> files can be read and hold, up to white space and letter case, the
  expected identity; a device whose files cannot be read is skipped.\<close>

lemma usb_devices_iff:
  "d \<in> usb_devices h vid pid \<longleftrightarrow>
     path_exists h SYS_DEVICES \<and>
     (\<exists>name v p. SYS_DEVICES @ [name, ''idVendor''] \<in> fst ` set (nodes h)
        \<and> read_opt h (SYS_DEVICES @ [name, ''idVendor'']) = Some v \<and> py_lower (py_strip v) = vid
        \<and> read_opt h (SYS_DEVICES @ [name, ''idProduct'']) = Some p \<and> py_lower (py_strip p) = pid
        \<and> d = realpath h (SYS_DEVICES @ [name]))"
proof -
  have "(\<exists>f \<in> set (glob2 h SYS_DEVICES (\<lambda>_. True) ''idVendor'').
      device_of_vendor_file h vid pid f = Some d) \<longleftrightarrow>
    (\<exists>name. SYS_DEVICES @ [name, ''idVendor''] \<in> fst ` set (nodes h)
        \<and> device_of_vendor_file h vid pid (SYS_DEVICES @ [name, ''idVendor'']) = Some d)"
    unfolding Bex_def glob2_iff by (simp del: append.simps) blast
  then have "d \<in> usb_devices h vid pid \<longleftrightarrow> path_exists h SYS_DEVICES \<and>
    (\<exists>name. SYS_DEVICES @ [name, ''idVendor''] \<in> fst ` set (nodes h)
        \<and> device_of_vendor_file h vid pid (SYS_DEVICES @ [name, ''idVendor'']) = Some d)"
    by (auto simp: usb_devices_def map_filter_def image_iff)
  then show ?thesis
    unfolding device_of_vendor_file_Some by (simp add: butlast_append)
qed

lemma pick_port_filter:
  "pick_port vid pid bs =
     (case filter (\<lambda>b. block_is_ours vid pid b \<and> search_lines port_at True b \<noteq> None) bs of
        [] \<Rightarrow> None
      | b # _ \<Rightarrow> map_option canonical_port (search_lines port_at True b))"
  by (induction bs) (auto split: option.split)


text \<open>
  The output of \<open>usbip port\<close> on a host where another client has imported a foreign device to port
  0 from a remote whose bus id is 1-1, before ours came to port 1.
\<close>

definition two_ports :: string where
  "two_ports = ''Imported USB devices'' @ [newline] @ ''===================='' @ [newline]
     @ ''Port 00: <Port in Use> at High Speed(480Mbps)'' @ [newline]
     @ ''       Realtek : USB LAN (0bda:8153)'' @ [newline]
     @ ''       3-1 -> usbip://10.0.0.5:3240/1-1'' @ [newline]
     @ ''Port 01: <Port in Use> at Full Speed(12Mbps)'' @ [newline]
     @ ''       Clay Logic : CanoKey (20a0:42d4)'' @ [newline]
     @ ''       3-2 -> usbip://127.0.0.1:3240/1-1'' @ [newline]"


subsection \<open>Readiness\<close>

text \<open>A probe reads the device and the baseline and writes neither.\<close>

definition probe_inputs :: "'z plat_state_scheme \<Rightarrow> path option \<times> string set \<times> path \<times> int \<times> string
    \<times> string \<times> string list \<times> 'z" where
  "probe_inputs w = (device_path w, pcsc_readers_before w, plat_config w)"

interpretation probing: platform_reader
  "\<lambda>w w'. evolves_le (\<lambda>_. False) w w' \<and> probe_inputs w' = probe_inputs w" "\<lambda>_. False"
  by unfold_locales (auto simp: probe_inputs_def plat_config_def intro: host_evolves_trans)

lemma probing_round:
  "within (\<lambda>w w'. evolves_le (\<lambda>_. False) w w' \<and> probe_inputs w' = probe_inputs w) (ready_round E)"
  unfolding ready_round_def judge_probe_def
  by (intro probing.host_rules probing.within_pcsc_readers probing.within_modifyA)
    (simp_all add: probe_inputs_def plat_config_def)

lemma judge_probe_Some:
  assumes "judge_probe classes readers w = (Ret (Some st), w')"
  shows "st = probe_status (host w) (device_path w) classes (pcsc_readers_before w) readers
    \<and> (\<exists>flags. requirement_status st (readiness_requirements w) = Inr flags \<and> list_all snd flags)"
  using assms
  by (cases "requirement_status (probe_status (host w) (device_path w) classes
        (pcsc_readers_before w) readers) (readiness_requirements w)")
    (auto simp: judge_probe_def evaluate split: if_splits)

lemma ready_round_Some:
  assumes "ready_round E w = (Ret (Some st), w')"
  shows "\<exists>h readers flags. host_evolves (\<lambda>_. False) (host w) h
    \<and> st = probe_status h (device_path w) (interface_classes (host w) (device_path w))
             (pcsc_readers_before w) readers
    \<and> requirement_status st (readiness_requirements w) = Inr flags \<and> list_all snd flags"
proof -
  obtain readers w1 where q: "pcsc_readers E w = (Ret readers, w1)"
    and judge: "judge_probe (interface_classes (host w) (device_path w)) readers w1
      = (Ret (Some st), w')"
    using assms
    by (auto simp: ready_round_def onA_def catchA_def elim!: bindA_RetE
        split: outcome.splits prod.splits if_splits)
  have "evolves_le (\<lambda>_. False) w w1" "probe_inputs w1 = probe_inputs w"
    using withinD [OF probing.within_pcsc_readers q] by auto
  with judge_probe_Some [OF judge] show ?thesis
    by (auto simp: probe_inputs_def plat_config_def)
qed

lemma lookup_flags_all:
  assumes "lookup_flags f names = Inr flags" "list_all snd flags"
  shows "n \<in> set names \<Longrightarrow> f n = Some True"
proof -
  assume "n \<in> set names"
  then have "n \<in> set (dedup names)" by simp
  then obtain i where i: "i < length (dedup names)" "dedup names ! i = n"
    by (meson in_set_conv_nth)
  have "list_all2 (\<lambda>n y. (case f n of None \<Rightarrow> Inl (KeyError n) | Some b \<Rightarrow> Inr (n, b)) = Inr y)
      (dedup names) flags"
    using assms(1) by (simp add: lookup_flags_def mapE_Inr_conv)
  from list_all2_nthD [OF this i(1)] obtain b where "f n = Some b" "flags ! i = (n, b)"
    using i(2) by (auto split: option.splits)
  moreover have "i < length flags"
    using i(1) list_all2_lengthD [OF \<open>list_all2 _ _ flags\<close>] by simp
  ultimately show "f n = Some True"
    using assms(2) by (metis list_all_length snd_conv)
qed


text \<open>A host whose device offers all interfaces and a hidraw node; PC/SC is not installed.\<close>

definition ready_world :: "string list \<Rightarrow> plat_state" where
  "ready_world reqs = (init_platform (plain_host
     ([(SYS_DEVICES @ [''9-1''], Dir)]
      @ map (\<lambda>(i, c). (SYS_DEVICES @ [''9-1'', ''9-1:1.'' @ i, ''bInterfaceClass''],
            File (Text c))) [(''0'', ''0b''), (''1'', ''03''), (''2'', ''ff'')]
      @ [([''sys'', ''class'', ''hidraw'', ''hidraw0'', ''device''], Dir)]) []) [''out''] 5 reqs)
     \<lparr>device_path := Some (SYS_DEVICES @ [''9-1''])\<rparr>"

lemma class_text [simp]:
  "py_lower (py_strip ''0b'') = ''0b''" "py_lower (py_strip ''03'') = ''03''"
  "py_lower (py_strip ''ff'') = ''ff''"
  by code_simp+


text \<open>The requirement names the command line admits.\<close>

definition requirement_names :: "string list" where
  "requirement_names = [''usb'', ''ccid'', ''hid'', ''webusb'', ''pcsc'']"

lemma requirement_status_known:
  assumes "list_all (\<lambda>n. n \<in> set requirement_names) reqs"
  shows "\<exists>flags. requirement_status st reqs = Inr flags"
proof -
  have "\<exists>b. requirement_flag st n = Some b" if "n \<in> set reqs" for n
    using assms that
    by (auto simp: list_all_iff requirement_names_def requirement_flag_def)
  then have "lookup_flags (requirement_flag st) reqs
      = Inr (map (\<lambda>n. (n, the (requirement_flag st n))) (dedup reqs))"
    unfolding lookup_flags_def by (intro mapE_pure) (fastforce split: option.split)
  moreover have "lookup_flags (status_flag st) DEFAULT_READINESS_STATUS
      = Inr (map (\<lambda>n. (n, the (status_flag st n))) (dedup DEFAULT_READINESS_STATUS))"
    unfolding lookup_flags_def
    by (intro mapE_pure) (auto simp: DEFAULT_READINESS_STATUS_def status_flag_def)
  ultimately show ?thesis by (simp add: requirement_status_def)
qed

lemma judge_probe_ends:
  assumes "list_all (\<lambda>n. n \<in> set requirement_names) (readiness_requirements w)"
  shows "\<exists>r. fst (judge_probe classes readers w) = Ret r"
proof -
  obtain flags where "requirement_status (probe_status (host w) (device_path w) classes
      (pcsc_readers_before w) readers) (readiness_requirements w) = Inr flags"
    using requirement_status_known [OF assms] by blast
  then show ?thesis by (simp add: judge_probe_def evaluate)
qed

lemma ready_round_ends:
  assumes "list_all (\<lambda>n. n \<in> set requirement_names) (readiness_requirements w)"
    and "ready_round E w = (r, w')"
  shows "(\<exists>x. r = Ret x)
    \<or> (\<exists>e. fst (pcsc_readers E w) = Exn e \<and> r = Exn (PhaseError Readiness (exn_str e) 1))"
proof (cases rule: outcome_cases [of "pcsc_readers E" w])
  case (Ret readers w1)
  then have "probe_inputs w1 = probe_inputs w"
    using withinD [OF probing.within_pcsc_readers] by blast
  then have "list_all (\<lambda>n. n \<in> set requirement_names) (readiness_requirements w1)"
    using assms(1) by (simp add: probe_inputs_def plat_config_def)
  from judge_probe_ends [OF this, of "interface_classes (host w) (device_path w)" readers]
  show ?thesis
    using assms(2) Ret by (simp add: ready_round_def evaluate_bindA evaluate_catchA)
next
  case (Exn e w1)
  then have "is_pcsc_error e" using pcsc_readers_outcome by fastforce
  then show ?thesis using assms(2) Exn by (auto simp: ready_round_def act_simps)
next
  case (Blocked w1)
  then show ?thesis using pcsc_readers_outcome by fastforce
qed

lemma fst_pcsc_readers: "fst (pcsc_readers E w) = fst (pcsc_query E (host w))"
  by (simp add: pcsc_readers_def hostA_def split: prod.split)

text \<open>C17. With requirement names from the command line, \<open>wait_ready\<close> always ends: it returns, or it
  raises a readiness error. The error is the timeout report, and then the configured number of
  seconds has passed, or it has the message of a PC/SC query that failed during the wait.\<close>

theorem wait_ready_ends:
  assumes "list_all (\<lambda>n. n \<in> set requirement_names) (readiness_requirements w)"
  shows "(\<exists>st. fst (wait_ready E w) = Ret st)
    \<or> (\<exists>m. fst (wait_ready E w) = Exn (PhaseError Readiness m 1)
         \<and> (deadline_after (timeout w) (now (host w)) \<le> now (host (snd (wait_ready E w)))
            \<or> (\<exists>h e. host_evolves (\<lambda>_. False) (host w) h \<and> fst (pcsc_query E h) = Exn e
                  \<and> m = exn_str e)))"
proof -
  let ?w = "w\<lparr>ready_locals := None\<rparr>"
  let ?d = "deadline_after (timeout w) (now (host w))"
  obtain r w' where run: "poll_until E ?d 250 (ready_round E) ?w = (r, w')" by fastforce
  show ?thesis
  proof (cases "r = Ret None")
    case True
    then have "?d \<le> now (host w')" using ready_poll.poll_timeout run by blast
    then show ?thesis
      using run True by (simp add: wait_ready_def monotonic_def act_simps)
  next
    case False
    from ready_poll.poll_from_round [OF probing.host_client_axioms probing_round run False]
    obtain w0 where w0: "evolves_le (\<lambda>_. False) w w0" "probe_inputs w0 = probe_inputs ?w"
      and round: "ready_round E w0 = (r, w')" by auto
    then have "list_all (\<lambda>n. n \<in> set requirement_names) (readiness_requirements w0)"
      using assms by (simp add: probe_inputs_def plat_config_def)
    from ready_round_ends [OF this round] False run w0(1) show ?thesis
      by (auto simp: wait_ready_def monotonic_def act_simps fst_pcsc_readers split: option.splits)
        blast
  qed
qed

theorem wait_ready_ends_witness:
  "\<exists>m. fst (wait_ready (scripted (\<lambda>a h. (0, [], h)))
        ((ready_world [''pcsc''])\<lparr>timeout := 0\<rparr>)) = Exn (PhaseError Readiness m 1)"
proof -
  let ?w = "(ready_world [''pcsc''])\<lparr>timeout := 0\<rparr>"
  have "\<not> (\<exists>st. fst (wait_ready (scripted (\<lambda>a h. (0, [], h))) ?w) = Ret st)"
    by (simp add: wait_ready_def evaluate_bindA evaluate_thenA monotonic_def deadline_after_def
        ready_poll.poll_until_unfold)
  then show ?thesis
    using wait_ready_ends [of ?w "scripted (\<lambda>a h. (0, [], h))"]
    by (auto simp: ready_world_def init_platform_def requirement_names_def)
qed

text \<open>The hidraw probe compares the texts of the paths: a node that belongs to a device whose path
  text merely extends ours, as \<open>1-10\<close> extends \<open>1-1\<close>, makes the probe succeed although our device
  has no hidraw node.\<close>

lemma hidraw_prefix_confusion:
  "let ours = SYS_DEVICES @ [''1-1'']; other = SYS_DEVICES @ [''1-10'', ''hid''];
       h = (plain_host [([''sys'', ''class'', ''hidraw'', ''hidraw0'', ''device''], Dir)] [])
             \<lparr>links := [([''sys'', ''class'', ''hidraw'', ''hidraw0'', ''device''], other)]\<rparr>
   in hidraw_ready h (Some ours) \<and> \<not> prefix ours other"
  by code_simp

subsection \<open>Detaching and the host prerequisites\<close>

text \<open>C18. Every branch of \<open>detach\<close>: without an owned attachment or without \<open>usbip\<close> nothing happens;
  without a port it returns and the attachment stays owned; with a port exactly the privileged
  \<open>usbip detach\<close> of that port is run and, however the command ends, the attachment is forgotten.
  The exit status of the command is not looked at.\<close>

theorem detach_cases:
  "(\<not> owns_attachment w \<or> \<not> which (host w) ''usbip'' \<longrightarrow> detach E w = (Ret (), w))
   \<and> (\<forall>w1. owns_attachment w \<and> which (host w) ''usbip'' \<and> known_port E w = (Ret None, w1) \<longrightarrow>
        detach E w = (Ret (), w1) \<and> owns_attachment w1)
   \<and> (\<forall>p w1. owns_attachment w \<and> which (host w) ''usbip'' \<and> known_port E w = (Ret (Some p), w1) \<longrightarrow>
        (let run = run_command E (privileged (host w) (detach_command p)) None (Some 20) None False w1;
             out = detach E w in
         trace (host (snd out)) = trace (host w1) @ [EvRun (privileged (host w) (detach_command p))]
         \<and> \<not> owns_attachment (snd out) \<and> usb_port (snd out) = None \<and> device_path (snd out) = None
         \<and> (case fst run of Ret _ \<Rightarrow> fst out = Ret () | Exn e \<Rightarrow> fst out = Exn e | Blocked \<Rightarrow> False)))"
proof (intro conjI allI impI)
  show "detach E w = (Ret (), w)" if "\<not> owns_attachment w \<or> \<not> which (host w) ''usbip''"
    using that by (auto simp: detach_def)
next
  fix w1
  assume a: "owns_attachment w \<and> which (host w) ''usbip'' \<and> known_port E w = (Ret None, w1)"
  then show "detach E w = (Ret (), w1)" by (simp add: detach_def act_simps)
  have "leaves owns_attachment (known_port E)"
    unfolding known_port_def
    by (rule same.within_bindA)
      (auto split: option.split list.split intro: same.within_retA same.within_getsA
        intro!: owner_kept_find)
  then show "owns_attachment w1" using a by (auto dest: leavesD)
next
  fix p w1
  assume a: "owns_attachment w \<and> which (host w) ''usbip'' \<and> known_port E w = (Ret (Some p), w1)"
  have "evolves_le (\<lambda>_. True) w w1"
    using a plat_evolving.within_known_port [OF TrueI] by (blast dest: withinD)
  then have priv: "privileged (host w1) argv = privileged (host w) argv" for argv
    by (rule privileged_evolves)
  let ?argv = "privileged (host w) (detach_command p)"
  obtain r w2 where run: "run_command E ?argv None (Some 20) None False w1 = (r, w2)" by fastforce
  have "r \<noteq> Blocked"
    using ends_not_blocked [OF ends_run_command, of "\<lambda>_. True" "Some 20" False E ?argv None None w1]
      run by simp
  then show "let run = run_command E ?argv None (Some 20) None False w1; out = detach E w in
      trace (host (snd out)) = trace (host w1) @ [EvRun ?argv]
      \<and> \<not> owns_attachment (snd out) \<and> usb_port (snd out) = None \<and> device_path (snd out) = None
      \<and> (case fst run of Ret _ \<Rightarrow> fst out = Ret () | Exn e \<Rightarrow> fst out = Exn e | Blocked \<Rightarrow> False)"
    using a run priv run_command_logged [OF run]
    by (cases r) (simp_all add: detach_def act_simps finallyA_def forget_attachment_def)
qed

theorem detach_cases_witness:
  "let w = (usb_world [])\<lparr>owns_attachment := True, usb_port := Some ''3''\<rparr>;
       out = detach (scripted (\<lambda>argv h. (1, ''failed'', h))) w in
   fst out = Ret () \<and> \<not> owns_attachment (snd out)"
proof -
  let ?w = "(usb_world [])\<lparr>owns_attachment := True, usb_port := Some ''3''\<rparr>"
  let ?E = "scripted (\<lambda>argv h. (1, ''failed'', h))"
  have k: "known_port ?E ?w = (Ret (Some ''3''), ?w)"
    by (simp add: known_port_def usb_world_def init_platform_def)
  have o: "owns_attachment ?w \<and> which (host ?w) ''usbip''"
    by (simp add: usb_world_def init_platform_def plain_host_def which_def)
  have "\<exists>c. fst (run_command ?E (privileged (host ?w) (detach_command ''3'')) None (Some 20) None
      False ?w) = Ret c"
    by (simp add: evaluate)
  with detach_cases [of ?w ?E] k o show ?thesis by (auto simp: Let_def)
qed

text \<open>\<open>detach\<close> runs no command but \<open>usbip port\<close> and the privileged \<open>usbip detach\<close>, leaves the
  configuration alone, never blocks, and only fails with an \<open>OSError\<close> or a timeout.\<close>

lemma detach_footprint:
  "host_evolves (\<lambda>ev. ev = EvRun [''usbip'', ''port'']
        \<or> (\<exists>h p. ev = EvRun (privileged h (detach_command p)))) (host w) (host (snd (detach E w)))
   \<and> plat_config (snd (detach E w)) = plat_config w
   \<and> (case fst (detach E w) of
        Ret _ \<Rightarrow> True | Exn e \<Rightarrow> is_os_error e \<or> is_timeout e | Blocked \<Rightarrow> False)"
  using withinD_snd [OF plat_watch.within_detach [where P = "\<lambda>ev. ev = EvRun [''usbip'', ''port'']
        \<or> (\<exists>h p. ev = EvRun (privileged h (detach_command p)))"], of w E]
    ends_at [OF ends_detach, of E w]
  by blast

lemma require_host_Ret:
  "require_host w = (Ret u, w') \<Longrightarrow> w' = w \<and> is_linux (host w) \<and> which (host w) ''usbip''
     \<and> (is_root (host w) \<or> which (host w) ''sudo'')"
  by (auto simp: require_host_def missing_tools_def split: if_splits)

lemma prepare_host_Ret:
  assumes "fst (prepare_host E w) = Ret ()"
  shows "is_linux (host w) \<and> which (host w) ''usbip'' \<and> (is_root (host w) \<or> which (host w) ''sudo'')
      \<and> (\<exists>h. host_evolves (\<lambda>_. True) (host w) h \<and> vhci_available h \<and> usbfs_available h)"
proof -
  obtain w' where "prepare_host E w = (Ret (), w')" using assms by (metis prod.collapse)
  then obtain u v w1 w2 where r: "require_host w = (Ret u, w1)"
    and m: "bindA (askH (\<lambda>h. h)) (\<lambda>h. whenA (\<not> vhci_available h)
        (thenA (run_command E (privileged h [''modprobe'', ''vhci_hcd'']) None (Some 20) None True)
          (retA ()))) w1 = (Ret v, w2)"
    and c: "vhci_available (host w2) \<and> usbfs_available (host w2)"
    unfolding prepare_host_def
    by (auto elim!: thenA_RetE simp: whenA_def split: if_splits)
  have "within (evolves_le (\<lambda>_. True)) (bindA (askH (\<lambda>h. h)) (\<lambda>h. whenA (\<not> vhci_available h)
        (thenA (run_command E (privileged h [''modprobe'', ''vhci_hcd'']) None (Some 20) None True)
          (retA ()))))"
    by (intro evolving.host_rules) simp
  from withinD [OF this m] require_host_Ret [OF r] c show ?thesis by auto
qed


definition attach_ready_host :: host where
  "attach_ready_host = plain_host [([''sys'', ''devices'', ''platform'', ''vhci_hcd.0''], Dir),
     ([''dev'', ''bus'', ''usb''], Dir)] [''usbip'']"


end
