(* ===== verification/Core.thy ===== *)
theory Core
  imports PlatformFacts Catalog
begin

section \<open>Selecting the firmware core\<close>

text \<open>
  The first half of \<open>Harness\<close>: the options, the object's attributes, the host-wide lock, and
  \<open>resolve_core\<close> with its helpers, which fetch or copy a core source tree into the run
  workspace, apply the allow-listed patches, read the USB identity from its descriptor header
  and look up the firmware version of its commit. \<open>git\<close> is an external command.
\<close>

subsection \<open>Options and state\<close>

record options =
  repo_dir :: path
  caller_dir :: path
  core_ref :: "string option"
  core_dir :: "path option"
  test_command :: "string option"
  opt_storage :: "path option"
  opt_timeout :: int
  keep_on_failure :: bool
  opt_output_dir :: path
  build_only :: bool
  build_dir :: "path option"
  touch :: bool
  opt_requirements :: "string list"

record core_source =
  cs_path :: path
  cs_sha :: string
  cs_ref :: string
  cs_dirty :: bool
  cs_patches :: "string list"
  cs_usb_vid :: string
  cs_usb_pid :: string
  cs_firmware_version :: "string option"

text \<open>
  The attributes of \<open>Harness\<close>, and the locals of \<open>execute\<close> that its \<open>finally\<close> block reads.
  The attributes of its \<open>platform\<close> object are the fields of \<open>plat_state\<close>.
\<close>

record harness_state = plat_state +
  opts :: options
  temp_dir :: path
  run_id :: string
  workspace :: path
  run_output_dir :: path
  storage :: path
  explicit_storage :: bool
  core :: "core_source option"
  binary :: "path option"
  server :: "popen option"
  metadata :: "(string \<times> json) list"
  state_path :: path
  holds_lock :: bool
  debug :: bool
  result :: int
  cur_phase :: phase
  failure :: "string option"

definition init_harness :: "host \<Rightarrow> path \<Rightarrow> string \<Rightarrow> options \<Rightarrow> harness_state" where
  "init_harness h tmp rid o' =
     (let ws = tmp @ [''canokey-usbip'', rid]; out = realpath h (opt_output_dir o') in
      plat_state.extend (init_platform h out (opt_timeout o') (opt_requirements o'))
        (harness_state.fields o' tmp rid ws out
          (case opt_storage o' of Some p \<Rightarrow> realpath h p | None \<Rightarrow> ws @ [''device.lfs''])
          (opt_storage o' \<noteq> None) None None None [] (ws @ [''state.json'']) False
          (getenv h ''CANOKEY_USBIP_DEBUG'' = Some ''1'') 1 Setup None))"

subsection \<open>The host-wide lock\<close>

definition acquire_lock :: "('z harness_state_scheme, unit) act" where
  "acquire_lock =
     bindA (getsA temp_dir) (\<lambda>tmp.
     thenA (write_text (tmp @ [''canokey-usbip.lock'']) [])
    (bindA (askH lock_busy) (\<lambda>busy.
       if busy then raiseA (PhaseError Lock
         ''another canokey-usbip environment is active on this runner'' 1)
       else modifyA (\<lambda>w. w\<lparr>holds_lock := True\<rparr>))))"

subsection \<open>Compatibility patches\<close>

definition CORE_COMPAT_PATCHES :: "(string \<times> string list) list" where
  "CORE_COMPAT_PATCHES =
     [(''5f1e95f8341856d994abb4566995e2379cc0612d'', [''core-1.3-legacy-device-sim.patch'']),
      (''e558d5cc6169acca1508238f7b584b8e00f8786d'', [''core-3.1.0-fabrication.patch'']),
      (''cba7ea34c893eb6405620e9f2b562de0c441b1d6'', [''core-3.1.0-fabrication.patch'']),
      (''a349b268e12953dd85169e9649091c4f91ce7c68'', [''core-3.1.0-fabrication.patch''])]"

definition CORE_COMPAT_PATCH_SKIP_IF_PRESENT :: "(string \<times> path) list" where
  "CORE_COMPAT_PATCH_SKIP_IF_PRESENT =
     [(''core-1.3-legacy-device-sim.patch'', [''virt-card'', ''device-sim.c''])]"

definition patches_for :: "string \<Rightarrow> string list" where
  "patches_for sha = (case map_of CORE_COMPAT_PATCHES sha of None \<Rightarrow> [] | Some ps \<Rightarrow> ps)"

definition patch_present :: "host \<Rightarrow> path \<Rightarrow> string \<Rightarrow> bool" where
  "patch_present h destination name =
     (case map_of CORE_COMPAT_PATCH_SKIP_IF_PRESENT name of
        None \<Rightarrow> False | Some p \<Rightarrow> path_exists h (destination @ p))"

definition apply_patch ::
  "env \<Rightarrow> path \<Rightarrow> path \<Rightarrow> string \<Rightarrow> ('z harness_state_scheme, string option) act" where
  "apply_patch E patch_dir destination name =
     bindA (askH (\<lambda>h. patch_present h destination name)) (\<lambda>skip.
       if skip then retA None
       else thenA
         (catchA (thenA (run_command E [''git'', ''apply'', ''--whitespace=nowarn'',
              path_str (patch_dir @ [name])] (Some destination) None None True) (retA ()))
           (onA is_harness_error (\<lambda>_. raiseA (PhaseError ResolveCore
              (''failed to apply canokey-core compatibility patch '' @ name) 1))))
         (retA (Some name)))"

definition apply_core_compatibility ::
  "env \<Rightarrow> path \<Rightarrow> string \<Rightarrow> ('z harness_state_scheme, string list) act" where
  "apply_core_compatibility E destination sha =
     bindA (getsA (\<lambda>w. repo_dir (opts w) @ [''compat'', ''patches''])) (\<lambda>patch_dir.
     bindA (mapA (apply_patch E patch_dir destination) (patches_for sha)) (\<lambda>applied.
       retA (List.map_filter (\<lambda>x. x) applied)))"

subsection \<open>The release map\<close>

definition catalog_path :: "options \<Rightarrow> path" where
  "catalog_path o' = repo_dir o' @ [''compat'', ''config'', ''firmwares.yaml'']"

text \<open>
  The first mapping whose key has the wanted value; the identifiers and commits of the catalog
  are strings.
\<close>

fun first_mapping :: "string \<Rightarrow> string \<Rightarrow> string \<Rightarrow> json list \<Rightarrow> exn + string option" where
  "first_mapping key field wanted [] = Inr None"
| "first_mapping key field wanted (m # ms) =
     bindE (json_get m key) (\<lambda>v.
       if v = JStr wanted then bindE (json_get m field) (\<lambda>x. case x of
           JStr s \<Rightarrow> Inr (Some s) | _ \<Rightarrow> Inl TypeError)
       else first_mapping key field wanted ms)"

definition release_lookup :: "string \<Rightarrow> string \<Rightarrow> string \<Rightarrow> json \<Rightarrow> exn + string option" where
  "release_lookup key field wanted catalog =
     bindE (json_get catalog ''release_mappings'') (\<lambda>ms.
     bindE (json_iter ms) (first_mapping key field wanted))"

definition firmware_version_for_sha :: "string \<Rightarrow> ('z harness_state_scheme, string option) act" where
  "firmware_version_for_sha sha =
     bindA (getsA (\<lambda>w. catalog_path (opts w))) (\<lambda>p.
     bindA (read_json p) (\<lambda>catalog.
       liftE (release_lookup ''core_commit'' ''id'' sha catalog)))"

definition fetch_ref_for :: "string \<Rightarrow> ('z harness_state_scheme, string) act" where
  "fetch_ref_for ref =
     bindA (getsA (\<lambda>w. catalog_path (opts w))) (\<lambda>p.
     bindA (read_json p) (\<lambda>catalog.
     bindA (liftE (release_lookup ''id'' ''core_commit'' ref catalog)) (\<lambda>found.
       retA (case found of Some c \<Rightarrow> c | None \<Rightarrow> ref))))"

subsection \<open>The USB identity of the core\<close>

definition RUST_MARKER :: path where
  "RUST_MARKER = [''crates'', ''ffi'', ''Cargo.toml'']"

definition DESCRIPTOR :: path where
  "DESCRIPTOR = [''interfaces'', ''USB'', ''device'', ''usbd_desc.h'']"

text \<open>One of the two macros: its value with four hexadecimal digits.\<close>

definition macro_value :: "path \<Rightarrow> string \<Rightarrow> string \<Rightarrow> exn + string" where
  "macro_value descriptor content name =
     (case search_define name content of
        None \<Rightarrow> Inl (PhaseError ResolveCore
          (''cannot resolve '' @ name @ '' from '' @ path_str descriptor) 1)
      | Some token \<Rightarrow> (case int_base0 token of
          None \<Rightarrow> Inl (ValueError (''invalid literal for int() with base 0: '' @ py_repr token))
        | Some n \<Rightarrow> Inr (hex4 n)))"

definition descriptor_identity :: "path \<Rightarrow> string \<Rightarrow> exn + string \<times> string" where
  "descriptor_identity descriptor content =
     bindE (macro_value descriptor content ''USBD_VID'') (\<lambda>vid.
     bindE (macro_value descriptor content ''USBD_PID'') (\<lambda>pid. Inr (vid, pid)))"

definition core_usb_identity :: "path \<Rightarrow> ('z world0_scheme, string \<times> string) act" where
  "core_usb_identity destination =
     bindA (askH (\<lambda>h. is_file h (destination @ RUST_MARKER))) (\<lambda>rust.
       if rust then retA (DEFAULT_VID, DEFAULT_PID)
       else let descriptor = destination @ DESCRIPTOR in
         bindA (catchA (read_text descriptor)
           (onA is_os_error (\<lambda>_. raiseA (PhaseError ResolveCore
              (''cannot read USB descriptor identity: '' @ path_str descriptor) 1))))
         (\<lambda>content. liftE (descriptor_identity descriptor content)))"

subsection \<open>\<open>resolve_core\<close>\<close>

definition CORE_URL :: string where
  "CORE_URL = ''https://github.com/canokeys/canokey-core.git''"

definition git_run :: "env \<Rightarrow> string list \<Rightarrow> ('z world0_scheme, unit) act" where
  "git_run E argv = thenA (run_command E argv None None None True) (retA ())"

text \<open>\<open>if self.options.core_ref\<close>: an empty reference counts as absent.\<close>

definition requested_ref :: "options \<Rightarrow> string option" where
  "requested_ref o' = (case core_ref o' of Some (c # cs) \<Rightarrow> Some (c # cs) | _ \<Rightarrow> None)"

definition finish_core ::
  "env \<Rightarrow> path \<Rightarrow> string \<Rightarrow> string \<Rightarrow> bool \<Rightarrow> ('z harness_state_scheme, core_source) act" where
  "finish_core E destination sha ref dirty =
     bindA (apply_core_compatibility E destination sha) (\<lambda>patches.
     bindA (core_usb_identity destination) (\<lambda>(vid, pid).
     bindA (firmware_version_for_sha sha) (\<lambda>version.
       retA \<lparr>cs_path = destination, cs_sha = sha, cs_ref = ref, cs_dirty = dirty,
         cs_patches = patches, cs_usb_vid = vid, cs_usb_pid = pid,
         cs_firmware_version = version\<rparr>)))"

definition fetch_core :: "env \<Rightarrow> path \<Rightarrow> string \<Rightarrow> ('z harness_state_scheme, core_source) act" where
  "fetch_core E destination ref =
     bindA (fetch_ref_for ref) (\<lambda>fetch_ref.
     let d = path_str destination in
     thenA (mkdir_parents False destination)
    (thenA (git_run E [''git'', ''init'', ''--quiet'', d])
    (thenA (git_run E [''git'', ''-C'', d, ''remote'', ''add'', ''origin'', CORE_URL])
    (thenA (catchA (git_run E [''git'', ''-C'', d, ''fetch'', ''--quiet'', ''--depth'', ''1'',
              ''origin'', fetch_ref])
        (onA is_harness_error (\<lambda>_. raiseA (PhaseError ResolveCore
           (''invalid or unreachable canokey-core ref: '' @ ref) 1))))
    (thenA (git_run E [''git'', ''-C'', d, ''checkout'', ''--quiet'', ''--detach'', ''FETCH_HEAD''])
    (thenA (git_run E [''git'', ''-C'', d, ''submodule'', ''update'', ''--init'', ''--recursive'',
              ''--depth'', ''1''])
    (bindA (git_value E destination [''rev-parse'', ''HEAD''] ''unknown'') (\<lambda>sha.
       finish_core E destination sha ref False))))))))"

definition crypto_dir :: "host \<Rightarrow> path \<Rightarrow> path" where
  "crypto_dir h destination =
     (if is_file h (destination @ RUST_MARKER)
      then destination @ [''third_party'', ''canokey-crypto''] else destination @ [''canokey-crypto''])"

definition snapshot_core :: "env \<Rightarrow> path \<Rightarrow> path \<Rightarrow> string \<Rightarrow> ('z harness_state_scheme, core_source) act"
  where
  "snapshot_core E destination source ref =
     thenA (bindA (askH (\<lambda>h. path_exists h (source @ [''CMakeLists.txt'']))) (\<lambda>ok.
       whenA (\<not> ok) (raiseA (PhaseError ResolveCore
         (''not a canokey-core source tree: '' @ path_str source) 1))))
    (bindA (git_value E source [''rev-parse'', ''HEAD''] ''unknown'') (\<lambda>sha.
     bindA (git_value E source [''status'', ''--porcelain''] []) (\<lambda>status.
     thenA (catchA (copy_core_tree source destination)
       (onA is_os_error (\<lambda>exc. raiseA (PhaseError ResolveCore
          (''failed to snapshot canokey-core: '' @ exn_str exc) 1))))
    (thenA (bindA (askH (\<lambda>h. path_exists h (crypto_dir h destination @ [''CMakeLists.txt'']))) (\<lambda>ok.
       whenA (\<not> ok) (raiseA (PhaseError ResolveCore
         ''canokey-core submodules are missing; run git submodule update --init --recursive'' 1))))
       (finish_core E destination sha ref (status \<noteq> []))))))"

definition resolve_core :: "env \<Rightarrow> ('z harness_state_scheme, core_source) act" where
  "resolve_core E =
     bindA (getsA (\<lambda>w. (workspace w @ [''core''], opts w))) (\<lambda>(destination, o').
       case requested_ref o' of
         Some ref \<Rightarrow> fetch_core E destination ref
       | None \<Rightarrow> snapshot_core E destination
           (case core_dir o' of Some d \<Rightarrow> d | None \<Rightarrow> repo_dir o' @ [''canokey-core''])
           (if core_dir o' \<noteq> None then ''external'' else ''submodule''))"

lemmas evaluate_core [evaluate] =
  acquire_lock_def [THEN fun_cong] apply_patch_def [THEN fun_cong]
  apply_core_compatibility_def [THEN fun_cong] firmware_version_for_sha_def [THEN fun_cong]
  fetch_ref_for_def [THEN fun_cong] core_usb_identity_def [THEN fun_cong]
  git_run_def [THEN fun_cong] finish_core_def [THEN fun_cong] fetch_core_def [THEN fun_cong]
  snapshot_core_def [THEN fun_cong] resolve_core_def [THEN fun_cong]

end
