(* ===== verification/Harness.thy ===== *)
theory Harness
  imports Core
begin

section \<open>Building, starting, testing and stopping the virtual device\<close>

text \<open>
  The second half of \<open>Harness\<close>: \<open>build\<close>, \<open>start_server\<close>, \<open>write_state\<close>, \<open>run_test\<close>, the
  metadata of a run, \<open>stop_server\<close>, and \<open>execute\<close>, which strings the phases together and owns
  the cleanup. Every method is an action on \<open>harness_state\<close>.
\<close>

subsection \<open>Build\<close>

definition build_directory :: "host \<Rightarrow> options \<Rightarrow> path \<Rightarrow> path" where
  "build_directory h o' ws = (case build_dir o' of
     Some d \<Rightarrow> realpath h d
   | None \<Rightarrow> if build_only o' then caller_dir o' @ [''build'', ''compat''] else ws @ [''build''])"

definition cmake_configure :: "options \<Rightarrow> core_source \<Rightarrow> string \<Rightarrow> path \<Rightarrow> string list" where
  "cmake_configure o' c version d =
     [''cmake'', ''-S'', path_str (repo_dir o'), ''-B'', path_str d,
      ''-DCANOKEY_CORE_DIR='' @ path_str (cs_path c),
      ''-DCANOKEY_CORE_SHA='' @ cs_sha c,
      ''-DCANOKEY_FIRMWARE_VERSION='' @ version,
      ''-DCMAKE_BUILD_TYPE=RelWithDebInfo'',
      ''-DCMAKE_POLICY_VERSION_MINIMUM=3.5'']"

definition cmake_build :: "path \<Rightarrow> string list" where
  "cmake_build d = [''cmake'', ''--build'', path_str d, ''--target'', ''canokey-usbip'', ''--parallel'']"

definition run_cmake :: "env \<Rightarrow> options \<Rightarrow> core_source \<Rightarrow> string \<Rightarrow> path \<Rightarrow> path
    \<Rightarrow> ('z world0_scheme, unit) act" where
  "run_cmake E o' c version d log =
     catchA
       (thenA (run_command E (cmake_configure o' c version d) None None (Some log) True)
       (thenA (run_command E (cmake_build d) None None (Some log) True) (retA ())))
       (onA is_harness_error (\<lambda>_. raiseA (PhaseError phase.Build
          ''canokey-usbip build failed; see build.log'' 1)))"

definition built_binary :: "path \<Rightarrow> ('z world0_scheme, path) act" where
  "built_binary b =
     bindA (askH (\<lambda>h. is_file h b)) (\<lambda>ok.
       if ok then retA b
       else raiseA (PhaseError phase.Build (''build succeeded but binary is missing: '' @ path_str b) 1))"

definition build_with :: "env \<Rightarrow> core_source \<Rightarrow> string \<Rightarrow> ('z harness_state_scheme, path) act" where
  "build_with E c version =
     bindA (getsA (\<lambda>w. (build_directory (host w) (opts w) (workspace w), opts w, run_output_dir w)))
     (\<lambda>(d, o', out).
     thenA (mkdir_parents True d)
    (thenA (write_text (out @ [''build.log'']) [])
    (thenA (run_cmake E o' c version d (out @ [''build.log'']))
       (built_binary (d @ [''canokey-usbip''])))))"

definition build :: "env \<Rightarrow> ('z harness_state_scheme, path) act" where
  "build E =
     bindA (getsA core) (\<lambda>c. case c of
       None \<Rightarrow> raiseA AssertionError
     | Some c \<Rightarrow> (case cs_firmware_version c of
         Some (v # vs) \<Rightarrow> build_with E c (v # vs)
       | _ \<Rightarrow> raiseA (PhaseError ResolveCore
           (''core '' @ cs_sha c @ '' has no firmware version mapping'') 1)))"

subsection \<open>The state file\<close>

definition state_json :: "harness_state \<Rightarrow> json \<Rightarrow> string option \<Rightarrow> json" where
  "state_json w pid port = JObj
     [(''pid'', pid),
      (''usb_port'', json_opt_str port),
      (''binary'', json_opt_str (map_option path_str (binary w))),
      (''storage'', JStr (path_str (storage w))),
      (''output_dir'', JStr (path_str (run_output_dir w))),
      (''timeout'', JInt (opt_timeout (opts w))),
      (''touch'', JBool (touch (opts w))),
      (''readiness_requirements'', json_strs (opt_requirements (opts w))),
      (''usb_vid'', JStr (case core w of Some c \<Rightarrow> cs_usb_vid c | None \<Rightarrow> DEFAULT_VID)),
      (''usb_pid'', JStr (case core w of Some c \<Rightarrow> cs_usb_pid c | None \<Rightarrow> DEFAULT_PID))]"

definition write_state :: "int \<Rightarrow> string option \<Rightarrow> (harness_state, unit) act" where
  "write_state pid port =
     bindA (getsA (\<lambda>w. (state_path w, state_json w (JInt pid) port))) (\<lambda>(p, j). write_json p j)"

subsection \<open>Starting the server\<close>

definition list_command :: "string list" where
  "list_command = [''usbip'', ''--tcp-port'', show_nat USBIP_PORT, ''list'', ''--remote'', ''127.0.0.1'']"

definition server_command :: "path \<Rightarrow> path \<Rightarrow> bool \<Rightarrow> string list" where
  "server_command b st t =
     [path_str b, path_str st, show_nat USBIP_PORT] @ (if t then [''touch''] else [])"

text \<open>The exported bus id shows up in the listing.\<close>

definition bus_listed :: "completed \<Rightarrow> bool" where
  "bus_listed r \<longleftrightarrow> cp_rc r = 0 \<and> contains BUS_ID (case cp_out r of Some s \<Rightarrow> s | None \<Rightarrow> [])"

definition poll_server :: "(harness_state, int option) act" where
  "poll_server = bindA (getsA server) (\<lambda>s. case s of
     None \<Rightarrow> raiseA AttributeError
   | Some p \<Rightarrow> bindA (popen_poll p) (\<lambda>(rc, p').
       thenA (modifyA (\<lambda>w. w\<lparr>server := Some p'\<rparr>)) (retA rc)))"

definition start_round :: "env \<Rightarrow> (harness_state, unit option) act" where
  "start_round E =
     bindA poll_server (\<lambda>rc. case rc of
       Some code \<Rightarrow> raiseA (PhaseError Start
         (''canokey-usbip exited during startup ('' @ show_int code @ ''); see usbip.log'') 1)
     | None \<Rightarrow> catchA
         (bindA (run_command E list_command None (Some 3) None False) (\<lambda>r.
            retA (if bus_listed r then Some () else None)))
         (onA (\<lambda>e. is_os_error e \<or> is_timeout e) (\<lambda>_. retA None)))"

text \<open>The started child is recorded, in the attribute and in the state file, and then polled.\<close>

definition await_server :: "env \<Rightarrow> int \<Rightarrow> popen \<Rightarrow> (harness_state, unit) act" where
  "await_server E secs p =
     thenA (modifyA (\<lambda>w. w\<lparr>server := Some p\<rparr>))
    (thenA (write_state (p_pid p) None)
    (bindA monotonic (\<lambda>t.
     bindA (poll_until E (deadline_after (min secs 15) t) 250 (start_round E)) (\<lambda>r. case r of
        Some _ \<Rightarrow> retA ()
      | None \<Rightarrow> raiseA (PhaseError Start
          ''canokey-usbip did not expose busid 1-1 before startup timeout'' 1)))))"

definition start_server :: "env \<Rightarrow> (harness_state, unit) act" where
  "start_server E =
     bindA (getsA binary) (\<lambda>b. case b of
       None \<Rightarrow> raiseA AssertionError
     | Some b \<Rightarrow>
         bindA (getsA (\<lambda>w. w)) (\<lambda>w0.
         thenA (mkdir_parents True (butlast (storage w0)))
        (thenA (open_append (run_output_dir w0 @ [''usbip.log'']))
        (bindA (askH environ) (\<lambda>inherited.
         bindA (popenA E (server_command b (storage w0) (touch (opts w0))) inherited)
           (await_server E (opt_timeout (opts w0))))))))"

subsection \<open>Running the caller's command\<close>

definition test_variables :: "harness_state \<Rightarrow> core_source \<Rightarrow> string \<Rightarrow> (string \<times> string) list" where
  "test_variables w c usbip_sha =
     [(''CANOKEY_USBIP'', ''1''),
      (''CANOKEY_CORE_REF'', cs_ref c),
      (''CANOKEY_CORE_SHA'', cs_sha c),
      (''CANOKEY_FIRMWARE_VERSION'', case cs_firmware_version c of Some v \<Rightarrow> v | None \<Rightarrow> []),
      (''CANOKEY_USBIP_SHA'', usbip_sha),
      (''CANOKEY_STORAGE'', path_str (storage w)),
      (''CANOKEY_TEST_OUTPUT'', path_str (run_output_dir w)),
      (''CANOKEY_USBIP_STATE'', path_str (state_path w)),
      (''CANOKEY_USB_VID'', cs_usb_vid c),
      (''CANOKEY_USB_PID'', cs_usb_pid c),
      (''CANOKEY_DEVICE_RESTART'',
         path_str (repo_dir (opts w) @ [''compat'', ''scripts'', ''restart-device.sh''])),
      (''CANOKEY_DEVICE_TOUCH'',
         path_str (repo_dir (opts w) @ [''compat'', ''scripts'', ''touch-device.sh'']))]"

definition device_variables :: "path option \<Rightarrow> (harness_state, (string \<times> string) list) act" where
  "device_variables dp = (case dp of
     None \<Rightarrow> retA []
   | Some d \<Rightarrow>
       bindA (read_text (d @ [''busnum''])) (\<lambda>bus.
       bindA (read_text (d @ [''devnum''])) (\<lambda>dev.
         retA [(''CANOKEY_USB_BUS'', py_strip bus), (''CANOKEY_USB_DEVICE'', py_strip dev)])))"

definition reader_variables :: "ready_status \<Rightarrow> (string \<times> string) list" where
  "reader_variables ready = (case rs_pcsc_readers ready of
     [] \<Rightarrow> [] | r # _ \<Rightarrow> [(''CANOKEY_PCSC_READER'', r)])"

text \<open>
  Waiting for the command: past the timeout its process group gets \<open>SIGTERM\<close>, and \<open>SIGKILL\<close>
  if it is still there five seconds later; the result is then 124.
\<close>

definition wait_test :: "env \<Rightarrow> int \<Rightarrow> popen \<Rightarrow> ('z world0_scheme, int) act" where
  "wait_test E secs p =
     catchA (bindA (popen_wait E (Some (nat secs)) p) (\<lambda>(rc, _). retA rc))
       (onA is_timeout (\<lambda>_.
          thenA (killpg E (p_pid p) SIGTERM)
         (thenA (catchA (thenA (popen_wait E (Some 5) p) (retA ()))
            (onA is_timeout (\<lambda>_.
               thenA (killpg E (p_pid p) SIGKILL)
              (thenA (popen_wait E None p) (retA ())))))
            (retA 124))))"

definition metadata_text :: "(string \<times> json) list \<Rightarrow> string \<Rightarrow> exn + string" where
  "metadata_text md key = (case map_of md key of
     None \<Rightarrow> Inl (KeyError key) | Some (JStr s) \<Rightarrow> Inr s | Some _ \<Rightarrow> Inl TypeError)"

definition run_test_with ::
  "env \<Rightarrow> core_source \<Rightarrow> string \<Rightarrow> ready_status \<Rightarrow> (harness_state, int) act" where
  "run_test_with E c command ready =
     bindA (getsA (\<lambda>w. w)) (\<lambda>w0.
     bindA (liftE (metadata_text (metadata w0) ''canokey_usbip_sha'')) (\<lambda>sha.
     bindA (device_variables (device_path w0)) (\<lambda>dev.
     let environment = dict_update (environ (host w0))
           (test_variables w0 c sha @ dev @ reader_variables ready) in
     thenA (write_text (run_output_dir w0 @ [''test.stdout'']) [])
    (thenA (write_text (run_output_dir w0 @ [''test.stderr'']) [])
    (bindA (popenA E [''bash'', ''-lc'', command] environment) (\<lambda>p.
       wait_test E (opt_timeout (opts w0)) p))))))"

definition run_test :: "env \<Rightarrow> ready_status \<Rightarrow> (harness_state, int) act" where
  "run_test E ready =
     bindA (getsA (\<lambda>w. (core w, test_command (opts w)))) (\<lambda>(c, command).
       case (c, command) of
         (Some c, Some (x # xs)) \<Rightarrow> run_test_with E c (x # xs) ready
       | _ \<Rightarrow> raiseA AssertionError)"

subsection \<open>Metadata\<close>

definition requested_label :: "options \<Rightarrow> string" where
  "requested_label o' = (case requested_ref o' of
     Some r \<Rightarrow> r | None \<Rightarrow> if core_dir o' \<noteq> None then ''external'' else ''submodule'')"

definition base_entries :: "harness_state \<Rightarrow> string \<Rightarrow> bool \<Rightarrow> string \<Rightarrow> string \<Rightarrow> string \<Rightarrow> string
    \<Rightarrow> string \<Rightarrow> (string \<times> json) list" where
  "base_entries w0 sha dirty kernel' usbip_version cmake_version compiler started =
     [(''run_id'', JStr (run_id w0)),
      (''canokey_usbip_sha'', JStr sha),
      (''canokey_usbip_dirty'', JBool dirty),
      (''canokey_core_sha'', JStr ''unknown''),
      (''canokey_firmware_version'', JNull),
      (''canokey_core_ref'', JStr (requested_label (opts w0))),
      (''canokey_core_dirty'', JNull),
      (''canokey_core_compat_patches'', JList []),
      (''usb_vid'', JStr DEFAULT_VID),
      (''usb_pid'', JStr DEFAULT_PID),
      (''kernel'', JStr kernel'),
      (''usbip_version'', JStr usbip_version),
      (''cmake_version'', JStr cmake_version),
      (''compiler'', JStr compiler),
      (''storage'', JStr (path_str (storage w0))),
      (''storage_is_explicit'', JBool (explicit_storage w0)),
      (''test_command'', json_opt_str (test_command (opts w0))),
      (''readiness_requirements'', json_strs (opt_requirements (opts w0))),
      (''caller_workspace'', JStr (path_str (caller_dir (opts w0)))),
      (''run_workspace'', JStr (path_str (workspace w0))),
      (''started_at'', JStr started),
      (''capabilities'', json_strs [''ccid'', ''hid'', ''webusb'', ''touch-simulation'',
         ''persistent-storage''])]"

definition base_metadata :: "env \<Rightarrow> (harness_state, (string \<times> json) list) act" where
  "base_metadata E =
     bindA (getsA (\<lambda>w. w)) (\<lambda>w0.
     bindA (git_value E (repo_dir (opts w0)) [''rev-parse'', ''HEAD''] ''unknown'') (\<lambda>sha.
     bindA (git_value E (repo_dir (opts w0)) [''status'', ''--porcelain''] []) (\<lambda>status.
     bindA (askH (platform_text E)) (\<lambda>kernel'.
     bindA (tool_version E [''usbip'', ''version'']) (\<lambda>usbip_version.
     bindA (tool_version E [''cmake'', ''--version'']) (\<lambda>cmake_version.
     bindA (askH (\<lambda>h. case getenv h ''CC'' of Some cc \<Rightarrow> cc | None \<Rightarrow> ''cc'')) (\<lambda>cc.
     bindA (tool_version E [cc, ''--version'']) (\<lambda>compiler.
     bindA (askH (wall_clock E)) (\<lambda>started.
       retA (base_entries w0 sha (status \<noteq> []) kernel' usbip_version cmake_version compiler
               started))))))))))"

definition initial_metadata :: "env \<Rightarrow> (harness_state, (string \<times> json) list) act" where
  "initial_metadata E =
     bindA (getsA core) (\<lambda>c. case c of
       None \<Rightarrow> raiseA AssertionError
     | Some c \<Rightarrow> bindA (base_metadata E) (\<lambda>md.
         retA (dict_update md
           [(''canokey_core_sha'', JStr (cs_sha c)),
            (''canokey_firmware_version'', json_opt_str (cs_firmware_version c)),
            (''canokey_core_ref'', JStr (cs_ref c)),
            (''canokey_core_dirty'', JBool (cs_dirty c)),
            (''canokey_core_compat_patches'', json_strs (cs_patches c)),
            (''usb_vid'', JStr (cs_usb_vid c)),
            (''usb_pid'', JStr (cs_usb_pid c))])))"

lemma base_entries_nonempty: "base_entries w sha d k u c g t \<noteq> []"
  unfolding base_entries_def by (rule list.distinct(2))

lemma base_metadata_nonempty: "yields (\<lambda>md. md \<noteq> []) (base_metadata E)"
  unfolding base_metadata_def by (intro yields_bindA yields_retA base_entries_nonempty)

lemma dict_update_nonempty: "d \<noteq> [] \<Longrightarrow> dict_update d kvs \<noteq> []"
  unfolding dict_update_def by (cases kvs rule: rev_cases) (simp_all add: split_def)

lemma initial_metadata_nonempty: "yields (\<lambda>md. md \<noteq> []) (initial_metadata E)"
  unfolding initial_metadata_def
  by (intro yields_bindA yields_case_option yields_raiseA
      yields_bindA_value [OF base_metadata_nonempty] yields_retA dict_update_nonempty)

definition metadata_path :: "harness_state \<Rightarrow> path" where
  "metadata_path w = run_output_dir w @ [''metadata.json'']"

definition save_metadata :: "(harness_state, unit) act" where
  "save_metadata =
     bindA (getsA (\<lambda>w. w)) (\<lambda>w0.
     thenA (mkdir_parents True (run_output_dir w0))
       (write_json (metadata_path w0) (json_sort (JObj (metadata w0)))))"

subsection \<open>Stopping the server\<close>

definition recorded_pid :: "(harness_state, int option) act" where
  "recorded_pid =
     bindA (getsA (\<lambda>w. (state_path w, path_exists (host w) (state_path w)))) (\<lambda>(p, there).
       if \<not> there then retA None
       else catchA
         (bindA (read_json p) (\<lambda>j.
          bindA (liftE (json_get_or j ''pid'' JNull)) (\<lambda>v.
          bindA (liftE (json_int v)) (\<lambda>i. retA (Some i)))))
         (onA (\<lambda>e. is_value_error e \<or> e = TypeError) (\<lambda>_. retA None)))"

definition ignore_errors :: "os_kind list \<Rightarrow> ('s, unit) act \<Rightarrow> ('s, unit) act" where
  "ignore_errors ks m = catchA m (onA (is_os_kind ks) (\<lambda>_. retA ()))"

definition wait_server :: "env \<Rightarrow> nat option \<Rightarrow> (harness_state, unit) act" where
  "wait_server E t = bindA (getsA server) (\<lambda>s. case s of
     None \<Rightarrow> raiseA AttributeError
   | Some p \<Rightarrow> bindA (popen_wait E t p) (\<lambda>(_, p'). modifyA (\<lambda>w. w\<lparr>server := Some p'\<rparr>)))"

text \<open>One look at a process: the loop ends when the process id is gone.\<close>

definition gone_round :: "env \<Rightarrow> int \<Rightarrow> ('z world0_scheme, unit option) act" where
  "gone_round E pid =
     catchA (thenA (kill_one E pid 0) (retA None))
       (onA (is_os_kind [ESRCH]) (\<lambda>_. retA (Some ())))"

definition reap_server :: "env \<Rightarrow> (harness_state, unit) act" where
  "reap_server E = bindA (getsA server) (\<lambda>s. case s of
     None \<Rightarrow> retA ()
   | Some _ \<Rightarrow> bindA poll_server (\<lambda>rc. whenA (rc \<noteq> None) (wait_server E None)))"

definition stop_foreign :: "env \<Rightarrow> int \<Rightarrow> (harness_state, unit) act" where
  "stop_foreign E pid =
     bindA monotonic (\<lambda>t.
     thenA (bindA (poll_until E (deadline_after 5 t) 100 (gone_round E pid)) (\<lambda>r. case r of
         Some _ \<Rightarrow> retA ()
       | None \<Rightarrow> ignore_errors [ESRCH, EPERM] (killpg E pid SIGKILL)))
       (reap_server E))"

definition stop_own :: "env \<Rightarrow> int \<Rightarrow> (harness_state, unit) act" where
  "stop_own E pid =
     catchA (wait_server E (Some 5))
       (onA is_timeout (\<lambda>_.
          thenA (ignore_errors [ESRCH, EPERM] (killpg E pid SIGKILL)) (wait_server E (Some 5))))"

definition stop_server :: "env \<Rightarrow> (harness_state, unit) act" where
  "stop_server E =
     bindA recorded_pid (\<lambda>pid.
       case pid of
         None \<Rightarrow> reap_server E
       | Some i \<Rightarrow>
           if i = 0 then reap_server E
           else thenA (ignore_errors [ESRCH] (killpg E i SIGTERM))
             (bindA (getsA server) (\<lambda>s.
                if (case s of Some p \<Rightarrow> p_pid p = i | None \<Rightarrow> False) then stop_own E i
                else stop_foreign E i)))"

lemmas evaluate_harness [evaluate] =
  run_cmake_def [THEN fun_cong] built_binary_def [THEN fun_cong]
  build_with_def [THEN fun_cong] build_def [THEN fun_cong] write_state_def [THEN fun_cong]
  poll_server_def [THEN fun_cong] start_round_def [THEN fun_cong] await_server_def [THEN fun_cong] start_server_def [THEN fun_cong]
  device_variables_def [THEN fun_cong] wait_test_def [THEN fun_cong]
  run_test_with_def [THEN fun_cong] run_test_def [THEN fun_cong] base_metadata_def [THEN fun_cong]
  initial_metadata_def [THEN fun_cong] save_metadata_def [THEN fun_cong]
  recorded_pid_def [THEN fun_cong] ignore_errors_def [THEN fun_cong]
  wait_server_def [THEN fun_cong] gone_round_def [THEN fun_cong] reap_server_def [THEN fun_cong]
  stop_foreign_def [THEN fun_cong] stop_own_def [THEN fun_cong] stop_server_def [THEN fun_cong]

end
