(* ===== verification/Execute.thy ===== *)
theory Execute
  imports Harness
begin

section \<open>\<open>Harness.execute\<close>\<close>

text \<open>
  One run: the set-up before the \<open>try\<close>, the phases inside it, the two \<open>except\<close> clauses, and the
  \<open>finally\<close> block with its own error handling. The locals \<open>result\<close>, \<open>phase\<close> and \<open>failure\<close> are
  fields of the state, since the handlers and the cleanup read and write them.
\<close>

subsection \<open>The phases\<close>

definition enter :: "phase \<Rightarrow> (harness_state, unit) act" where
  "enter p = modifyA (\<lambda>w. w\<lparr>cur_phase := p\<rparr>)"

definition set_result :: "int \<Rightarrow> (harness_state, unit) act" where
  "set_result r = modifyA (\<lambda>w. w\<lparr>result := r\<rparr>)"

definition set_failure :: "string \<Rightarrow> (harness_state, unit) act" where
  "set_failure m = modifyA (\<lambda>w. w\<lparr>failure := Some m\<rparr>)"

definition set_metadata :: "string \<Rightarrow> json \<Rightarrow> (harness_state, unit) act" where
  "set_metadata k v = modifyA (\<lambda>w. w\<lparr>metadata := dict_set (metadata w) k v\<rparr>)"

definition ready_json :: "ready_status \<Rightarrow> json" where
  "ready_json st = JObj
     [(''usb'', JBool (rs_usb st)),
      (''ccid_interface'', JBool (rs_ccid_interface st)),
      (''hid_interface'', JBool (rs_hid_interface st)),
      (''webusb_interface'', JBool (rs_webusb_interface st)),
      (''hidraw'', JBool (rs_hidraw st)),
      (''pcsc_checked'', JBool (rs_pcsc_checked st)),
      (''pcsc_readers'', json_strs (rs_pcsc_readers st)),
      (''pcsc_all_readers'', json_strs (rs_pcsc_all_readers st)),
      (''pcsc'', JBool (rs_pcsc st))]"

definition execute_setup :: "env \<Rightarrow> (harness_state, unit) act" where
  "execute_setup E =
     bindA (getsA (\<lambda>w. (workspace w, run_output_dir w))) (\<lambda>(ws, out).
     thenA (mkdir_parents False ws)
    (thenA (mkdir_parents True out)
    (bindA (base_metadata E) (\<lambda>md.
     thenA (modifyA (\<lambda>w. w\<lparr>metadata := md\<rparr>)) save_metadata))))"

text \<open>The phases on the host, up to a device that is ready for the test.\<close>

definition device_phases :: "env \<Rightarrow> (harness_state, ready_status) act" where
  "device_phases E =
     thenA (enter phase.Host)
    (thenA (prepare_host E)
    (bindA matching_usb_devices (\<lambda>before.
     thenA (enter Start)
    (thenA (start_server E)
    (thenA (enter Attach)
    (thenA (attach E before)
    (thenA (bindA (getsA (\<lambda>w. (case server w of Some p \<Rightarrow> p_pid p | None \<Rightarrow> 0, usb_port w)))
        (\<lambda>(pid, port). write_state pid port))
    (thenA (enter Readiness)
    (bindA (wait_ready E) (\<lambda>ready.
     thenA (set_metadata ''readiness'' (ready_json ready))
    (thenA (enter Test)
       (retA ready))))))))))))"

definition test_phase :: "env \<Rightarrow> ready_status \<Rightarrow> (harness_state, unit) act" where
  "test_phase E ready =
     bindA (run_test E ready) (\<lambda>rc.
     thenA (set_result rc)
       (whenA (rc \<noteq> 0) (set_failure (''test command exited with '' @ show_int rc))))"

definition run_phases :: "env \<Rightarrow> (harness_state, unit) act" where
  "run_phases E = bindA (device_phases E) (test_phase E)"

text \<open>The core source is recorded: its identity for the platform, its data in the metadata.\<close>

definition record_core :: "env \<Rightarrow> core_source \<Rightarrow> (harness_state, unit) act" where
  "record_core E c =
     thenA (modifyA (\<lambda>w. w\<lparr>core := Some c\<rparr>))
    (thenA (set_usb_identity (cs_usb_vid c) (cs_usb_pid c))
    (bindA (initial_metadata E) (\<lambda>md.
     thenA (modifyA (\<lambda>w. w\<lparr>metadata := md\<rparr>)) save_metadata)))"

definition prepare_phases :: "env \<Rightarrow> (harness_state, path) act" where
  "prepare_phases E =
     thenA acquire_lock
    (thenA (enter ResolveCore)
    (bindA (resolve_core E) (\<lambda>c.
     thenA (record_core E c)
    (thenA (enter phase.Build)
    (bindA (build E) (\<lambda>b.
     thenA (modifyA (\<lambda>w. w\<lparr>binary := Some b\<rparr>))
    (thenA (set_metadata ''binary'' (JStr (path_str b)))
       (retA b))))))))"

definition execute_try :: "env \<Rightarrow> (harness_state, unit) act" where
  "execute_try E =
     bindA (prepare_phases E) (\<lambda>b.
     bindA (getsA (\<lambda>w. build_only (opts w))) (\<lambda>only.
       if only then thenA (set_result 0) (printA (path_str b)) else run_phases E))"

subsection \<open>The \<open>except\<close> clauses\<close>

fun handle_phase_error :: "exn \<Rightarrow> (harness_state, unit) act" where
  "handle_phase_error (PhaseError p m code) =
     thenA (enter p) (thenA (set_result code) (thenA (set_failure m)
       (printA (''canokey-usbip: '' @ m))))"
| "handle_phase_error e = raiseA e"

definition handle_other :: "exn \<Rightarrow> (harness_state, unit) act" where
  "handle_other e =
     thenA (set_failure (exn_str e)) (thenA (printA (''canokey-usbip: '' @ exn_str e))
       (set_result 1))"

definition execute_handler :: "exn \<Rightarrow> (harness_state, unit) act option" where
  "execute_handler = orelseA (onA is_phase_error handle_phase_error)
     (onA (\<lambda>e. is_harness_error e \<or> is_os_error e \<or> is_timeout e) handle_other)"

subsection \<open>The \<open>finally\<close> block\<close>

definition out_file :: "string \<Rightarrow> (harness_state, path) act" where
  "out_file name = getsA (\<lambda>w. run_output_dir w @ [name])"

definition cleanup_debug :: "env \<Rightarrow> (harness_state, unit) act" where
  "cleanup_debug E =
     catchA (collect_debug E)
       (onA is_exception (\<lambda>exc. bindA (out_file ''collect-debug-error.txt'') (\<lambda>p.
          write_text p (exn_str exc @ [newline]))))"

definition print_debug :: "(harness_state, unit) act" where
  "print_debug =
     bindA (getsA debug) (\<lambda>d. whenA d
       (forA [''usbip-port.txt'', ''lsusb.txt'', ''pcscd.log''] (\<lambda>name.
          bindA (out_file name) (\<lambda>p.
          bindA (askH (\<lambda>h. path_exists h p)) (\<lambda>there. whenA there
            (thenA (printA (''--- '' @ name @ '' ---''))
              (bindA (read_text p) printA)))))))"

text \<open>A cleanup error turns a success into a failure and leaves a failure as it is.\<close>

definition note_cleanup_error :: "string \<Rightarrow> (harness_state, unit) act" where
  "note_cleanup_error m =
     bindA (getsA result) (\<lambda>r. whenA (r = 0)
       (thenA (set_result 1) (thenA (enter Cleanup) (set_failure m))))"

definition cleanup_detach :: "env \<Rightarrow> (harness_state, unit) act" where
  "cleanup_detach E =
     bindA (getsA owns_attachment) (\<lambda>owns. whenA owns
       (catchA (detach E)
         (onA is_exception (\<lambda>exc.
            thenA (bindA (out_file ''cleanup-error.txt'') (\<lambda>p.
                write_text p (''detach: '' @ exn_str exc @ [newline])))
              (note_cleanup_error (''detach failed: '' @ exn_str exc))))))"

definition cleanup_stop :: "env \<Rightarrow> (harness_state, unit) act" where
  "cleanup_stop E =
     catchA (stop_server E)
       (onA is_exception (\<lambda>exc.
          thenA (bindA (out_file ''cleanup-error.txt'') (\<lambda>p.
              thenA (open_append p) (append_text p (''stop: '' @ exn_str exc @ [newline]))))
            (note_cleanup_error (''stop failed: '' @ exn_str exc))))"

definition preserve_workspace :: "harness_state \<Rightarrow> bool" where
  "preserve_workspace w \<longleftrightarrow>
     (build_only (opts w) \<and> result w = 0) \<or> (result w \<noteq> 0 \<and> keep_on_failure (opts w))"

definition final_metadata :: "string \<Rightarrow> harness_state \<Rightarrow> (string \<times> json) list" where
  "final_metadata finished w = dict_update (metadata w)
     [(''finished_at'', JStr finished),
      (''phase'', JStr (phase_name (cur_phase w))),
      (''exit_code'', JInt (result w)),
      (''failure'', json_opt_str (failure w)),
      (''workspace_preserved'', JBool (preserve_workspace w))]"

definition cleanup_metadata :: "env \<Rightarrow> (harness_state, unit) act" where
  "cleanup_metadata E =
     bindA (getsA (\<lambda>w. metadata w \<noteq> [])) (\<lambda>some. whenA some
       (thenA (bindA (askH (wall_clock E)) (\<lambda>finished.
            modifyA (\<lambda>w. w\<lparr>metadata := final_metadata finished w\<rparr>)))
          save_metadata))"

definition cleanup_workspace :: "(harness_state, unit) act" where
  "cleanup_workspace =
     bindA (getsA (\<lambda>w. (preserve_workspace w, workspace w))) (\<lambda>(keep, ws).
       whenA (\<not> keep) (rmtree ws))"

definition execute_finally :: "env \<Rightarrow> (harness_state, unit) act" where
  "execute_finally E =
     seqA [cleanup_debug E, print_debug, cleanup_detach E, cleanup_stop E, cleanup_metadata E,
       cleanup_workspace]"

definition execute :: "env \<Rightarrow> (harness_state, int) act" where
  "execute E =
     thenA (modifyA (\<lambda>w. w\<lparr>result := 1, cur_phase := Setup, failure := None\<rparr>))
    (thenA (execute_setup E)
    (thenA (finallyA (catchA (execute_try E) execute_handler) (execute_finally E))
      (getsA result)))"

lemmas evaluate_execute [evaluate] =
  enter_def [THEN fun_cong] set_result_def [THEN fun_cong] set_failure_def [THEN fun_cong]
  set_metadata_def [THEN fun_cong] execute_setup_def [THEN fun_cong]
  device_phases_def [THEN fun_cong] test_phase_def [THEN fun_cong]
  run_phases_def [THEN fun_cong] record_core_def [THEN fun_cong]
  prepare_phases_def [THEN fun_cong] execute_try_def [THEN fun_cong]
  handle_other_def [THEN fun_cong] out_file_def [THEN fun_cong] cleanup_debug_def [THEN fun_cong]
  print_debug_def [THEN fun_cong] note_cleanup_error_def [THEN fun_cong]
  cleanup_detach_def [THEN fun_cong] cleanup_stop_def [THEN fun_cong]
  cleanup_metadata_def [THEN fun_cong] cleanup_workspace_def [THEN fun_cong]
  execute_finally_def [THEN fun_cong] execute_def [THEN fun_cong]

end
