(* ===== verification/RunClient.thy ===== *)
theory RunClient
  imports Execute
begin

section \<open>What the phases of a run keep\<close>

text \<open>
  The contracts of \<open>Harness\<close>. A contract \<open>run_client R P\<close> allows every platform step and every
  write of the attributes that a run sets (\<open>core\<close>, \<open>binary\<close>, \<open>server\<close>, \<open>metadata\<close>, the lock, the
  locals of \<open>execute\<close>); each method satisfies it if its commands are allowed by \<open>P\<close>. The
  interpretations give the fixed attributes of a run, the trace of its actions, and the
  invariants of its attachment and metadata. The second part is how the methods may end.
\<close>

subsection \<open>The contract\<close>

locale harness_client = platform_reader R P
  for R :: "harness_state \<Rightarrow> harness_state \<Rightarrow> bool" and P :: "event \<Rightarrow> bool" +
  assumes core_step: "R w (w\<lparr>core := c\<rparr>)"
    and binary_step: "R w (w\<lparr>binary := b'\<rparr>)"
    and server_step: "R w (w\<lparr>server := s\<rparr>)"
    and metadata_step: "md \<noteq> [] \<Longrightarrow> R w (w\<lparr>metadata := md\<rparr>)"
    and lock_step: "R w (w\<lparr>holds_lock := k\<rparr>)"
begin

lemma within_acquire_lock: "within R acquire_lock"
  unfolding acquire_lock_def by (intro host_rules within_modifyA lock_step)

text \<open>Selecting the core runs \<open>git\<close> only.\<close>

lemma within_apply_core_compatibility:
  assumes git: "\<And>args. P (EvRun (''git'' # args))"
  shows "within R (apply_core_compatibility E d sha)"
  unfolding apply_core_compatibility_def apply_patch_def
  by (intro host_rules within_modifyA git)

lemma within_core_usb_identity: "within R (core_usb_identity d)"
  unfolding core_usb_identity_def Let_def by (intro host_rules within_modifyA)

lemma within_finish_core:
  assumes git: "\<And>args. P (EvRun (''git'' # args))"
  shows "within R (finish_core E d sha ref dirty)"
  unfolding finish_core_def firmware_version_for_sha_def
  by (intro host_rules within_modifyA within_apply_core_compatibility within_core_usb_identity git)

lemma within_resolve_core:
  assumes git: "\<And>args. P (EvRun (''git'' # args))"
  shows "within R (resolve_core E)"
  unfolding resolve_core_def fetch_core_def snapshot_core_def fetch_ref_for_def git_run_def Let_def
  by (intro host_rules within_modifyA within_finish_core git) (simp_all add: git)

lemma within_build:
  assumes cmake: "\<And>args. P (EvRun (''cmake'' # args))"
  shows "within R (build E)"
proof -
  have "within R (build_with E c v)" for c v
    unfolding build_with_def run_cmake_def built_binary_def cmake_configure_def cmake_build_def
    by (intro host_rules within_modifyA cmake)
  then show ?thesis
    unfolding build_def
    by (intro within_bindA within_getsA) (auto intro!: host_rules within_modifyA split: option.split list.split)
qed

text \<open>The state file, the server and the caller's command.\<close>

lemma within_write_state: "within R (write_state pid port)"
  unfolding write_state_def by (intro host_rules within_modifyA)

lemma within_poll_server: "within R poll_server"
  unfolding poll_server_def by (intro host_rules within_modifyA server_step)

lemma within_start_round: "P (EvRun list_command) \<Longrightarrow> within R (start_round E)"
  unfolding start_round_def by (intro host_rules within_modifyA within_poll_server)

lemma within_start_server:
  assumes "P (EvRun list_command)" and "\<And>b st t pid. P (EvSpawn (server_command b st t) pid)"
  shows "within R (start_server E)"
  unfolding start_server_def await_server_def
  by (intro host_rules within_modifyA server_step within_write_state within_start_round assms)

lemma within_wait_test:
  "(\<And>g sig. P (EvKillpg g sig)) \<Longrightarrow> within R (wait_test E secs p)"
  unfolding wait_test_def by (intro host_rules within_modifyA)

lemma within_run_test:
  assumes "\<And>cmd pid. P (EvSpawn [''bash'', ''-lc'', cmd] pid)" and "\<And>g sig. P (EvKillpg g sig)"
  shows "within R (run_test E ready)"
proof -
  have "within R (run_test_with E c cmd ready)" for c cmd
    unfolding run_test_with_def device_variables_def Let_def
    by (intro host_rules within_modifyA within_wait_test assms)
  then show ?thesis
    unfolding run_test_def
    by (intro within_bindA within_getsA within_case_prod)
      (auto intro!: within_raiseA split: option.split list.split)
qed

text \<open>The metadata.\<close>

lemma within_base_metadata:
  assumes "\<And>args. P (EvRun (''git'' # args))" "P (EvRun [''usbip'', ''version''])"
    "\<And>tool. P (EvRun [tool, ''--version''])"
  shows "within R (base_metadata E)"
  unfolding base_metadata_def Let_def
  by (intro host_rules within_modifyA assms) (simp_all add: assms)

lemma within_initial_metadata:
  assumes "\<And>args. P (EvRun (''git'' # args))" "P (EvRun [''usbip'', ''version''])"
    "\<And>tool. P (EvRun [tool, ''--version''])"
  shows "within R (initial_metadata E)"
  unfolding initial_metadata_def
  by (intro host_rules within_modifyA within_base_metadata assms)

lemma within_save_metadata: "within R save_metadata"
  unfolding save_metadata_def by (intro host_rules within_modifyA)

lemma within_execute_setup:
  assumes "\<And>args. P (EvRun (''git'' # args))" "P (EvRun [''usbip'', ''version''])"
    "\<And>tool. P (EvRun [tool, ''--version''])"
  shows "within R (execute_setup E)"
  unfolding execute_setup_def
  by (intro within_mkdir_parents within_getsA within_bindA within_case_prod within_thenA
      within_bindA_value [OF _ base_metadata_nonempty] within_base_metadata within_modifyA
      metadata_step within_save_metadata assms)

text \<open>Stopping the server sends signals to its group.\<close>

lemma within_ignore_errors: "within R m \<Longrightarrow> within R (ignore_errors ks m)"
  unfolding ignore_errors_def by (intro host_rules within_modifyA)

lemma within_wait_server: "within R (wait_server E t)"
  unfolding wait_server_def by (intro host_rules within_modifyA server_step)

lemma within_gone_round: "within R (gone_round E pid)"
  unfolding gone_round_def by (intro host_rules within_modifyA)

lemma within_reap_server: "within R (reap_server E)"
  unfolding reap_server_def by (intro host_rules within_modifyA within_poll_server within_wait_server)

lemma within_recorded_pid: "within R recorded_pid"
  unfolding recorded_pid_def by (intro host_rules within_modifyA)

lemma within_stop_server:
  assumes "\<And>g sig. P (EvKillpg g sig)"
  shows "within R (stop_server E)"
  unfolding stop_server_def stop_own_def stop_foreign_def
  by (intro host_rules within_modifyA within_recorded_pid within_reap_server within_ignore_errors
      within_wait_server within_gone_round assms)

text \<open>The cleanup, but for the note of an error.\<close>

lemma within_out_file: "within R (out_file name)"
  unfolding out_file_def by (rule within_getsA)

lemma within_cleanup_debug:
  "within R (collect_debug E) \<Longrightarrow> within R (cleanup_debug E)"
  unfolding cleanup_debug_def by (intro host_rules within_modifyA within_out_file)

lemma within_print_debug: "(\<And>s. P (EvPrint s)) \<Longrightarrow> within R print_debug"
  unfolding print_debug_def by (intro host_rules within_modifyA within_out_file)

lemma within_cleanup_detach:
  "within R (detach E) \<Longrightarrow> (\<And>m. within R (note_cleanup_error m)) \<Longrightarrow> within R (cleanup_detach E)"
  unfolding cleanup_detach_def
  by (intro within_bindA within_getsA within_whenA within_catch_onA within_thenA within_out_file
      within_write_text)

lemma within_cleanup_stop:
  "within R (stop_server E) \<Longrightarrow> (\<And>m. within R (note_cleanup_error m)) \<Longrightarrow> within R (cleanup_stop E)"
  unfolding cleanup_stop_def
  by (intro within_bindA within_catch_onA within_thenA within_out_file within_open_append
      within_append_text)

lemma final_metadata_nonempty [simp]: "final_metadata t w \<noteq> []"
  by (simp add: final_metadata_def dict_update_def dict_set_nonempty)

lemma within_cleanup_metadata: "within R (cleanup_metadata E)"
  unfolding cleanup_metadata_def
  by (intro host_rules within_modifyA metadata_step within_save_metadata) simp

lemma within_cleanup_workspace: "within R cleanup_workspace"
  unfolding cleanup_workspace_def by (intro host_rules within_modifyA)

lemma within_execute_finally:
  assumes "within R (collect_debug E)" "within R (detach E)" "within R (stop_server E)"
    and "\<And>s. P (EvPrint s)" "\<And>m. within R (note_cleanup_error m)"
  shows "within R (execute_finally E)"
  unfolding execute_finally_def
  by (rule within_seqA)
    (auto intro: within_cleanup_debug within_print_debug within_cleanup_detach within_cleanup_stop
      within_cleanup_metadata within_cleanup_workspace assms)

end

text \<open>Up to the build, a run also writes the platform's identity and its phase.\<close>

locale phase_reader = harness_client R P
  for R :: "harness_state \<Rightarrow> harness_state \<Rightarrow> bool" and P :: "event \<Rightarrow> bool" +
  assumes identity_step: "R w (w\<lparr>usb_vid := v, usb_pid := q\<rparr>)"
    and phase_step: "R w (w\<lparr>cur_phase := ph\<rparr>)"
begin

lemma within_enter: "within R (enter p)"
  unfolding enter_def by (intro within_modifyA phase_step)

lemma within_set_metadata: "within R (set_metadata k v)"
  unfolding set_metadata_def by (intro within_modifyA metadata_step dict_set_nonempty)

lemma within_prepare_phases:
  assumes "\<And>args. P (EvRun (''git'' # args))" "\<And>args. P (EvRun (''cmake'' # args))"
    "P (EvRun [''usbip'', ''version''])" "\<And>tool. P (EvRun [tool, ''--version''])"
  shows "within R (prepare_phases E)"
proof -
  have "within R (record_core E c)" for c
    unfolding record_core_def set_usb_identity_def
    by (intro within_thenA within_modifyA core_step identity_step
        within_bindA_value [OF _ initial_metadata_nonempty] within_initial_metadata metadata_step
        within_save_metadata assms)
  then show ?thesis
    unfolding prepare_phases_def
    by (intro host_rules within_modifyA within_acquire_lock within_enter within_set_metadata
        within_resolve_core within_build binary_step assms)
qed

end

text \<open>Up to the test, it writes the other attributes of the platform as well.\<close>

locale phase_client = phase_reader R P + platform_client R P
  for R :: "harness_state \<Rightarrow> harness_state \<Rightarrow> bool" and P :: "event \<Rightarrow> bool"
begin

lemma within_device_phases:
  assumes "within R (prepare_host E)" "within R (start_server E)" "\<And>b. within R (attach E b)"
  shows "within R (device_phases E)"
  unfolding device_phases_def
  by (intro within_thenA within_bindA within_getsA within_retA within_case_prod within_enter
      within_set_metadata within_matching_usb_devices within_write_state within_wait_ready assms)

end

text \<open>The whole run writes the other locals of \<open>execute\<close> as well.\<close>

locale run_client = phase_client R P
  for R :: "harness_state \<Rightarrow> harness_state \<Rightarrow> bool" and P :: "event \<Rightarrow> bool" +
  assumes result_step: "R w (w\<lparr>result := i\<rparr>)"
    and failure_step: "R w (w\<lparr>failure := m\<rparr>)"
begin

lemma within_locals: "within R (set_result i)" "within R (set_failure m)"
  unfolding set_result_def set_failure_def
  by (intro within_modifyA result_step failure_step)+

lemma within_note_cleanup_error: "within R (note_cleanup_error m)"
  unfolding note_cleanup_error_def by (intro within_intros within_locals within_enter)

lemma within_execute_try:
  assumes "within R (prepare_phases E)" "within R (device_phases E)"
    "\<And>ready. within R (run_test E ready)" "\<And>s. P (EvPrint s)"
  shows "within R (execute_try E)"
  unfolding execute_try_def run_phases_def test_phase_def
  by (intro within_intros within_printA within_locals assms)

lemma within_handle_phase_error:
  "(\<And>s. P (EvPrint s)) \<Longrightarrow> within R (handle_phase_error e)"
  by (cases e) (auto intro!: within_intros within_printA within_locals within_enter)

lemma within_handler:
  "execute_handler e = Some k \<Longrightarrow> (\<And>s. P (EvPrint s)) \<Longrightarrow> within R k"
  by (auto simp: execute_handler_def orelseA_def onA_def handle_other_def split: if_splits
      option.splits intro!: within_handle_phase_error within_thenA within_locals within_printA)

end

end
