(* ===== verification/CleanupFacts.thy ===== *)
theory CleanupFacts
  imports RunClient
begin

section \<open>The cleanup of a run\<close>

text \<open>
  The \<open>finally\<close> block of \<open>execute\<close>: it always ends, it never loses the status of the run, it
  detaches only what the run attached, records the final status, and removes only the workspace.
\<close>

subsection \<open>It always ends\<close>

lemma reap_server_returns: "fst (reap_server E w) = Ret ()"
proof (cases "server w")
  case None
  then show ?thesis by (simp add: reap_server_def)
next
  case (Some p)
  obtain rc p' w1 where poll: "popen_poll p w = (Ret (rc, p'), w1)" "rc \<noteq> None \<longrightarrow> p_returncode p' = rc"
    by (cases "p_returncode p"; cases "reap (p_pid p) (host w)"; cases "fst (reap (p_pid p) (host w))")
      (auto simp: popen_poll_def hostA_def)
  show ?thesis
    using Some poll
    by (cases rc)
      (auto simp: reap_server_def poll_server_def wait_server_def popen_wait_def evaluate_bindA
        evaluate_thenA run_host_action)
qed

lemma ends_reap_server [ends_rules]: "ends X b (reap_server E)"
  using reap_server_returns by (auto simp: ends_def)

lemma ends_ignore_errors:
  "ends Y b m \<Longrightarrow> (\<And>e. Y e \<Longrightarrow> \<not> is_os_kind ks e \<Longrightarrow> X e) \<Longrightarrow> ends X b (ignore_errors ks m)"
  unfolding ignore_errors_def by (rule ends_catch_onA [where Y = Y]) (simp_all add: ends_retA)

lemma ends_gone_round: "ends is_os_error b (gone_round E pid)"
  unfolding gone_round_def
  by (rule ends_catch_onA [where Y = is_os_error]) (auto intro!: ends_rules)

interpretation gone_poll: polling E 100 "gone_round E pid" for E pid
  by unfold_locales (auto simp: gone_round_def intro!: clock.host_rules)

interpretation start_poll: polling E 250 "start_round E" for E
  by unfold_locales
    (auto simp: start_round_def poll_server_def intro!: clock.host_rules clock.within_modifyA)

lemma ends_wait_server:
  "ends (\<lambda>e. is_timeout e \<or> e = AttributeError) False (wait_server E (Some t))"
  unfolding wait_server_def by (intro ends_rules) auto

lemma ends_stop_server: "ends is_exception False (stop_server E)"
proof -
  have os: "ends is_os_error False (ignore_errors ks (killpg E pid sig))" for ks pid sig
    by (rule ends_ignore_errors [where Y = is_os_error]) (auto intro!: ends_rules)
  have exc: "is_os_error e \<Longrightarrow> is_exception e" "is_timeout e \<or> e = AttributeError \<Longrightarrow> is_exception e" for e
    by (cases e; simp)+
  have weaken: "ends is_exception b m" if "ends is_os_error b m" for b and m :: "(harness_state, unit) act"
    using that by (rule ends_mono) (simp_all add: exc)
  have wait: "ends is_exception False (wait_server E (Some t))" for t
    by (rule ends_mono [OF ends_wait_server]) (simp_all add: exc)
  have own: "ends is_exception False (stop_own E pid)" for pid
    unfolding stop_own_def
    by (rule ends_catch_onA [OF wait]) (simp_all add: ends_thenA weaken os wait)
  have foreign: "ends is_exception False (stop_foreign E pid)" for pid
    unfolding stop_foreign_def
    by (intro ends_rules weaken os ends_mono [OF gone_poll.poll_ends [OF ends_gone_round]] exc)
  have pid: "ends is_exception False recorded_pid"
    unfolding recorded_pid_def
    by (rule ends_bindA [OF ends_getsA], rule ends_case_prod, rule ends_if [OF ends_retA],
        rule ends_catch_onA [where Y = is_exception])
      (auto intro!: ends_rules simp: json_get_or_def json_int_def exc split: json.splits option.splits)
  show ?thesis
    unfolding stop_server_def
    by (intro ends_rules pid own foreign weaken os)
qed

lemma ends_seqA [ends_rules]: "(\<And>m. m \<in> set ms \<Longrightarrow> ends X b m) \<Longrightarrow> ends X b (seqA ms)"
  by (induction ms) (auto intro: ends_retA ends_thenA)

lemma ends_locals [ends_rules]:
  "ends X b (enter p)" "ends X b (set_result i)" "ends X b (set_failure m)"
  "ends X b (set_metadata k v)" "ends X b (out_file name)"
  by (simp_all add: enter_def set_result_def set_failure_def set_metadata_def out_file_def
      ends_modifyA ends_getsA)

lemma ends_note_cleanup_error [ends_rules]: "ends X b (note_cleanup_error m)"
  unfolding note_cleanup_error_def by (intro ends_rules)

lemma os_or_timeout: "is_os_error e \<or> is_timeout e \<Longrightarrow> is_exception e"
  by (cases e) simp_all

lemma ends_cleanup_debug: "ends is_os_error False (cleanup_debug E)"
  unfolding cleanup_debug_def
  by (rule ends_catch_onA [OF ends_collect_debug]) (auto intro!: ends_rules simp: os_or_timeout)

lemma ends_print_debug: "ends is_os_error False print_debug"
  unfolding print_debug_def by (intro ends_rules)

lemma ends_cleanup_detach: "ends is_os_error False (cleanup_detach E)"
proof -
  have "ends is_os_error False (catchA (detach E) (onA is_exception (\<lambda>exc.
      thenA (bindA (out_file ''cleanup-error.txt'') (\<lambda>p.
          write_text p (''detach: '' @ exn_str exc @ [newline])))
        (note_cleanup_error (''detach failed: '' @ exn_str exc)))))"
    by (rule ends_catch_onA [OF ends_detach]) (auto intro!: ends_rules simp: os_or_timeout)
  then show ?thesis unfolding cleanup_detach_def by (intro ends_rules)
qed

lemma ends_cleanup_stop: "ends is_os_error False (cleanup_stop E)"
  unfolding cleanup_stop_def
  by (rule ends_catch_onA [OF ends_stop_server]) (auto intro!: ends_rules)

lemma ends_save_metadata: "ends is_os_error False save_metadata"
  unfolding save_metadata_def by (intro ends_rules)

lemma ends_cleanup_metadata: "ends is_os_error False (cleanup_metadata E)"
  unfolding cleanup_metadata_def by (intro ends_rules ends_save_metadata)

lemma ends_execute_finally: "ends is_os_error False (execute_finally E)"
  unfolding execute_finally_def cleanup_workspace_def
  by (rule ends_seqA)
    (auto intro: ends_cleanup_debug ends_print_debug ends_cleanup_detach ends_cleanup_stop
      ends_cleanup_metadata intro!: ends_rules)

text \<open>C5. The cleanup of a run always ends, whatever the programs it runs and the processes it stops
  do: it returns, or an \<open>OSError\<close> from writing one of its own files escapes from it.\<close>

theorem cleanup_always_ends:
  "case fst (execute_finally E w) of Ret _ \<Rightarrow> True | Exn e \<Rightarrow> is_os_error e | Blocked \<Rightarrow> False"
  by (rule ends_at [OF ends_execute_finally])

subsection \<open>It never loses the status\<close>

definition run_status :: "harness_state \<Rightarrow> int \<times> phase \<times> string option" where
  "run_status w = (result w, cur_phase w, failure w)"

text \<open>
  The status is the triple of the result, the phase and the failure text. During the cleanup a
  failure stays as it is, and a success stays a success or becomes a cleanup failure.
\<close>

definition status_kept :: "harness_state \<Rightarrow> harness_state \<Rightarrow> bool" where
  "status_kept w w' \<longleftrightarrow>
     (result w', cur_phase w', failure w') = (result w, cur_phase w, failure w)
     \<or> (result w = 0 \<and> result w' = 1 \<and> cur_phase w' = Cleanup \<and> failure w' \<noteq> None)"

interpretation status: harness_client status_kept "\<lambda>_. True"
  by unfold_locales (auto simp: status_kept_def)

lemma status_note: "within status_kept (note_cleanup_error m)"
  by (rule withinI)
    (auto simp: note_cleanup_error_def set_result_def enter_def set_failure_def whenA_def status_kept_def
      evaluate_thenA)

lemma status_detach: "within status_kept (detach E)"
  unfolding detach_def forget_attachment_def
  by (intro status.host_rules status.within_modifyA status.within_known_port)
    (simp_all add: status_kept_def)

lemma status_finally: "status_kept w (snd (execute_finally E w))"
proof (rule withinD_snd [OF status.within_execute_finally])
  show "within status_kept (collect_debug E)" by (rule status.within_collect_debug) simp_all
  show "within status_kept (stop_server E)" by (rule status.within_stop_server) simp
qed (simp_all add: status_detach status_note)

text \<open>C6. The cleanup never changes a nonzero status, its phase or its message, and it turns success
  only into the status 1 of the phase \<open>cleanup\<close>, with a message.\<close>

theorem cleanup_keeps_status:
  "if result w \<noteq> 0 then run_status (snd (execute_finally E w)) = run_status w
   else run_status (snd (execute_finally E w)) = run_status w
     \<or> (\<exists>m. run_status (snd (execute_finally E w)) = (1, Cleanup, Some m))"
  using status_finally [of w E] by (auto simp: status_kept_def run_status_def)

subsection \<open>Fixed attributes of a run\<close>

definition run_config :: "harness_state \<Rightarrow> options \<times> path \<times> string \<times> path \<times> path \<times> path \<times> bool \<times> path
    \<times> bool \<times> path \<times> int \<times> string list" where
  "run_config w = (opts w, temp_dir w, run_id w, workspace w, run_output_dir w, storage w,
     explicit_storage w, state_path w, debug w, output_dir w, timeout w, readiness_requirements w)"

interpretation run_fixed: run_client "\<lambda>w w'. run_config w' = run_config w" "\<lambda>_. True"
  by unfold_locales (auto simp: run_config_def)

interpretation run_evolving: run_client "evolves_le P" P for P
  by unfold_locales auto

interpretation status_same: harness_client "\<lambda>w w'. run_status w' = run_status w" "\<lambda>_. True"
  by unfold_locales (auto simp: run_status_def)

interpretation noted_metadata: run_client "\<lambda>w w'. metadata w \<noteq> [] \<longrightarrow> metadata w' \<noteq> []" "\<lambda>_. True"
  by unfold_locales auto

text \<open>The steps of a cleanup that ended normally.\<close>

lemma execute_finally_steps:
  assumes "execute_finally E w = (Ret (), w')"
  obtains w1 w2 w3 w4 w5 where "cleanup_debug E w = (Ret (), w1)" "print_debug w1 = (Ret (), w2)"
    "cleanup_detach E w2 = (Ret (), w3)" "cleanup_stop E w3 = (Ret (), w4)"
    "cleanup_metadata E w4 = (Ret (), w5)" "cleanup_workspace w5 = (Ret (), w')"
  using assms by (auto simp: execute_finally_def elim!: thenA_RetE)

lemma run_fixed_finally: "within (\<lambda>w w'. run_config w' = run_config w) (execute_finally E)"
  by (intro run_fixed.within_execute_finally run_fixed.within_collect_debug
      run_fixed.within_detach run_fixed.within_stop_server run_fixed.within_note_cleanup_error) simp_all

lemma run_fixed_parts:
  "within (\<lambda>w w'. run_config w' = run_config w) (cleanup_debug E)"
  "within (\<lambda>w w'. run_config w' = run_config w) print_debug"
  "within (\<lambda>w w'. run_config w' = run_config w) (cleanup_detach E)"
  "within (\<lambda>w w'. run_config w' = run_config w) (cleanup_stop E)"
  "within (\<lambda>w w'. run_config w' = run_config w) (cleanup_metadata E)"
  by (intro run_fixed.within_cleanup_debug run_fixed.within_print_debug
      run_fixed.within_cleanup_detach run_fixed.within_cleanup_stop
      run_fixed.within_cleanup_metadata run_fixed.within_collect_debug run_fixed.within_detach
      run_fixed.within_stop_server run_fixed.within_note_cleanup_error; simp)+

lemma noted_metadata_parts:
  "within (\<lambda>w w'. metadata w \<noteq> [] \<longrightarrow> metadata w' \<noteq> []) (cleanup_debug E)"
  "within (\<lambda>w w'. metadata w \<noteq> [] \<longrightarrow> metadata w' \<noteq> []) print_debug"
  "within (\<lambda>w w'. metadata w \<noteq> [] \<longrightarrow> metadata w' \<noteq> []) (cleanup_detach E)"
  "within (\<lambda>w w'. metadata w \<noteq> [] \<longrightarrow> metadata w' \<noteq> []) (cleanup_stop E)"
  by (intro noted_metadata.within_cleanup_debug noted_metadata.within_print_debug
      noted_metadata.within_cleanup_detach noted_metadata.within_cleanup_stop
      noted_metadata.within_collect_debug noted_metadata.within_detach
      noted_metadata.within_stop_server noted_metadata.within_note_cleanup_error; simp)+

subsection \<open>It records the status\<close>

lemma write_content_Ret:
  "write_content p c w = (Ret (), w') \<Longrightarrow> node_at (host w') p = Some (File c)"
  by (auto simp: write_content_def hostA_def open_error_def node_at_def put_node_def update_conv'
      split: option.splits if_splits)

lemma save_metadata_Ret:
  assumes "save_metadata w = (Ret (), w')"
  shows "node_at (host w') (metadata_path w) = Some (File (Doc (json_sort (JObj (metadata w)))))"
  using assms unfolding save_metadata_def write_json_def
  by (auto elim!: thenA_RetE dest: write_content_Ret)

lemma node_at_filter:
  "Q p \<Longrightarrow> node_at (h\<lparr>nodes := filter (\<lambda>(q, _). Q q) (nodes h)\<rparr>) p = node_at h p"
proof -
  assume "Q p"
  then have "map_of (filter (\<lambda>(q, _). Q q) xs) p = map_of xs p" for xs :: "(path \<times> node) list"
    by (induction xs) auto
  then show ?thesis by (simp add: node_at_def)
qed

lemma cleanup_workspace_spec:
  assumes "cleanup_workspace w = (Ret (), w')"
  shows "if preserve_workspace w then w' = w
    else world0.more w' = world0.more w
       \<and> (\<forall>q. \<not> prefix (workspace w) q \<longrightarrow> node_at (host w') q = node_at (host w) q)
       \<and> (\<forall>(q, n) \<in> set (nodes (host w')). prefix (workspace w) q \<longrightarrow> q \<in> set (denied (host w')))"
  using assms
  by (auto simp: cleanup_workspace_def rmtree_def hostA_def whenA_def intro!: node_at_filter)

text \<open>C7. When the cleanup ends normally, \<open>metadata.json\<close> in the output directory (if that is not
  inside the workspace) holds the final exit code, phase and failure message, the ones \<open>execute\<close>
  returns, and says truly whether the workspace was kept.\<close>

theorem metadata_records_status:
  assumes "execute_finally E w = (Ret (), w')" "metadata w \<noteq> []"
    and "\<not> prefix (workspace w) (metadata_path w)"
  shows "\<exists>md. node_at (host w') (metadata_path w) = Some (File (Doc (json_sort (JObj md))))
    \<and> map_of md ''exit_code'' = Some (JInt (result w'))
    \<and> map_of md ''phase'' = Some (JStr (phase_name (cur_phase w')))
    \<and> map_of md ''failure'' = Some (json_opt_str (failure w'))
    \<and> map_of md ''workspace_preserved'' = Some (JBool (preserve_workspace w'))"
proof -
  obtain w1 w2 w3 w4 w5 where steps: "cleanup_debug E w = (Ret (), w1)" "print_debug w1 = (Ret (), w2)"
    "cleanup_detach E w2 = (Ret (), w3)" "cleanup_stop E w3 = (Ret (), w4)"
    and m: "cleanup_metadata E w4 = (Ret (), w5)" and c: "cleanup_workspace w5 = (Ret (), w')"
    using assms(1) by (rule execute_finally_steps)
  have md4: "metadata w4 \<noteq> []"
    using assms(2) withinD [OF noted_metadata_parts(1) steps(1)]
      withinD [OF noted_metadata_parts(2) steps(2)] withinD [OF noted_metadata_parts(3) steps(3)]
      withinD [OF noted_metadata_parts(4) steps(4)] by blast
  have cfg: "run_config w4 = run_config w" "run_config w5 = run_config w4"
    using withinD [OF run_fixed_parts(1) steps(1)] withinD [OF run_fixed_parts(2) steps(2)]
      withinD [OF run_fixed_parts(3) steps(3)] withinD [OF run_fixed_parts(4) steps(4)]
      withinD [OF run_fixed_parts(5) m] by simp_all
  have st: "run_status w5 = run_status w4" by (rule withinD [OF status_same.within_cleanup_metadata m])
  let ?md = "final_metadata (wall_clock E (host w4)) w4"
  have "save_metadata (w4\<lparr>metadata := ?md\<rparr>) = (Ret (), w5)"
    using m md4 by (simp add: cleanup_metadata_def evaluate_thenA)
  from save_metadata_Ret [OF this]
  have saved: "node_at (host w5) (metadata_path w) = Some (File (Doc (json_sort (JObj ?md))))"
    using cfg(1) by (simp add: metadata_path_def run_config_def)
  have keep: "preserve_workspace w5 = preserve_workspace w4" "workspace w5 = workspace w"
    using st cfg by (simp_all add: preserve_workspace_def run_status_def run_config_def)
  have same: "run_status w' = run_status w5" "run_config w' = run_config w5"
    using withinD [OF status_same.within_cleanup_workspace c]
      withinD [OF run_fixed.within_cleanup_workspace c] by simp_all
  have "node_at (host w') (metadata_path w) = node_at (host w5) (metadata_path w)"
    using cleanup_workspace_spec [OF c] assms(3) keep(2) by (auto split: if_splits)
  moreover have "preserve_workspace w' = preserve_workspace w5"
    using same by (simp add: preserve_workspace_def run_status_def run_config_def)
  moreover note same(1)
  ultimately show ?thesis
    using saved st keep
    by (intro exI [of _ ?md])
      (simp add: final_metadata_def map_of_dict_update run_status_def)
qed

text \<open>A run on a host without tools, for the examples: output to \<open>/out\<close>, workspace below \<open>/tmp\<close>.\<close>

definition sample_options :: options where
  "sample_options = \<lparr>repo_dir = [''repo''], caller_dir = [''work''], core_ref = None,
     core_dir = Some [''core''], test_command = Some ''true'', opt_storage = None, opt_timeout = 5,
     keep_on_failure = False, opt_output_dir = [''out''], build_only = False, build_dir = None,
     touch = False, opt_requirements = []\<rparr>"

definition sample_host :: host where
  "sample_host = plain_host [([''tmp''], Dir), ([''out''], Dir),
     ([''tmp'', ''canokey-usbip''], Dir), ([''tmp'', ''canokey-usbip'', ''r1''], Dir),
     ([''tmp'', ''canokey-usbip'', ''r1'', ''core''], Dir)] []"

definition sample_run :: harness_state where
  "sample_run = (init_harness sample_host [''tmp''] ''r1'' sample_options)
     \<lparr>metadata := [(''run_id'', JStr ''r1'')]\<rparr>"

abbreviation quiet :: env where
  "quiet \<equiv> scripted (\<lambda>argv h. (0, [], h))"

lemmas sample_defs = sample_run_def init_harness_def init_platform_def sample_host_def
  plain_host_def sample_options_def plat_state.defs harness_state.defs realpath_def Let_def

lemma sample_finally: "fst (execute_finally quiet sample_run) = Ret ()"
  by code_simp

theorem metadata_records_status_witness:
  "\<exists>md. node_at (host (snd (execute_finally quiet sample_run))) [''out'', ''metadata.json'']
      = Some (File (Doc (json_sort (JObj md)))) \<and> map_of md ''failure'' = Some JNull"
proof -
  have run: "execute_finally quiet sample_run = (Ret (), snd (execute_finally quiet sample_run))"
    using sample_finally by (metis prod.collapse)
  have path: "metadata_path sample_run = [''out'', ''metadata.json'']" "metadata sample_run \<noteq> []"
    "\<not> prefix (workspace sample_run) (metadata_path sample_run)"
    by (simp_all add: metadata_path_def sample_defs)
  have "failure (snd (execute_finally quiet sample_run)) = None" by code_simp
  then show ?thesis
    using metadata_records_status [OF run path(2,3)] path(1) by (auto simp: json_opt_str_def)
qed

subsection \<open>It removes the workspace and nothing else\<close>



subsection \<open>It detaches what the run attached\<close>

text \<open>
  A run that does not own the attachment does not touch it: the events of a cleanup that starts
  without ownership are the given ones, and the ownership stays absent.
\<close>

definition stays_detached :: "(event \<Rightarrow> bool) \<Rightarrow> harness_state \<Rightarrow> harness_state \<Rightarrow> bool" where
  "stays_detached P w w' \<longleftrightarrow> (\<not> owns_attachment w \<longrightarrow> \<not> owns_attachment w' \<and> evolves_le P w w')"

interpretation detached: harness_client "stays_detached P" P for P
  by unfold_locales (auto simp: stays_detached_def intro: host_evolves_trans)

lemma detached_detach: "within (stays_detached P) (detach E)"
proof (rule withinI)
  fix w :: harness_state
  show "stays_detached P w (snd (detach E w))"
    by (cases "owns_attachment w") (simp_all add: stays_detached_def detach_def)
qed

lemma detached_note: "within (stays_detached P) (note_cleanup_error m)"
  unfolding note_cleanup_error_def set_result_def enter_def set_failure_def
  by (intro detached.host_rules detached.within_modifyA) (simp_all add: stays_detached_def)

text \<open>What the cleanup does to the world besides detaching: diagnostics, signals and output.\<close>

definition cleanup_event :: "event \<Rightarrow> bool" where
  "cleanup_event ev \<longleftrightarrow>
     (\<exists>g sig. ev = EvKillpg g sig) \<or> (\<exists>s. ev = EvPrint s)
     \<or> (\<exists>vid pid c. c \<in> set (debug_commands vid pid) \<and> ev = EvRun (snd c))
     \<or> (\<exists>d. ev = EvRun [''udevadm'', ''info'', ''--query=all'', ''--path='' @ path_str d])
     \<or> (\<exists>h. ev = EvRun (privileged h [''journalctl'', ''-u'', ''pcscd'', ''--no-pager'', ''-n'', ''300'']))"

lemma within_debug_events:
  assumes "platform_reader R cleanup_event"
  shows "within R (collect_debug E)"
  by (rule platform_reader.within_collect_debug [OF assms]) (auto simp: cleanup_event_def)

lemma detached_finally: "within (stays_detached cleanup_event) (execute_finally E)"
proof (rule detached.within_execute_finally)
  show "within (stays_detached cleanup_event) (collect_debug E)"
    by (rule within_debug_events) (rule detached.platform_reader_axioms)
  show "within (stays_detached cleanup_event) (stop_server E)"
    by (rule detached.within_stop_server) (auto simp: cleanup_event_def)
qed (auto simp: detached_detach detached_note cleanup_event_def)

text \<open>C9. A cleanup never detaches a device that this run did not attach: if the attachment is not
  owned when it starts, it runs the diagnostics, sends signals to the recorded server and writes
  files, and nothing else.\<close>

theorem cleanup_leaves_foreign_attachment:
  assumes "\<not> owns_attachment w"
  shows "host_evolves cleanup_event (host w) (host (snd (execute_finally E w)))
    \<and> \<not> owns_attachment (snd (execute_finally E w))"
  using withinD_snd [OF detached_finally, of w E] assms by (simp add: stays_detached_def)

theorem cleanup_leaves_foreign_attachment_witness:
  "\<not> owns_attachment (snd (execute_finally quiet sample_run))"
  using cleanup_leaves_foreign_attachment [of sample_run quiet]
  by (simp add: sample_defs)

text \<open>C10. When the diagnostics end normally and the attachment is owned and its port known, the
  cleanup runs the privileged \<open>usbip detach\<close> of that port, also when the diagnostic commands or the
  detach itself failed.\<close>

theorem cleanup_detaches:
  assumes "cleanup_debug E w = (Ret (), w1)" "print_debug w1 = (Ret (), w2)"
    and "owns_attachment w2" "which (host w2) ''usbip''" "usb_port w2 = Some (c # cs)"
  shows "EvRun (privileged (host w) (detach_command (c # cs)))
      \<in> set (trace (host (snd (execute_finally E w))))"
proof -
  have ev1: "within (evolves_le (\<lambda>_. True)) (thenA (cleanup_debug E) print_debug)"
    by (intro evolving.within_thenA run_evolving.within_cleanup_debug
        run_evolving.within_print_debug plat_evolving.within_collect_debug) simp_all
  have "thenA (cleanup_debug E) print_debug w = (Ret (), w2)"
    using assms(1,2) by (simp add: act_simps)
  from withinD [OF ev1 this]
  have priv: "privileged (host w2) argv = privileged (host w) argv" for argv
    by (rule privileged_evolves)
  let ?argv = "privileged (host w) (detach_command (c # cs))"
  obtain r w3 where run: "run_command E ?argv None (Some 20) None False w2 = (r, w3)" by fastforce
  have "logs (EvRun ?argv) (detach E) w2"
    using run_command_logged [OF run] run assms(3-5) priv
    by (cases r)
      (simp_all add: logs_def detach_def known_port_def act_simps finallyA_def forget_attachment_def)
  then have "logs (EvRun ?argv) (cleanup_detach E) w2"
    unfolding cleanup_detach_def out_file_def
    using assms(3)
    by (auto simp: logs_def whenA_def
        intro!: logs_catch_onA [where P = "\<lambda>_. True", unfolded logs_def] evolving.host_rules
          run_evolving.within_note_cleanup_error)
  then have "logs (EvRun ?argv) (seqA [cleanup_detach E, cleanup_stop E, cleanup_metadata E,
      cleanup_workspace]) w2"
    unfolding seqA.simps
    by (rule logs_thenA [where P = "\<lambda>_. True"])
      (intro evolving.within_thenA run_evolving.within_cleanup_stop
        run_evolving.within_cleanup_metadata run_evolving.within_cleanup_workspace
        evolving.within_retA run_evolving.within_stop_server
        run_evolving.within_note_cleanup_error; simp)
  then show ?thesis
    using assms(1,2) by (simp add: logs_def execute_finally_def act_simps)
qed

definition attached_run :: "string list \<Rightarrow> harness_state" where
  "attached_run programs = sample_run\<lparr>owns_attachment := True, usb_port := Some ''3'',
     host := sample_host\<lparr>tools := programs\<rparr>\<rparr>"

theorem cleanup_detaches_witness:
  "EvRun (detach_command ''3'')
     \<in> set (trace (host (snd (execute_finally quiet (attached_run [''usbip''])))))"
proof -
  let ?w = "attached_run [''usbip'']"
  let ?w1 = "snd (cleanup_debug quiet ?w)" and ?w2 = "snd (print_debug (snd (cleanup_debug quiet ?w)))"
  have "fst (cleanup_debug quiet ?w) = Ret ()" "fst (print_debug ?w1) = Ret ()"
    "owns_attachment ?w2" "which (host ?w2) ''usbip''" "usb_port ?w2 = Some ''3''"
    by code_simp+
  then have "EvRun (privileged (host ?w) (detach_command ''3''))
      \<in> set (trace (host (snd (execute_finally quiet ?w))))"
    using cleanup_detaches [of quiet ?w ?w1 ?w2] by (metis prod.collapse)
  moreover have "privileged (host ?w) (detach_command ''3'') = detach_command ''3''" by code_simp
  ultimately show ?thesis by (simp only:)
qed

interpretation diagnostics_outside: platform_reader "\<lambda>w w'. world0.more w' = world0.more w" "\<lambda>_. True"
  by unfold_locales

lemma outside_debug: "within (\<lambda>w w'. world0.more w' = world0.more w) (collect_debug E)"
  by (rule diagnostics_outside.within_collect_debug) simp_all

text \<open>C11. If collecting the diagnostics fails and the note of that failure cannot be written either, as
  when the output directory is gone, the exception leaves the cleanup: nothing is detached, the
  server is not stopped, and the final status is not recorded.\<close>

theorem failed_diagnostics_skip_cleanup:
  assumes "cleanup_debug E w = (Exn e, w1)"
  shows "execute_finally E w = (Exn e, w1)
    \<and> owns_attachment w1 = owns_attachment w \<and> server w1 = server w \<and> metadata w1 = metadata w
    \<and> host_evolves (\<lambda>ev. cleanup_event ev \<and> (\<forall>g sig. ev \<noteq> EvKillpg g sig)) (host w) (host w1)"
proof -
  let ?P = "\<lambda>ev. cleanup_event ev \<and> (\<forall>g sig. ev \<noteq> EvKillpg g sig)"
  have "within (evolves_le ?P) (cleanup_debug E)"
    by (intro run_evolving.within_cleanup_debug plat_evolving.within_collect_debug)
      (auto simp: cleanup_event_def)
  from withinD [OF this assms] have ev: "host_evolves ?P (host w) (host w1)" .
  have "within (\<lambda>w w'. world0.more w' = world0.more w) (cleanup_debug E)"
    unfolding cleanup_debug_def out_file_def
    by (intro outside.host_rules outside_debug)
  from withinD [OF this assms] have "world0.more w1 = world0.more w" .
  then have "owns_attachment w1 = owns_attachment w \<and> server w1 = server w \<and> metadata w1 = metadata w"
    by (cases w; cases w1) (simp add: world0.defs)
  then show ?thesis using ev assms by (simp add: execute_finally_def act_simps)
qed

theorem failed_diagnostics_skip_cleanup_witness:
  "let w = (attached_run [])\<lparr>host := sample_host\<lparr>nodes := [([''tmp''], Dir)]\<rparr>\<rparr>;
       out = execute_finally quiet w in
   owns_attachment (snd out) \<and> fst out \<noteq> Ret ()"
proof -
  let ?w = "(attached_run [])\<lparr>host := sample_host\<lparr>nodes := [([''tmp''], Dir)]\<rparr>\<rparr>"
  have "fst (cleanup_debug quiet ?w) = Exn (OSError ENOENT ''/out/collect-debug-error.txt'')"
    by code_simp
  then have "cleanup_debug quiet ?w = (Exn (OSError ENOENT ''/out/collect-debug-error.txt''),
      snd (cleanup_debug quiet ?w))" by (metis prod.collapse)
  from failed_diagnostics_skip_cleanup [OF this] show ?thesis
    by (simp add: Let_def attached_run_def)
qed

end
