(* ===== verification/ExecuteFacts.thy ===== *)
theory ExecuteFacts
  imports CleanupFacts
begin

section \<open>The run as a whole\<close>

text \<open>
  What \<open>execute\<close> returns and records on every path, which exceptions can leave it, what a run
  that is refused the lock or only builds does to the host, and what has been established when
  the caller's command is started.
\<close>

subsection \<open>The status\<close>

definition handled_try :: "env \<Rightarrow> (harness_state, unit) act" where
  "handled_try E = catchA (execute_try E) execute_handler"

lemma execute_steps:
  assumes "execute E w = (Ret n, w')"
  obtains w1 w2 where "execute_setup E (w\<lparr>result := 1, cur_phase := Setup, failure := None\<rparr>) = (Ret (), w1)"
    "handled_try E w1 = (Ret (), w2)" "execute_finally E w2 = (Ret (), w')" "n = result w'"
proof -
  obtain w1 where s: "execute_setup E (w\<lparr>result := 1, cur_phase := Setup, failure := None\<rparr>) = (Ret (), w1)"
    and f: "finallyA (handled_try E) (execute_finally E) w1 = (Ret (), w')" and n: "n = result w'"
    using assms by (auto simp: execute_def handled_try_def elim!: thenA_RetE)
  show ?thesis
  proof (cases rule: outcome_cases [of "handled_try E" w1])
    case (Ret u w2)
    then show ?thesis
      using s f n that by (auto simp: finallyA_def split: prod.splits outcome.splits)
  qed (use f in \<open>auto simp: finallyA_def split: prod.splits outcome.splits\<close>)
qed

text \<open>Before the test, nothing writes the result or the failure message.\<close>

definition run_result :: "harness_state \<Rightarrow> int \<times> string option" where
  "run_result w = (result w, failure w)"

interpretation result_same: phase_client "\<lambda>w w'. run_result w' = run_result w" "\<lambda>_. True"
  by unfold_locales (auto simp: run_result_def)

lemma result_same_setup: "within (\<lambda>w w'. run_result w' = run_result w) (execute_setup E)"
  by (rule result_same.within_execute_setup) simp_all

lemma result_same_prepare: "within (\<lambda>w w'. run_result w' = run_result w) (prepare_phases E)"
  by (rule result_same.within_prepare_phases) simp_all

lemma result_same_device: "within (\<lambda>w w'. run_result w' = run_result w) (device_phases E)"
  by (intro result_same.within_device_phases result_same.within_prepare_host
      result_same.within_start_server result_same.within_attach) simp_all

lemma result_same_test: "within (\<lambda>w w'. run_status w' = run_status w) (run_test E ready)"
  by (rule status_same.within_run_test) simp_all

lemma device_phases_phase:
  "device_phases E w = (Ret ready, w') \<Longrightarrow> cur_phase w' = Test"
  by (auto simp: device_phases_def enter_def elim!: thenA_RetE bindA_RetE)

lemma prepare_phases_phase:
  assumes "prepare_phases E w = (Ret b, w')"
  shows "cur_phase w' = phase.Build"
proof -
  obtain w1 w2 :: harness_state where "build E (w1\<lparr>cur_phase := phase.Build\<rparr>) = (Ret b, w2)"
    and w': "cur_phase w' = cur_phase w2"
    using assms
    by (auto simp: prepare_phases_def enter_def set_metadata_def elim!: thenA_RetE bindA_RetE)
  have "within (\<lambda>w w'. run_status w' = run_status w) (build E)"
    by (rule status_same.within_build) simp
  from withinD [OF this \<open>build E _ = _\<close>] w' show ?thesis by (simp add: run_status_def)
qed

lemma run_fixed_setup: "within (\<lambda>w w'. run_config w' = run_config w) (execute_setup E)"
  by (rule run_fixed.within_execute_setup) simp_all

text \<open>How the body of the \<open>try\<close> sets the status when it returns.\<close>

lemma execute_try_Ret:
  assumes "execute_try E w = (Ret (), w')" "run_result w = (1, None)"
  shows "run_status w' = (0, phase.Build, None) \<and> build_only (opts w)
    \<or> (\<exists>ready rc wt wt'. run_test E ready wt = (Ret rc, wt')
         \<and> run_status w' = (rc, Test, if rc = 0 then None
             else Some (''test command exited with '' @ show_int rc))
         \<and> \<not> build_only (opts w))"
proof -
  obtain b w1 where p: "prepare_phases E w = (Ret b, w1)"
    and rest: "(if build_only (opts w1) then thenA (set_result 0) (printA (path_str b))
      else run_phases E) w1 = (Ret (), w')"
    using assms(1) by (auto simp: execute_try_def elim!: bindA_RetE)
  have fixed: "run_config w1 = run_config w"
    by (rule withinD [OF run_fixed.within_prepare_phases p]) simp_all
  have res: "run_result w1 = (1, None)" using withinD [OF result_same_prepare p] assms(2) by simp
  show ?thesis
  proof (cases "build_only (opts w1)")
    case True
    then show ?thesis
      using rest res prepare_phases_phase [OF p] fixed
      by (auto simp: set_result_def printA_def run_status_def run_result_def run_config_def)
  next
    case False
    then obtain ready w2 rc w3 where d: "device_phases E w1 = (Ret ready, w2)"
      and t: "run_test E ready w2 = (Ret rc, w3)"
      and fin: "thenA (set_result rc) (whenA (rc \<noteq> 0) (set_failure
        (''test command exited with '' @ show_int rc))) w3 = (Ret (), w')"
      using rest by (auto simp: run_phases_def test_phase_def elim!: bindA_RetE)
    have "run_status w3 = (1, Test, None)"
      using withinD [OF result_same_device d] withinD [OF result_same_test t] res
        device_phases_phase [OF d] by (simp add: run_status_def run_result_def)
    then have "run_status w' = (rc, Test, if rc = 0 then None
        else Some (''test command exited with '' @ show_int rc))"
      using fin by (auto simp: set_result_def set_failure_def whenA_def run_status_def split: if_splits)
    then show ?thesis using t False fixed by (auto simp: run_config_def)
  qed
qed

text \<open>The two clauses: a phase error sets all three parts, any other handled error the last two.\<close>

lemma handled_try_Exn:
  assumes "execute_try E w = (Exn e, w1)" "handled_try E w = (Ret (), w')"
  shows "case e of
      PhaseError p m code \<Rightarrow> run_status w' = (code, p, Some m)
    | _ \<Rightarrow> (is_harness_error e \<or> is_os_error e \<or> is_timeout e)
        \<and> run_status w' = (1, cur_phase w1, Some (exn_str e))"
  using assms
  by (cases e)
    (auto simp: handled_try_def execute_handler_def evaluate_catchA evaluate_clauses evaluate_thenA handle_other_def
      enter_def set_result_def set_failure_def printA_def run_status_def)

text \<open>The status that the outcome of the \<open>try\<close> body calls for.\<close>

definition status_of_try :: "env \<Rightarrow> harness_state \<Rightarrow> int \<times> phase \<times> string option \<Rightarrow> bool" where
  "status_of_try E w st \<longleftrightarrow> (case execute_try E w of
       (Ret _, _) \<Rightarrow>
         (if build_only (opts w) then st = (0, phase.Build, None)
          else \<exists>ready rc wt wt'. run_test E ready wt = (Ret rc, wt')
            \<and> st = (rc, Test, if rc = 0 then None
                else Some (''test command exited with '' @ show_int rc)))
     | (Exn (PhaseError p m code), _) \<Rightarrow> st = (code, p, Some m)
     | (Exn e, w') \<Rightarrow> st = (1, cur_phase w', Some (exn_str e))
     | (Blocked, _) \<Rightarrow> False)"

lemma handled_try_status:
  assumes "handled_try E w = (Ret (), w')" "run_result w = (1, None)"
  shows "status_of_try E w (run_status w')"
proof (cases rule: outcome_cases [of "execute_try E" w])
  case (Ret u w1)
  then have t: "execute_try E w = (Ret (), w')"
    using assms(1) by (simp add: handled_try_def act_simps)
  show ?thesis
  proof (cases "build_only (opts w)")
    case True
    then show ?thesis using execute_try_Ret [OF t assms(2)] by (simp add: status_of_try_def t)
  next
    case False
    then have "\<exists>ready rc wt wt'. run_test E ready wt = (Ret rc, wt')
        \<and> run_status w' = (rc, Test, if rc = 0 then None
            else Some (''test command exited with '' @ show_int rc))"
      using execute_try_Ret [OF t assms(2)] by blast
    then show ?thesis
      by (simp only: status_of_try_def t prod.case outcome.case False if_False)
  qed
next
  case (Exn e w1)
  from handled_try_Exn [OF this assms(1)] Exn show ?thesis
    by (cases e) (simp_all add: status_of_try_def)
next
  case (Blocked w1)
  then show ?thesis using assms(1) by (simp add: handled_try_def act_simps)
qed

text \<open>The other two outcomes of the handled body: an exception no clause names, or a body that waits
  for ever.\<close>

lemma handled_try_escapes:
  assumes "handled_try E w = (Exn e, w')"
  shows "execute_handler e = None \<and> execute_try E w = (Exn e, w')"
proof (cases rule: outcome_cases [of "execute_try E" w])
  case (Exn e1 w1)
  then show ?thesis
    using assms
    by (cases e1)
      (auto simp: handled_try_def execute_handler_def evaluate_catchA evaluate_clauses evaluate_thenA
        handle_other_def enter_def set_result_def set_failure_def printA_def split: if_splits)
qed (use assms in \<open>auto simp: handled_try_def evaluate_catchA\<close>)

lemma handled_try_blocks:
  assumes "handled_try E w = (Blocked, w')"
  shows "execute_try E w = (Blocked, w')"
proof (cases rule: outcome_cases [of "execute_try E" w])
  case (Exn e1 w1)
  then show ?thesis
    using assms
    by (cases e1)
      (auto simp: handled_try_def execute_handler_def evaluate_catchA evaluate_clauses evaluate_thenA
        handle_other_def enter_def set_result_def set_failure_def printA_def split: if_splits)
qed (use assms in \<open>auto simp: handled_try_def evaluate_catchA\<close>)

text \<open>The state in which the \<open>try\<close> begins, and what can leave \<open>execute\<close> other than by return.\<close>

definition entered :: "harness_state \<Rightarrow> harness_state" where
  "entered w = w\<lparr>result := 1, cur_phase := Setup, failure := None\<rparr>"

lemma finally_cases:
  obtains (Ret) w' where "execute_finally E w = (Ret (), w')"
    | (Exn) e w' where "execute_finally E w = (Exn e, w')" "is_os_error e"
proof (cases rule: outcome_cases [of "execute_finally E" w])
  case (Exn e w')
  then show ?thesis using endsD_Exn [OF ends_execute_finally] that(2) by blast
next
  case (Blocked w')
  then show ?thesis using endsD_Blocked [OF ends_execute_finally] by blast
qed (use that(1) in simp)

lemma execute_escapes:
  assumes "execute E w = (Exn e, w')"
  shows "fst (execute_setup E (entered w)) = Exn e \<or> is_os_error e
    \<or> execute_handler e = None \<and> (\<exists>w1. execute_setup E (entered w) = (Ret (), w1)
        \<and> fst (execute_try E w1) = Exn e)"
proof (cases rule: outcome_cases [of "execute_setup E" "entered w"])
  case (Ret u w1)
  then have f: "finallyA (handled_try E) (execute_finally E) w1 = (Exn e, w')"
    using assms by (auto simp: execute_def handled_try_def entered_def evaluate_thenA
        split: prod.splits outcome.splits)
  have "is_os_error e \<or> handled_try E w1 = (Exn e, snd (handled_try E w1))"
  proof (cases rule: outcome_cases [of "handled_try E" w1])
    case (Ret u w2)
    show ?thesis by (rule finally_cases [of E w2]) (use Ret f in \<open>auto simp: act_simps\<close>)
  next
    case (Exn e1 w2)
    show ?thesis by (rule finally_cases [of E w2]) (use Exn f in \<open>auto simp: act_simps\<close>)
  qed (use f in \<open>auto simp: act_simps\<close>)
  then have "is_os_error e \<or> execute_handler e = None \<and> execute_try E w1 = (Exn e, snd (handled_try E w1))"
    using handled_try_escapes by blast
  then show ?thesis using Ret by auto
qed (use assms in \<open>auto simp: execute_def entered_def evaluate_thenA\<close>)

lemma execute_blocks:
  assumes "execute E w = (Blocked, w')"
  shows "fst (execute_setup E (entered w)) = Blocked
    \<or> (\<exists>w1. execute_setup E (entered w) = (Ret (), w1) \<and> fst (execute_try E w1) = Blocked)"
proof (cases rule: outcome_cases [of "execute_setup E" "entered w"])
  case (Ret u w1)
  then have f: "finallyA (handled_try E) (execute_finally E) w1 = (Blocked, w')"
    using assms by (auto simp: execute_def handled_try_def entered_def evaluate_thenA
        split: prod.splits outcome.splits)
  have "execute_try E w1 = (Blocked, snd (handled_try E w1))"
  proof (rule handled_try_blocks)
    show "handled_try E w1 = (Blocked, snd (handled_try E w1))"
    proof (cases rule: outcome_cases [of "handled_try E" w1])
      case (Ret u w2)
      show ?thesis by (rule finally_cases [of E w2]) (use Ret f in \<open>auto simp: act_simps\<close>)
    next
      case (Exn e1 w2)
      show ?thesis by (rule finally_cases [of E w2]) (use Exn f in \<open>auto simp: act_simps\<close>)
    qed (use f in \<open>auto simp: act_simps\<close>)
  qed
  then show ?thesis using Ret by auto
qed (use assms in \<open>auto simp: execute_def entered_def evaluate_thenA\<close>)

lemma execute_returns:
  assumes "execute E w = (Ret n, w')"
  shows "\<exists>w1 st. execute_setup E (entered w) = (Ret (), w1) \<and> status_of_try E w1 st \<and> n = result w' \<and>
    (run_status w' = st \<or> (fst st = 0 \<and> (\<exists>m. run_status w' = (1, Cleanup, Some m))))"
proof -
  obtain w1 w2 where s: "execute_setup E (entered w) = (Ret (), w1)"
    and h: "handled_try E w1 = (Ret (), w2)"
    and f: "execute_finally E w2 = (Ret (), w')" and n: "n = result w'"
    using assms unfolding entered_def by (rule execute_steps)
  have "run_result w1 = (1, None)"
    using withinD [OF result_same_setup s] by (simp add: run_result_def entered_def)
  with h have "status_of_try E w1 (run_status w2)" by (rule handled_try_status)
  moreover have "status_kept w2 w'" using status_finally [of w2 E] f by simp
  ultimately show ?thesis
    using n s
    by (intro exI [of _ w1], intro exI [of _ "run_status w2"])
      (auto simp: status_kept_def run_status_def)
qed

text \<open>C1. How \<open>execute\<close> ends. It returns the status that the outcome of the phases calls for: 0
  after a successful build-only run; the exit status of the caller's command, unchanged, after a run
  that came to the test; the code and phase of a phase error; 1 in the phase it occurred for any
  other handled error. A cleanup error is only visible in a run that would have returned 0, which
  then returns 1 in the phase \<open>cleanup\<close>. An exception leaves it only from the setup before the
  \<open>try\<close>, from the phases when no \<open>except\<close> clause names it, or as an \<open>OSError\<close> of the cleanup, and
  it never waits for ever in the cleanup.\<close>

theorem execute_status:
  "case execute E w of
     (Ret n, w') \<Rightarrow> \<exists>w1 st. execute_setup E (entered w) = (Ret (), w1) \<and> status_of_try E w1 st
       \<and> n = result w'
       \<and> (run_status w' = st \<or> (fst st = 0 \<and> (\<exists>m. run_status w' = (1, Cleanup, Some m))))
   | (Exn e, _) \<Rightarrow> fst (execute_setup E (entered w)) = Exn e \<or> is_os_error e
       \<or> execute_handler e = None \<and> (\<exists>w1. execute_setup E (entered w) = (Ret (), w1)
           \<and> fst (execute_try E w1) = Exn e)
   | (Blocked, _) \<Rightarrow> fst (execute_setup E (entered w)) = Blocked
       \<or> (\<exists>w1. execute_setup E (entered w) = (Ret (), w1) \<and> fst (execute_try E w1) = Blocked)"
proof (cases rule: outcome_cases [of "execute E" w])
  case (Ret n w')
  show ?thesis using execute_returns [OF Ret] by (simp add: Ret)
next
  case (Exn e w')
  show ?thesis using execute_escapes [OF Exn] by (simp add: Exn)
next
  case (Blocked w')
  show ?thesis using execute_blocks [OF Blocked] by (simp add: Blocked)
qed

end
