(* ===== verification/CoreFacts.thy ===== *)
theory CoreFacts
  imports CleanupFacts
begin

section \<open>What selecting the core guarantees\<close>

text \<open>
  The release map as a lookup table and its inverse, the USB identity read from the descriptor
  header, the allow-listed patches, the snapshot of a local tree, and the core that
  \<open>resolve_core\<close> returns.
\<close>

subsection \<open>The release map\<close>

text \<open>The table a catalog document stands for: identifiers and commits, in order.\<close>

definition release_table :: "json \<Rightarrow> (string \<times> string) list \<Rightarrow> bool" where
  "release_table catalog table \<longleftrightarrow>
     (\<exists>ms. json_get catalog ''release_mappings'' = Inr (JList ms)
       \<and> list_all2 (\<lambda>m (i, c). json_get m ''id'' = Inr (JStr i)
            \<and> json_get m ''core_commit'' = Inr (JStr c)) ms table)"

lemma first_mapping_table:
  assumes "list_all2 (\<lambda>m (k, v). json_get m key = Inr (JStr k) \<and> json_get m field = Inr (JStr v)) ms table"
  shows "first_mapping key field wanted ms = Inr (map_of table wanted)"
  using assms by (induction rule: list_all2_induct) auto

text \<open>C26. On a catalog whose release mappings are a table of strings, the two lookups of the code are
  lookups in that table, first match first: the commit to fetch for a version, and the version of a
  fetched commit. If no version and no commit occurs twice, they are inverse to each other, so a run
  started with a version reports that version for the commit it fetched.\<close>

theorem release_lookup_roundtrip:
  assumes "release_table catalog table"
  shows "release_lookup ''id'' ''core_commit'' v catalog = Inr (map_of table v)
    \<and> release_lookup ''core_commit'' ''id'' c catalog = Inr (map_of (map prod.swap table) c)
    \<and> (distinct (map fst table) \<and> distinct (map snd table) \<longrightarrow>
        (release_lookup ''id'' ''core_commit'' v catalog = Inr (Some c)
          \<longleftrightarrow> release_lookup ''core_commit'' ''id'' c catalog = Inr (Some v)))"
proof -
  obtain ms where ms: "json_get catalog ''release_mappings'' = Inr (JList ms)"
    and t: "list_all2 (\<lambda>m (i, c). json_get m ''id'' = Inr (JStr i)
            \<and> json_get m ''core_commit'' = Inr (JStr c)) ms table"
    using assms by (auto simp: release_table_def)
  have swapped: "list_all2 (\<lambda>m (k, v). json_get m ''core_commit'' = Inr (JStr k)
      \<and> json_get m ''id'' = Inr (JStr v)) ms (map prod.swap table)"
    using t by (auto simp: list_all2_conv_all_nth split: prod.splits)
  have forward: "release_lookup ''id'' ''core_commit'' v catalog = Inr (map_of table v)"
    and reverse: "release_lookup ''core_commit'' ''id'' c catalog = Inr (map_of (map prod.swap table) c)"
    using ms first_mapping_table [OF t] first_mapping_table [OF swapped]
    by (simp_all add: release_lookup_def json_iter_def)
  moreover have "map_of table v = Some c \<longleftrightarrow> map_of (map prod.swap table) c = Some v"
    if "distinct (map fst table)" "distinct (map snd table)"
  proof -
    have "distinct (map fst (map prod.swap table))" using that(2) by (simp add: comp_def)
    with that(1) show ?thesis by (force simp: map_of_eq_Some_iff)
  qed
  ultimately show ?thesis by simp
qed

theorem release_lookup_roundtrip_witness:
  "let catalog = JObj [(''release_mappings'', JList
       [JObj [(''id'', JStr ''3.1.0''), (''core_commit'', JStr ''cafe'')],
        JObj [(''id'', JStr ''2.0.0''), (''core_commit'', JStr ''beef'')]])]
   in release_lookup ''core_commit'' ''id'' ''beef'' catalog = Inr (Some ''2.0.0'')"
proof -
  let ?catalog = "JObj [(''release_mappings'', JList
       [JObj [(''id'', JStr ''3.1.0''), (''core_commit'', JStr ''cafe'')],
        JObj [(''id'', JStr ''2.0.0''), (''core_commit'', JStr ''beef'')]])]"
  have "release_table ?catalog [(''3.1.0'', ''cafe''), (''2.0.0'', ''beef'')]"
    by (simp add: release_table_def json_get_def)
  from release_lookup_roundtrip [OF this, of "''2.0.0''" "''beef''"] show ?thesis
    by (simp add: Let_def)
qed

subsection \<open>The USB identity\<close>

definition lower_hex :: "char \<Rightarrow> bool" where
  "lower_hex c \<longleftrightarrow> is_hex c \<and> lower_char c = c"

lemma hex4_digits: "c \<in> set (hex4 n) \<Longrightarrow> lower_hex c"
proof -
  have "list_all (\<lambda>d. lower_hex (digit_char d)) [0..<16]" by code_simp
  then have d: "d < 16 \<Longrightarrow> lower_hex (digit_char d)" for d
    by (simp add: list_all_iff)
  have zero: "lower_hex (CHR ''0'')" by code_simp
  assume "c \<in> set (hex4 n)"
  then consider "c = CHR ''0''" | "c \<in> set (to_base 16 n)"
    by (auto simp: hex4_def zero_pad_def)
  then show "lower_hex c"
  proof cases
    case 2
    show ?thesis by (rule set_to_base [OF _ _ 2]) (simp_all add: d)
  qed (simp add: zero)
qed

lemma macro_value_Inr:
  "macro_value d content name = Inr v \<longleftrightarrow>
     (\<exists>token n. search_define name content = Some token \<and> int_base0 token = Some n \<and> v = hex4 n)"
  by (auto simp: macro_value_def split: option.splits)

text \<open>C27. The USB identity of a core: the fixed pair for a tree with the Rust interface; otherwise, for
  both macros of the descriptor header, the lower-case hexadecimal text of the number the macro
  defines, from which the number can be read back, with four digits exactly if it fits in 16 bits.
  The tree is not changed.\<close>

theorem core_usb_identity_reads_macros:
  assumes "core_usb_identity d w = (Ret (vid, pid), w')"
  shows "w' = w \<and>
    (if is_file (host w) (d @ RUST_MARKER) then vid = DEFAULT_VID \<and> pid = DEFAULT_PID
     else \<exists>content vt v pt p. read_opt (host w) (d @ DESCRIPTOR) = Some content
       \<and> search_define ''USBD_VID'' content = Some vt \<and> int_base0 vt = Some v
       \<and> search_define ''USBD_PID'' content = Some pt \<and> int_base0 pt = Some p
       \<and> of_base 16 vid = v \<and> of_base 16 pid = p
       \<and> list_all lower_hex (vid @ pid)
       \<and> (length vid = 4 \<longleftrightarrow> v < 65536) \<and> (length pid = 4 \<longleftrightarrow> p < 65536))"
proof (cases "is_file (host w) (d @ RUST_MARKER)")
  case True
  then show ?thesis using assms by (simp add: core_usb_identity_def askH_def)
next
  case False
  then obtain content where content: "read_opt (host w) (d @ DESCRIPTOR) = Some content"
    and same: "w' = w" and ids: "descriptor_identity (d @ DESCRIPTOR) content = Inr (vid, pid)"
    using assms
    by (auto simp: core_usb_identity_def askH_def read_text_def read_content_def read_opt_def
        liftE_def bindA_def catchA_def onA_def raiseA_def retA_def getsA_def Let_def
        split: sum.splits prod.splits outcome.splits if_splits)
  have len: "length (hex4 n) = 4 \<longleftrightarrow> n < 65536" for n
    using length_to_base [of 16 4 n] by (auto simp: hex4_def length_zero_pad max_def)
  from ids obtain vt v pt p where
    "search_define ''USBD_VID'' content = Some vt" "int_base0 vt = Some v" "vid = hex4 v"
    "search_define ''USBD_PID'' content = Some pt" "int_base0 pt = Some p" "pid = hex4 p"
    by (auto simp: descriptor_identity_def bindE_Inr_conv macro_value_Inr)
  then show ?thesis
    using content same False len hex4_digits by (auto simp: hex4_roundtrip list_all_iff)
qed

text \<open>A tree whose header defines the two macros.\<close>

definition header_world :: "string \<Rightarrow> string \<Rightarrow> world0" where
  "header_world vid pid = \<lparr>host = plain_host [(''core'' # DESCRIPTOR, File (Text
     (''#define USBD_VID '' @ vid @ [newline] @ ''  # define USBD_PID '' @ pid @ [newline])))] []\<rparr>"

theorem core_usb_identity_reads_macros_witness:
  "\<exists>vid pid. fst (core_usb_identity [''core''] (header_world ''0x20A0'' ''17108'')) = Ret (vid, pid)
     \<and> of_base 16 pid = 17108 \<and> length pid = 4"
proof -
  let ?w = "header_world ''0x20A0'' ''17108''"
  have run: "core_usb_identity [''core''] ?w = (Ret (''20a0'', ''42d4''), ?w)"
    by code_simp
  have "\<not> is_file (host ?w) ([''core''] @ RUST_MARKER)"
    "read_opt (host ?w) ([''core''] @ DESCRIPTOR)
      = Some (''#define USBD_VID 0x20A0'' @ [newline] @ ''  # define USBD_PID 17108'' @ [newline])"
    "search_define ''USBD_PID'' (''#define USBD_VID 0x20A0'' @ [newline]
      @ ''  # define USBD_PID 17108'' @ [newline]) = Some ''17108''"
    "int_base0 ''17108'' = Some 17108"
    by code_simp+
  then show ?thesis
    using core_usb_identity_reads_macros [OF run] run by (auto simp del: append_Cons)
qed

text \<open>A macro written with a leading zero, which C reads as an octal number and Python's
  \<open>int(text, 0)\<close> refuses, ends the resolution with a \<open>ValueError\<close> that is no phase error: no
  \<open>except\<close> clause of \<open>execute\<close> names it, so it leaves the run as a traceback.\<close>

lemma octal_macro_escapes:
  "\<exists>e. fst (core_usb_identity [''core''] (header_world ''0x20A0'' ''0042'')) = Exn e
     \<and> is_value_error e \<and> execute_handler e = None"
proof -
  have "fst (core_usb_identity [''core''] (header_world ''0x20A0'' ''0042''))
      = Exn (ValueError (''invalid literal for int() with base 0: '' @ py_repr ''0042''))"
    by code_simp
  then show ?thesis
    by (simp add: execute_handler_def evaluate_clauses)
qed

subsection \<open>Compatibility patches\<close>

lemma apply_patch_Ret:
  assumes "apply_patch E dir d name w = (Ret x, w')"
  shows "(if patch_present (host w) d name then x = None \<and> w' = w
      else x = Some name \<and> trace (host w') = trace (host w) @
        [EvRun [''git'', ''apply'', ''--whitespace=nowarn'', path_str (dir @ [name])]])"
  using assms
  by (auto simp: apply_patch_def askH_def catchA_def onA_def dest!: run_command_logged
      elim!: thenA_RetE split: if_splits prod.splits outcome.splits)

text \<open>The patch commands of a list of patches.\<close>

definition patch_event :: "path \<Rightarrow> string \<Rightarrow> event" where
  "patch_event dir name = EvRun [''git'', ''apply'', ''--whitespace=nowarn'', path_str (dir @ [name])]"

lemma apply_patches_Ret:
  assumes "mapA (apply_patch E dir d) names w = (Ret xs, w')"
  shows "subseq (List.map_filter (\<lambda>x. x) xs) names
    \<and> trace (host w') = trace (host w) @ map (patch_event dir) (List.map_filter (\<lambda>x. x) xs)"
  using assms
proof (induction names arbitrary: w xs)
  case Nil
  then show ?case by (simp add: List.map_filter_def)
next
  case (Cons name names)
  then obtain x w1 ys where one: "apply_patch E dir d name w = (Ret x, w1)"
    and rest: "mapA (apply_patch E dir d) names w1 = (Ret ys, w')" and xs: "xs = x # ys"
    by (auto elim!: bindA_RetE)
  from Cons.IH [OF rest] apply_patch_Ret [OF one] show ?case
    by (cases x) (auto simp: xs List.map_filter_def patch_event_def split: if_splits)
qed

text \<open>C28. A successful application of the compatibility patches runs one \<open>git apply\<close> for every patch it
  returns, in that order, and nothing else; the patches are some of those listed for exactly this
  commit, in the listed order, so an unlisted commit is left alone.\<close>

theorem compatibility_patches_applied:
  assumes "apply_core_compatibility E d sha w = (Ret applied, w')"
  shows "subseq applied (patches_for sha)
    \<and> trace (host w') = trace (host w)
        @ map (patch_event (repo_dir (opts w) @ [''compat'', ''patches''])) applied
    \<and> (map_of CORE_COMPAT_PATCHES sha = None \<longrightarrow> applied = [] \<and> w' = w)"
proof -
  let ?dir = "repo_dir (opts w) @ [''compat'', ''patches'']"
  obtain xs where xs: "mapA (apply_patch E ?dir d) (patches_for sha) w = (Ret xs, w')"
    and applied: "applied = List.map_filter (\<lambda>x. x) xs"
    using assms by (auto simp: apply_core_compatibility_def elim!: bindA_RetE)
  have "map_of CORE_COMPAT_PATCHES sha = None \<Longrightarrow> applied = [] \<and> w' = w"
    using xs applied by (simp add: patches_for_def List.map_filter_def)
  with apply_patches_Ret [OF xs] show ?thesis by (simp add: applied)
qed

theorem compatibility_patches_applied_witness:
  "trace (host (snd (apply_core_compatibility quiet [''core'']
       ''a349b268e12953dd85169e9649091c4f91ce7c68'' sample_run)))
     = [patch_event [''repo'', ''compat'', ''patches''] ''core-3.1.0-fabrication.patch'']"
proof -
  let ?r = "apply_core_compatibility quiet [''core''] ''a349b268e12953dd85169e9649091c4f91ce7c68'' sample_run"
  have "fst ?r = Ret [''core-3.1.0-fabrication.patch'']" by code_simp
  then have "?r = (Ret [''core-3.1.0-fabrication.patch''], snd ?r)" by (metis prod.collapse)
  from compatibility_patches_applied [OF this] show ?thesis by (simp add: sample_defs)
qed

subsection \<open>The snapshot of a local tree\<close>

lemma map_of_copied:
  assumes "\<forall>(p, n) \<in> set xs. Q p \<longrightarrow> strict_prefix source p"
  shows "r \<noteq> [] \<Longrightarrow> map_of (map (\<lambda>(p, n). (destination @ drop (length source) p, n))
      (filter (\<lambda>(p, _). Q p) xs)) (destination @ r)
    = (if Q (source @ r) then map_of xs (source @ r) else None)"
  using assms
proof (induction xs)
  case (Cons x xs)
  obtain p n where x: "x = (p, n)" by fastforce
  have "drop (length source) p = r \<longleftrightarrow> p = source @ r" if "Q p"
    using Cons.prems(2) that x by (auto elim!: strict_prefixE')
  then show ?case using Cons x by auto
qed simp

lemma mkdir_chain_nodes:
  "mkdir_chain ps h = (r, h') \<Longrightarrow>
     (node_at h q \<noteq> None \<longrightarrow> node_at h' q = node_at h q)
     \<and> (node_at h q = None \<longrightarrow> q \<notin> set ps \<longrightarrow> node_at h' q = None)"
proof (induction ps h arbitrary: r h' rule: mkdir_chain.induct)
  case (2 p ps h)
  then show ?case
    by (fastforce simp: node_at_def put_node_def update_conv' split: option.splits node.splits if_splits)
qed simp


definition tree_world :: world0 where
  "tree_world = \<lparr>host = plain_host [([''core''], Dir), ([''core'', ''build''], Dir),
     ([''core'', ''build'', ''a.o''], File (Text ''x'')), ([''core'', ''src''], Dir),
     ([''core'', ''src'', ''a.c''], File (Text ''int a;''))] []\<rparr>"


subsection \<open>The resolved core\<close>

lemma finish_core_Ret:
  assumes "finish_core E d sha ref dirty w = (Ret c, w')"
  shows "cs_path c = d \<and> cs_sha c = sha \<and> cs_ref c = ref \<and> cs_dirty c = dirty
    \<and> set (cs_patches c) \<subseteq> set (patches_for sha)
    \<and> (\<exists>doc. read_result (host w') (catalog_path (opts w')) = Inr (Doc doc)
         \<and> release_lookup ''core_commit'' ''id'' sha doc = Inr (cs_firmware_version c))"
proof -
  obtain applied w1 vid pid w2 version where a: "apply_core_compatibility E d sha w = (Ret applied, w1)"
    and i: "core_usb_identity d w1 = (Ret (vid, pid), w2)"
    and v: "firmware_version_for_sha sha w2 = (Ret version, w')"
    and c: "c = \<lparr>cs_path = d, cs_sha = sha, cs_ref = ref, cs_dirty = dirty,
         cs_patches = applied, cs_usb_vid = vid, cs_usb_pid = pid, cs_firmware_version = version\<rparr>"
    using assms by (auto simp: finish_core_def elim!: bindA_RetE)
  obtain xs dir where "mapA (apply_patch E dir d) (patches_for sha) w = (Ret xs, w1)"
    "applied = List.map_filter (\<lambda>x. x) xs"
    using a by (auto simp: apply_core_compatibility_def elim!: bindA_RetE)
  then have "subseq applied (patches_for sha)" using apply_patches_Ret by blast
  then have "set applied \<subseteq> set (patches_for sha)" by (auto dest: list_emb_set)
  moreover obtain doc where "read_result (host w') (catalog_path (opts w')) = Inr (Doc doc)"
    "release_lookup ''core_commit'' ''id'' sha doc = Inr version"
    using v
    by (auto simp: firmware_version_for_sha_def read_json_def read_content_def askH_def liftE_def
        elim!: bindA_RetE split: sum.splits content.splits)
  ultimately show ?thesis by (auto simp: c)
qed

lemma run_fixed_resolve: "within (\<lambda>w w'. run_config w' = run_config w) (resolve_core E)"
  by (rule run_fixed.within_resolve_core) simp

lemma fetch_core_Ret:
  assumes "fetch_core E d ref w = (Ret c, w')"
  shows "\<exists>sha w1. finish_core E d sha ref False w1 = (Ret c, w')"
  using assms by (auto simp: fetch_core_def Let_def elim!: bindA_RetE thenA_RetE)

lemma snapshot_core_Ret:
  assumes "snapshot_core E d source ref w = (Ret c, w')"
  shows "\<exists>sha dirty w1. finish_core E d sha ref dirty w1 = (Ret c, w')"
  using assms by (auto simp: snapshot_core_def elim!: bindA_RetE thenA_RetE)

text \<open>C25. The core that \<open>resolve_core\<close> returns lies in the run's workspace, carries the requested
  reference, or the label of the local tree it was copied from, and the version that the release map
  of the repository gives for its commit; a fetched core is never dirty, and only patches listed for
  its commit were applied. Only \<open>git\<close> was run, and the options of the run are as before.\<close>

theorem resolve_core_result:
  fixes w w' :: harness_state
  assumes "resolve_core E w = (Ret c, w')"
  shows "cs_path c = workspace w @ [''core''] \<and> cs_ref c = requested_label (opts w)
    \<and> (requested_ref (opts w) \<noteq> None \<longrightarrow> \<not> cs_dirty c)
    \<and> set (cs_patches c) \<subseteq> set (patches_for (cs_sha c))
    \<and> (\<exists>doc. read_result (host w') (catalog_path (opts w)) = Inr (Doc doc)
         \<and> release_lookup ''core_commit'' ''id'' (cs_sha c) doc = Inr (cs_firmware_version c))
    \<and> host_evolves (\<lambda>ev. \<exists>args. ev = EvRun (''git'' # args)) (host w) (host w')
    \<and> run_config w' = run_config w"
proof -
  have cfg: "run_config w' = run_config w" by (rule withinD [OF run_fixed_resolve assms])
  then have opts: "opts w' = opts w" by (simp add: run_config_def)
  have "within (evolves_le (\<lambda>ev. \<exists>args. ev = EvRun (''git'' # args)))
      (resolve_core E :: (harness_state, core_source) act)"
    by (rule run_evolving.within_resolve_core) blast
  from withinD [OF this assms]
  have ev: "host_evolves (\<lambda>ev. \<exists>args. ev = EvRun (''git'' # args)) (host w) (host w')" .
  obtain sha dirty w1 where "finish_core E (workspace w @ [''core'']) sha
      (requested_label (opts w)) dirty w1 = (Ret c, w')"
    and "requested_ref (opts w) \<noteq> None \<longrightarrow> \<not> dirty"
  proof (cases "requested_ref (opts w)")
    case None
    then obtain source where "snapshot_core E (workspace w @ [''core'']) source
        (requested_label (opts w)) w = (Ret c, w')"
      using assms by (auto simp: resolve_core_def requested_label_def)
    from snapshot_core_Ret [OF this] None show ?thesis using that by auto
  next
    case (Some ref)
    then have "fetch_core E (workspace w @ [''core'']) ref w = (Ret c, w')"
      using assms by (auto simp: resolve_core_def)
    from fetch_core_Ret [OF this] Some show ?thesis using that by (auto simp: requested_label_def)
  qed
  with finish_core_Ret [of E "workspace w @ [''core'']" sha "requested_label (opts w)" dirty w1 c w']
  show ?thesis using cfg ev by (auto simp: opts)
qed

text \<open>A run whose local core tree can be copied.\<close>

definition local_run :: harness_state where
  "local_run = init_harness (plain_host
     [([''tmp''], Dir), ([''tmp'', ''canokey-usbip''], Dir), ([''tmp'', ''canokey-usbip'', ''r1''], Dir),
      ([''core''], Dir), ([''core'', ''CMakeLists.txt''], File (Text [])),
      ([''core'', ''canokey-crypto''], Dir), ([''core'', ''canokey-crypto'', ''CMakeLists.txt''], File (Text [])),
      ([''core'', ''crates'', ''ffi'', ''Cargo.toml''], File (Text [])),
      ([''core'', ''third_party'', ''canokey-crypto'', ''CMakeLists.txt''], File (Text [])),
      (catalog_path sample_options, File (Doc (JObj [(''release_mappings'', JList
         [JObj [(''id'', JStr ''9.9''), (''core_commit'', JStr ''abc'')]])])))] [])
     [''tmp''] ''r1'' sample_options"

text \<open>What evaluating it looks at besides the steps of the program.\<close>

lemmas evaluate_lookups = node_at_def path_exists_def is_file_def is_dir_def realpath_def
  read_result_def put_node_def framed_def getenv_def askH_def ancestors_def upt_rec
  copy_entries_def ignored_def ignored_names_def strict_prefix_def
  requested_ref_def crypto_dir_def RUST_MARKER_def catalog_path_def patches_for_def
  CORE_COMPAT_PATCHES_def List.map_filter_def release_lookup_def json_get_def json_iter_def
  py_strip_def py_lstrip_def py_space_def char_nat_def scripted_def

theorem resolve_core_result_witness:
  "\<exists>c. fst (resolve_core (scripted (\<lambda>argv h. (0, ''abc'', h))) local_run) = Ret c
     \<and> cs_path c = workspace local_run @ [''core''] \<and> cs_ref c = requested_label (opts local_run)"
proof -
  let ?E = "scripted (\<lambda>argv h. (0, ''abc'', h))"
  have "(case fst (resolve_core ?E local_run) of
      Ret c \<Rightarrow> cs_firmware_version c = Some ''9.9'' | Exn _ \<Rightarrow> False | Blocked \<Rightarrow> False)"
    by (simp add: evaluate evaluate_lookups local_run_def init_harness_def init_platform_def
        plain_host_def sample_options_def plat_state.defs harness_state.defs)
  then show ?thesis
  proof (cases rule: outcome_cases [of "resolve_core ?E" local_run])
    case (Ret c w')
    from resolve_core_result [OF Ret] show ?thesis by (simp add: Ret)
  qed simp_all
qed

end
