(* ===== verification/ServerFacts.thy ===== *)
theory ServerFacts
  imports CoreFacts
begin

section \<open>Building, starting, testing and stopping\<close>

text \<open>
  What the second half of \<open>Harness\<close> guarantees: which commands a build runs and what it returns,
  when a server counts as started, what the caller's command sees and how its status is taken,
  and which process groups a stop may signal.
\<close>

subsection \<open>Build\<close>

lemma run_checked_Ret:
  assumes "run_command E argv cwd t log True w = (Ret r, w')"
  shows "cp_rc r = 0"
proof -
  obtain u w1 where "finish_command argv log True u w1 = (Ret r, w')"
    using assms by (auto simp: run_command_def elim!: bindA_RetE)
  then show ?thesis
    by (cases u) (auto simp: finish_command_def Let_def elim!: bindA_RetE split: if_splits)
qed

lemma run_cmake_Ret:
  assumes "run_cmake E o' c version d log w = (Ret (), w')"
  shows "trace (host w') = trace (host w) @
      [EvRun (cmake_configure o' c version d), EvRun (cmake_build d)]"
proof -
  obtain r1 w1 r2 w2 where
    "run_command E (cmake_configure o' c version d) None None (Some log) True w = (Ret r1, w1)"
    "run_command E (cmake_build d) None None (Some log) True w1 = (Ret r2, w2)" "w2 = w'"
    using assms unfolding run_cmake_def by (elim catch_raise_RetE thenA_RetE) simp
  from this(1,2) [THEN run_command_logged] this(3) show ?thesis by simp
qed

lemma build_with_Ret:
  assumes "build_with E c version w = (Ret b, w')"
  defines "d \<equiv> build_directory (host w) (opts w) (workspace w)"
  shows "b = d @ [''canokey-usbip''] \<and> is_file (host w') b
    \<and> trace (host w') = trace (host w) @
        [EvRun (cmake_configure (opts w) c version d), EvRun (cmake_build d)]"
proof -
  let ?log = "run_output_dir w @ [''build.log'']"
  have "thenA (mkdir_parents True d) (thenA (write_text ?log []) (thenA (run_cmake E (opts w) c version d ?log)
      (built_binary (d @ [''canokey-usbip''])))) w = (Ret b, w')"
    using assms by (simp add: build_with_def)
  then obtain w1 w2 w3 where mk: "mkdir_parents True d w = (Ret (), w1)"
    and log: "write_text ?log [] w1 = (Ret (), w2)"
    and cmake: "run_cmake E (opts w) c version d ?log w2 = (Ret (), w3)"
    and fin: "built_binary (d @ [''canokey-usbip'']) w3 = (Ret b, w')"
    by (elim thenA_RetE) simp
  have "trace (host w1) = trace (host w)" "trace (host w2) = trace (host w1)"
    using host_evolves_silent [OF withinD [OF evolving.within_mkdir_parents mk]]
      host_evolves_silent [OF withinD [OF evolving.within_write_text log]] by simp_all
  with run_cmake_Ret [OF cmake] fin show ?thesis
    by (simp add: built_binary_def askH_def split: if_splits)
qed

text \<open>C30. A build refuses a core without a firmware version before it runs anything, as a failure of the
  phase \<open>resolve-core\<close>. A build that succeeds has run the configuration with the path, commit and
  version of the core and then the build of the same directory, nothing else, and returns the
  binary in that directory, which is then a file.\<close>

theorem build_outcomes:
  fixes w :: harness_state
  assumes "core w = Some c"
  defines "d \<equiv> build_directory (host w) (opts w) (workspace w)"
  shows "if cs_firmware_version c \<in> {None, Some []}
    then build E w = (Exn (PhaseError ResolveCore
      (''core '' @ cs_sha c @ '' has no firmware version mapping'') 1), w)
    else \<forall>b w'. build E w = (Ret b, w') \<longrightarrow>
      b = d @ [''canokey-usbip''] \<and> is_file (host w') b
      \<and> trace (host w') = trace (host w) @
          [EvRun (cmake_configure (opts w) c (the (cs_firmware_version c)) d), EvRun (cmake_build d)]"
proof (cases "cs_firmware_version c")
  case None
  then show ?thesis using assms by (simp add: build_def)
next
  case (Some v)
  show ?thesis
  proof (cases v)
    case Nil
    then show ?thesis using Some assms by (simp add: build_def)
  next
    case (Cons x xs)
    then have "build E w = build_with E c v w" using Some assms by (simp add: build_def)
    then show ?thesis
      using Some Cons build_with_Ret [of E c v w] by (simp add: d_def)
  qed
qed

definition quiet_built :: harness_state where
  "quiet_built = sample_run\<lparr>core := Some \<lparr>cs_path = [''core''], cs_sha = ''abc'', cs_ref = ''external'',
     cs_dirty = False, cs_patches = [], cs_usb_vid = DEFAULT_VID, cs_usb_pid = DEFAULT_PID,
     cs_firmware_version = Some ''9.9''\<rparr>,
     host := sample_host\<lparr>nodes := ([''tmp'', ''canokey-usbip'', ''r1'', ''build''], Dir)
       # ([''tmp'', ''canokey-usbip'', ''r1'', ''build'', ''canokey-usbip''], File (Text []))
       # nodes sample_host\<rparr>\<rparr>"

theorem build_outcomes_witness:
  "\<exists>b. fst (build quiet quiet_built) = Ret b \<and> last b = ''canokey-usbip''
     \<and> length (trace (host (snd (build quiet quiet_built)))) = 2"
proof -
  have "fst (build quiet quiet_built)
      = Ret [''tmp'', ''canokey-usbip'', ''r1'', ''build'', ''canokey-usbip'']"
    by (simp add: evaluate evaluate_lookups quiet_built_def sample_defs build_directory_def
        open_error_def)
  moreover have "cs_firmware_version (the (core quiet_built)) = Some ''9.9''"
    "core quiet_built = Some (the (core quiet_built))" "trace (host quiet_built) = []"
    by (simp_all add: quiet_built_def sample_defs)
  ultimately show ?thesis
    using build_outcomes [of quiet_built "the (core quiet_built)" quiet]
    by (cases "build quiet quiet_built") auto
qed

subsection \<open>Starting the server\<close>

text \<open>While it polls the server, a run keeps the process it started.\<close>

definition server_pid :: "harness_state \<Rightarrow> int option" where
  "server_pid w = map_option p_pid (server w)"

interpretation spawned: host_client
  "\<lambda>w w'. evolves_le (\<lambda>_. True) w w' \<and> server_pid w' = server_pid w" "\<lambda>_. True"
  by unfold_locales (auto simp: server_pid_def intro: host_evolves_trans)

lemma popen_poll_pid: "popen_poll p w = (Ret (rc, p'), w') \<Longrightarrow>
    p_pid p' = p_pid p \<and> (rc = None \<longrightarrow> p_returncode p' = None)"
  by (auto simp: popen_poll_def hostA_def split: prod.splits option.splits)

lemma poll_server_keeps: "within (\<lambda>w w'. evolves_le (\<lambda>_. True) w w' \<and> server_pid w' = server_pid w) poll_server"
proof (rule withinI)
  fix w :: harness_state
  show "evolves_le (\<lambda>_. True) w (snd (poll_server w)) \<and> server_pid (snd (poll_server w)) = server_pid w"
  proof (cases "server w")
    case (Some p)
    show ?thesis
    proof (cases rule: outcome_cases [of "popen_poll p" w])
      case (Ret x w1)
      obtain rc p' where x: "x = (rc, p')" by fastforce
      have "evolves_le (\<lambda>_. True) w w1"
        by (rule withinD [OF evolving.within_popen_poll Ret])
      with Ret Some popen_poll_pid [of p w rc p' w1] show ?thesis
        by (simp add: poll_server_def x act_simps server_pid_def)
    qed (use ends_popen_poll [of "\<lambda>_. False" False p] Some in
        \<open>auto dest: endsD_Exn endsD_Blocked simp: poll_server_def act_simps\<close>)
  qed (simp add: poll_server_def)
qed

lemma spawned_start_round:
  "within (\<lambda>w w'. evolves_le (\<lambda>_. True) w w' \<and> server_pid w' = server_pid w) (start_round E)"
  unfolding start_round_def by (intro spawned.host_rules poll_server_keeps) simp

lemma start_round_Some:
  assumes "start_round E w = (Ret (Some ()), w')"
  shows "\<exists>p w1 r. server w' = Some p \<and> p_returncode p = None
    \<and> run_command E list_command None (Some 3) None False w1 = (Ret r, w') \<and> bus_listed r"
proof -
  obtain w1 where poll: "poll_server w = (Ret None, w1)"
    and body: "catchA (bindA (run_command E list_command None (Some 3) None False) (\<lambda>r.
            retA (if bus_listed r then Some () else None)))
         (onA (\<lambda>e. is_os_error e \<or> is_timeout e) (\<lambda>_. retA None)) w1 = (Ret (Some ()), w')"
    using assms unfolding start_round_def by (elim bindA_RetE) (auto split: option.splits)
  from body obtain r where r: "run_command E list_command None (Some 3) None False w1 = (Ret r, w')"
    "bus_listed r"
    by (auto simp: catchA_def onA_def elim!: bindA_RetE split: prod.splits outcome.splits if_splits)
  have "world0.more w' = world0.more w1" by (rule withinD [OF outside.within_run_command r(1)]) simp
  then have same: "server w' = server w1" by (cases w1; cases w') (simp add: world0.defs)
  obtain p w0 where "popen_poll p w = (Ret (None, the (server w1)), w0)" "server w1 \<noteq> None"
    using poll unfolding poll_server_def
    by (auto elim!: bindA_RetE thenA_RetE split: option.splits)
  with popen_poll_pid have "\<exists>p. server w1 = Some p \<and> p_returncode p = None" by fastforce
  with r same show ?thesis by auto
qed

lemma await_server_Ret:
  assumes "await_server E secs p w = (Ret (), w')"
  shows "\<exists>p' w1 r. server w' = Some p' \<and> p_pid p' = p_pid p \<and> p_returncode p' = None
    \<and> set (trace (host w)) \<subseteq> set (trace (host w'))
    \<and> run_command E list_command None (Some 3) None False w1 = (Ret r, w') \<and> bus_listed r"
proof -
  let ?R = "\<lambda>w w'. evolves_le (\<lambda>_. True) w w' \<and> server_pid w' = server_pid w"
  obtain w1 deadline where ws: "write_state (p_pid p) None (w\<lparr>server := Some p\<rparr>) = (Ret (), w1)"
    and loop: "poll_until E deadline 250 (start_round E) w1 = (Ret (Some ()), w')"
    using assms unfolding await_server_def monotonic_def askH_def
    by (auto elim!: thenA_RetE bindA_RetE split: option.splits)
  have "within ?R (write_state (p_pid p) None)"
    unfolding write_state_def by (intro spawned.host_rules)
  from withinD [OF this ws] have w1: "?R (w\<lparr>server := Some p\<rparr>) w1" .
  from start_poll.poll_from_round [OF spawned.host_client_axioms spawned_start_round loop]
  obtain w0 where w0: "?R w1 w0" and round: "start_round E w0 = (Ret (Some ()), w')" by auto
  have last: "?R w0 w'" by (rule withinD [OF spawned_start_round round])
  have "server_pid w' = Some (p_pid p)" using w1 w0 last by (simp add: server_pid_def)
  moreover have "set (trace (host w)) \<subseteq> set (trace (host w'))"
    using w1 w0 last evolves_trace [of "\<lambda>_. True" "host w" "host w1"]
      evolves_trace [of "\<lambda>_. True" "host w1" "host w0"]
      evolves_trace [of "\<lambda>_. True" "host w0" "host w'"] by auto
  moreover obtain p' w2 r where "server w' = Some p'" "p_returncode p' = None"
    "run_command E list_command None (Some 3) None False w2 = (Ret r, w')" "bus_listed r"
    using start_round_Some [OF round] by blast
  moreover from this(1) calculation(1) have "p_pid p' = p_pid p" by (simp add: server_pid_def)
  ultimately show ?thesis by blast
qed

text \<open>C31. A server counts as started only when it is: \<open>start_server\<close> returns after it has spawned the
  built binary with the storage image, the port and the touch flag, when that child was still
  running at the last poll and the last \<open>usbip list\<close> succeeded and showed the exported bus id.\<close>

theorem start_server_serves:
  assumes "start_server E w = (Ret (), w')"
  shows "\<exists>b p w1 r. binary w = Some b \<and> server w' = Some p \<and> p_returncode p = None
    \<and> EvSpawn (server_command b (storage w) (touch (opts w))) (p_pid p) \<in> set (trace (host w'))
    \<and> run_command E list_command None (Some 3) None False w1 = (Ret r, w') \<and> bus_listed r"
proof (cases "binary w")
  case None
  then show ?thesis using assms by (simp add: start_server_def)
next
  case (Some b)
  let ?argv = "server_command b (storage w) (touch (opts w))"
  obtain w1 p w2 environment where spawn: "popenA E ?argv environment w1 = (Ret p, w2)"
    and await: "await_server E (opt_timeout (opts w)) p w2 = (Ret (), w')"
    using assms Some unfolding start_server_def by (auto elim!: thenA_RetE bindA_RetE)
  have "EvSpawn ?argv (p_pid p) \<in> set (trace (host w2))"
    using spawn by (auto simp: popenA_def hostA_def Let_def split: prod.splits option.splits)
  moreover obtain p' w3 r where "server w' = Some p'" "p_pid p' = p_pid p" "p_returncode p' = None"
    "set (trace (host w2)) \<subseteq> set (trace (host w'))"
    "run_command E list_command None (Some 3) None False w3 = (Ret r, w')" "bus_listed r"
    using await_server_Ret [OF await] by blast
  ultimately have "EvSpawn ?argv (p_pid p') \<in> set (trace (host w'))" by auto
  then show ?thesis using Some \<open>server w' = Some p'\<close> \<open>p_returncode p' = None\<close>
    \<open>run_command _ _ _ _ _ _ w3 = _\<close> \<open>bus_listed r\<close> by blast
qed

text \<open>A run whose next phase is the start of the server, on a host whose \<open>usbip list\<close> shows it.\<close>

definition listing_env :: env where
  "listing_env = scripted (\<lambda>argv h. (0, '' 1-1: canokey'', h))"

theorem start_server_serves_witness:
  "\<exists>p. server (snd (start_server listing_env (quiet_built\<lparr>binary := Some [''bin'']\<rparr>))) = Some p
     \<and> EvSpawn [''/bin'', ''/tmp/canokey-usbip/r1/device.lfs'', ''3240''] (p_pid p)
       \<in> set (trace (host (snd (start_server listing_env (quiet_built\<lparr>binary := Some [''bin'']\<rparr>)))))"
proof -
  let ?w = "quiet_built\<lparr>binary := Some [''bin'']\<rparr>"
  let ?r = "start_server listing_env ?w"
  have "fst ?r = Ret ()"
    by (simp add: evaluate evaluate_lookups quiet_built_def sample_defs open_error_def listing_env_def
        start_poll.poll_until_unfold deadline_after_def reap_def child_proc_def bus_listed_def
        BUS_ID_def)
  then have "?r = (Ret (), snd ?r)" by (metis prod.collapse)
  from start_server_serves [OF this] obtain p where "server (snd ?r) = Some p"
    "EvSpawn (server_command [''bin''] (storage ?w) (touch (opts ?w))) (p_pid p)
       \<in> set (trace (host (snd ?r)))" by auto
  moreover have "server_command [''bin''] (storage ?w) (touch (opts ?w))
      = [''/bin'', ''/tmp/canokey-usbip/r1/device.lfs'', ''3240'']"
    by code_simp
  ultimately show ?thesis by auto
qed

end
