(* ===== verification/TestFacts.thy ===== *)
theory TestFacts
  imports ServerFacts
begin

section \<open>The caller's command and the stop of the server\<close>

text \<open>
  What the caller's command sees and how its status is taken, that the wait for it ends, and which
  process groups stopping the server may signal.
\<close>

subsection \<open>The status of the command\<close>

lemma popen_wait_Exn: "popen_wait E t p w = (Exn e, w') \<Longrightarrow> is_timeout e"
  using endsD_Exn [OF ends_popen_wait [where X = is_timeout and b = True]] by simp

lemma wait_test_Ret:
  assumes "wait_test E secs p w = (Ret rc, w')"
  shows "(\<exists>p'. popen_wait E (Some (nat secs)) p w = (Ret (rc, p'), w'))
    \<or> rc = 124 \<and> (\<exists>e w1. popen_wait E (Some (nat secs)) p w = (Exn e, w1)
        \<and> EvKillpg (p_pid p) SIGTERM \<in> set (trace (host w'))
        \<and> host_evolves (\<lambda>ev. \<exists>sig. ev = EvKillpg (p_pid p) sig) (host w1) (host w'))"
proof (cases rule: outcome_cases [of "popen_wait E (Some (nat secs)) p" w])
  case (Ret x w1)
  then show ?thesis using assms by (cases x) (auto simp: wait_test_def act_simps)
next
  case (Exn e w1)
  let ?P = "\<lambda>ev. \<exists>sig. ev = EvKillpg (p_pid p) sig"
  let ?rest = "thenA (catchA (thenA (popen_wait E (Some 5) p) (retA ()))
            (onA is_timeout (\<lambda>_.
               thenA (killpg E (p_pid p) SIGKILL)
              (thenA (popen_wait E None p) (retA ()))))) (retA 124)"
  have "thenA (killpg E (p_pid p) SIGTERM) ?rest w1 = (Ret rc, w')"
    using assms Exn popen_wait_Exn [OF Exn] by (simp add: wait_test_def act_simps)
  then obtain w2 where kill: "killpg E (p_pid p) SIGTERM w1 = (Ret (), w2)"
    and rest: "?rest w2 = (Ret rc, w')" by (rule thenA_RetE) (rule that; simp)
  have "within (evolves_le ?P) ?rest"
    by (intro evolving.within_thenA evolving.within_catch_onA evolving.within_popen_wait
        evolving.within_retA evolving.within_killpg) blast
  from withinD [OF this rest] have r: "host_evolves ?P (host w2) (host w')" .
  have "within (evolves_le ?P) (killpg E (p_pid p) SIGTERM)"
    by (rule evolving.within_killpg) blast
  from withinD [OF this kill] have k: "host_evolves ?P (host w1) (host w2)" .
  have "EvKillpg (p_pid p) SIGTERM \<in> set (trace (host w2))"
    using kill by (auto simp: killpg_def hostA_def Let_def split: if_splits)
  then have "EvKillpg (p_pid p) SIGTERM \<in> set (trace (host w'))" using evolves_trace [OF r] by blast
  moreover have "rc = 124" using rest by (elim thenA_RetE) simp
  ultimately show ?thesis using Exn host_evolves_trans [OF k r] by blast
next
  case (Blocked w1)
  then show ?thesis using assms by (auto simp: wait_test_def act_simps)
qed

text \<open>The variables the command finds in its environment.\<close>

lemma run_test_Ret:
  assumes "run_test E ready w = (Ret rc, w')"
  obtains c command sha dev environment w1 p w2
  where "core w = Some c" "test_command (opts w) = Some command" "command \<noteq> []"
    "map_of (metadata w) ''canokey_usbip_sha'' = Some (JStr sha)"
    "environment = dict_update (environ (host w)) (test_variables w c sha @ dev @ reader_variables ready)"
    "set (map fst dev) \<subseteq> {''CANOKEY_USB_BUS'', ''CANOKEY_USB_DEVICE''}"
    "popenA E [''bash'', ''-lc'', command] environment w1 = (Ret p, w2)"
    "wait_test E (opt_timeout (opts w)) p w2 = (Ret rc, w')"
proof -
  obtain c command where cc: "core w = Some c" "test_command (opts w) = Some command" "command \<noteq> []"
    and run: "run_test_with E c command ready w = (Ret rc, w')"
    using assms by (auto simp: run_test_def split: option.splits list.splits)
  from run obtain sha wa dev wb where sha: "metadata_text (metadata w) ''canokey_usbip_sha'' = Inr sha"
    and dev: "device_variables (device_path w) wa = (Ret dev, wb)"
    and rest: "(let environment = dict_update (environ (host w))
           (test_variables w c sha @ dev @ reader_variables ready) in
     thenA (write_text (run_output_dir w @ [''test.stdout'']) [])
    (thenA (write_text (run_output_dir w @ [''test.stderr'']) [])
    (bindA (popenA E [''bash'', ''-lc'', command] environment) (\<lambda>p.
       wait_test E (opt_timeout (opts w)) p)))) wb = (Ret rc, w')"
    unfolding run_test_with_def by (auto simp: liftE_def elim!: bindA_RetE split: sum.splits)
  have "set (map fst dev) \<subseteq> {''CANOKEY_USB_BUS'', ''CANOKEY_USB_DEVICE''}"
    using dev by (auto simp: device_variables_def elim!: bindA_RetE split: option.splits)
  moreover have "map_of (metadata w) ''canokey_usbip_sha'' = Some (JStr sha)"
    using sha by (auto simp: metadata_text_def split: option.splits json.splits)
  moreover note rest [unfolded Let_def]
  ultimately show ?thesis using cc that by (elim thenA_RetE bindA_RetE) blast
qed


text \<open>A run that comes to a test command which never ends.\<close>

definition tested_run :: harness_state where
  "tested_run = quiet_built\<lparr>metadata := [(''canokey_usbip_sha'', JStr ''f00'')]\<rparr>"

definition no_status :: ready_status where
  "no_status = probe_status sample_host None {} {} (Some [''CanoKey''])"

lemma tested_run_status: "run_test quiet no_status tested_run = (Ret 124, snd (run_test quiet no_status tested_run))"
proof -
  have "fst (run_test quiet no_status tested_run) = Ret 124"
    by (simp add: evaluate evaluate_lookups tested_run_def quiet_built_def sample_defs open_error_def
        reap_def child_proc_def group_members_def kill_group_def device_variables_def metadata_text_def)
  then show ?thesis by (metis prod.collapse)
qed


subsection \<open>The wait ends\<close>

text \<open>Not blocking, from one given state.\<close>

lemma not_blocked_bindA:
  "fst (m s) \<noteq> Blocked \<Longrightarrow> (\<And>x s'. m s = (Ret x, s') \<Longrightarrow> fst (f x s') \<noteq> Blocked) \<Longrightarrow>
     fst (bindA m f s) \<noteq> Blocked"
  by (cases rule: outcome_cases [of m s]) (auto simp: act_simps)

lemma not_blocked_thenA:
  "fst (m s) \<noteq> Blocked \<Longrightarrow> (\<And>x s'. m s = (Ret x, s') \<Longrightarrow> fst (k s') \<noteq> Blocked) \<Longrightarrow>
     fst (thenA m k s) \<noteq> Blocked"
  unfolding thenA_def by (rule not_blocked_bindA)

lemma not_blocked_catch:
  "fst (m s) \<noteq> Blocked \<Longrightarrow> (\<And>e s'. m s = (Exn e, s') \<Longrightarrow> p e \<Longrightarrow> fst (k e s') \<noteq> Blocked) \<Longrightarrow>
     fst (catchA m (onA p k) s) \<noteq> Blocked"
  by (cases rule: outcome_cases [of m s]) (auto simp: act_simps onA_def)

lemma not_blocked_ends: "ends (\<lambda>_. True) False m \<Longrightarrow> fst (m s) \<noteq> Blocked"
  by (rule ends_not_blocked)

lemma not_blocked_liftE: "fst (liftE r s) \<noteq> Blocked"
  by (cases r) simp_all

text \<open>
  The documented behaviour of the system that the wait relies on: a process that leads its own
  group and belongs to the runner, as a child started in a new session does, still does so after
  the runner has waited for it or signalled its group, if it still exists.
\<close>

definition led :: "int \<Rightarrow> host \<Rightarrow> bool" where
  "led pid h \<longleftrightarrow> (\<forall>q. map_of (procs h) pid = Some q \<longrightarrow> pgid q = pid \<and> owned q)"

definition keeps_leaders :: "env \<Rightarrow> bool" where
  "keeps_leaders E \<longleftrightarrow> (\<forall>pid h. led pid h \<longrightarrow>
     (\<forall>t. led pid (ext_wait E pid t h)) \<and> (\<forall>sig. led pid (ext_signal E (- pid) sig h)))"

lemma led_trace [simp]: "led pid (h\<lparr>trace := es\<rparr>) = led pid h"
  by (simp add: led_def)

lemma led_framed [simp]: "led pid (framed h h1) = led pid h1"
  by (simp add: led_def)

lemma led_popen: "popenA E argv environment w = (Ret p, w') \<Longrightarrow> led (p_pid p) (host w')"
  by (auto simp: popenA_def hostA_def Let_def led_def update_conv' child_proc_def
      split: prod.splits option.splits)

lemma led_killpg:
  assumes "killpg E pid sig w = (Ret (), w')" "sig \<noteq> SIGKILL" "keeps_leaders E" "led pid (host w)"
  shows "led pid (host w')"
  using assms by (auto simp: killpg_def hostA_def Let_def keeps_leaders_def split: if_splits)

lemma map_of_kill_group:
  "map_of (kill_group g ps) i = map_option (\<lambda>q.
     if pgid q = g \<and> owned q \<and> pstatus q = Running then q\<lparr>pstatus := Zombie (-9)\<rparr> else q) (map_of ps i)"
  unfolding kill_group_def by (simp add: map_of_map)

lemma reap_None: "reap pid h = (None, h') \<Longrightarrow>
    h' = h \<and> (\<exists>q. map_of (procs h) pid = Some q \<and> pstatus q = Running)"
  by (auto simp: reap_def split: option.splits pstat.splits)

lemma popen_wait_timeout:
  assumes "popen_wait E (Some t) p w = (Exn e, w')" "keeps_leaders E" "led (p_pid p) (host w)"
  shows "p_returncode p = None \<and> led (p_pid p) (host w')
    \<and> (\<exists>q. map_of (procs (host w')) (p_pid p) = Some q)"
proof -
  let ?h1 = "framed (host w) (ext_wait E (p_pid p) (Some (1000 * t)) (host w))"
  have rc: "p_returncode p = None"
    using assms(1) by (auto simp: popen_wait_def hostA_def split: option.splits)
  obtain r h where r: "reap (p_pid p) (host w) = (r, h)" by fastforce
  obtain r1 h1 where r1: "reap (p_pid p) ?h1 = (r1, h1)" by fastforce
  have "r = None" "r1 = None" and w': "w' = w\<lparr>host := pass_time (now (host w) + 1000 * t) h1\<rparr>"
    using assms(1) rc r r1
    by (cases r; cases r1; simp add: popen_wait_def hostA_def Let_def)+
  with r1 have "h1 = ?h1" "\<exists>q. map_of (procs ?h1) (p_pid p) = Some q"
    using reap_None [of "p_pid p" ?h1 h1] by auto
  moreover have "led (p_pid p) ?h1" using assms(2,3) by (simp add: keeps_leaders_def)
  ultimately show ?thesis using rc by (simp add: w' pass_time_def led_def)
qed

lemma killed_wait:
  assumes q: "map_of (procs (host w)) (p_pid p) = Some q" "pgid q = p_pid p" "owned q"
    and "p_returncode p = None"
  shows "fst (thenA (killpg E (p_pid p) SIGKILL) (thenA (popen_wait E None p) (retA ())) w) \<noteq> Blocked"
proof -
  have "(p_pid p, q) \<in> set (group_members (host w) (p_pid p))"
    using q by (auto simp: group_members_def dest: map_of_SomeD)
  then have g: "group_members (host w) (p_pid p) \<noteq> []" by (auto simp: list_ex_iff)
  moreover have "list_ex (\<lambda>(_, q). owned q) (group_members (host w) (p_pid p))"
    using \<open>(p_pid p, q) \<in> _\<close> q(3) by (auto simp: list_ex_iff)
  ultimately have "killpg E (p_pid p) SIGKILL w = (Ret (), w\<lparr>host := (host w)\<lparr>
      trace := trace (host w) @ [EvKillpg (p_pid p) SIGKILL],
      procs := kill_group (p_pid p) (procs (host w))\<rparr>\<rparr>)"
    by (simp add: killpg_def hostA_def Let_def)
  moreover have "\<exists>rc. fst (reap (p_pid p) (h\<lparr>procs := kill_group (p_pid p) (procs (host w))\<rparr>)) = Some rc"
    for h
    using q by (cases "pstatus q") (auto simp: reap_def map_of_kill_group)
  ultimately show ?thesis
    using assms(4)
    by (auto simp: thenA_def bindA_def popen_wait_def hostA_def split: prod.splits option.splits)
      (metis fst_conv option.distinct(1))+
qed

lemma wait_test_not_blocked:
  assumes E: "keeps_leaders E" and led: "led (p_pid p) (host w)"
  shows "fst (wait_test E secs p w) \<noteq> Blocked"
proof -
  have timed: "fst (popen_wait E (Some t) p v) \<noteq> Blocked" for t v
    by (rule not_blocked_ends) (rule ends_popen_wait; simp)
  have kill: "fst (killpg E g sig v) \<noteq> Blocked" for g sig v
    by (rule not_blocked_ends) (rule ends_killpg, simp)
  have final: "fst (thenA (killpg E (p_pid p) SIGKILL) (thenA (popen_wait E None p) (retA ())) v) \<noteq> Blocked"
    if "thenA (popen_wait E (Some 5) p) (retA ()) u = (Exn e, v)" "led (p_pid p) (host u)" for e u v
  proof -
    from that(1) have "popen_wait E (Some 5) p u = (Exn e, v)"
      by (cases rule: outcome_cases [of "popen_wait E (Some 5) p" u]) (auto simp: act_simps)
    from popen_wait_timeout [OF this E that(2)] obtain q
      where "p_returncode p = None" "map_of (procs (host v)) (p_pid p) = Some q"
        "pgid q = p_pid p" "owned q" by (auto simp: led_def)
    then show ?thesis by (intro killed_wait)
  qed
  have expired: "led (p_pid p) (host v)"
    if "bindA (popen_wait E (Some t) p) (\<lambda>(rc, _). retA rc) w = (Exn e, v)" for t e v
  proof -
    from that have "popen_wait E (Some t) p w = (Exn e, v)"
      by (cases rule: outcome_cases [of "popen_wait E (Some t) p" w]) (auto simp: act_simps split: prod.splits)
    from popen_wait_timeout [OF this E led] show ?thesis by simp
  qed
  have signalled: "led (p_pid p) (host v)"
    if "killpg E (p_pid p) SIGTERM u = (Ret x, v)" "led (p_pid p) (host u)" for x u v
    using led_killpg [OF _ _ E, of "p_pid p" SIGTERM u v] that by simp
  show ?thesis
    unfolding wait_test_def
    by (intro not_blocked_catch not_blocked_bindA not_blocked_thenA timed kill final)
      (auto split: prod.split intro: expired signalled)
qed

text \<open>Given that a process which leads its group keeps leading it, running the caller's command
  always ends: a command that outlives the timeout and ignores \<open>SIGTERM\<close> is killed, and the last,
  unlimited wait finds it dead.\<close>

lemma run_test_ends:
  assumes "keeps_leaders E"
  shows "fst (run_test E ready w) \<noteq> Blocked"
proof -
  have "fst (run_test_with E c command ready v) \<noteq> Blocked" for c command v
    unfolding run_test_with_def Let_def
    by (intro not_blocked_bindA not_blocked_thenA not_blocked_liftE wait_test_not_blocked assms)
      (auto simp: device_variables_def intro!: not_blocked_ends ends_rules dest: led_popen)
  then show ?thesis
    by (auto simp: run_test_def split: option.split list.split)
qed

subsection \<open>Stopping the server\<close>

lemma recorded_pid_reads: "snd (recorded_pid w) = w"
proof -
  have "w' = w" if "recorded_pid w = (r, w')" for r w'
    using that
    by (auto simp: recorded_pid_def read_json_def read_content_def askH_def liftE_def evaluate_bindA
        evaluate_catchA onA_def split: prod.splits outcome.splits option.splits sum.splits
        content.splits if_splits)
  then show ?thesis by (metis prod.collapse)
qed

lemma wait_server_Ret:
  assumes "wait_server E t w = (Ret (), w')" "server w = Some p"
  shows "\<exists>p' rc. server w' = Some p' \<and> p_pid p' = p_pid p \<and> p_returncode p' = Some rc"
proof -
  obtain rc p' w1 where wait: "popen_wait E t p w = (Ret (rc, p'), w1)" and w': "w' = w1\<lparr>server := Some p'\<rparr>"
    using assms by (auto simp: wait_server_def elim!: bindA_RetE)
  have "p_pid p' = p_pid p \<and> p_returncode p' = Some rc"
    using wait by (auto simp: popen_wait_def hostA_def Let_def split: option.splits prod.splits)
  then show ?thesis by (simp add: w')
qed

lemma server_killpg: "killpg E g sig w = (r, w') \<Longrightarrow> server w' = server w"
  by (auto simp: killpg_def hostA_def Let_def split: if_splits)

lemma server_ignore_killpg:
  "ignore_errors ks (killpg E g sig) w = (r, w') \<Longrightarrow> server w' = server w"
  by (auto simp: ignore_errors_def catchA_def onA_def split: prod.splits outcome.splits if_splits
      dest: server_killpg)

lemma server_wait_Exn:
  assumes "wait_server E t w = (Exn e, w')" "server w = Some p"
  shows "server w' = Some p"
proof -
  have "popen_wait E t p w = (Exn e, w')"
    using assms by (cases rule: outcome_cases [of "popen_wait E t p" w])
      (auto simp: wait_server_def act_simps split: prod.splits)
  then show ?thesis using assms(2) by (auto simp: popen_wait_def hostA_def split: option.splits prod.splits)
qed

lemma stop_own_Ret:
  assumes "stop_own E pid w = (Ret (), w')" "server w = Some p"
  shows "\<exists>p' rc. server w' = Some p' \<and> p_pid p' = p_pid p \<and> p_returncode p' = Some rc"
proof (cases rule: outcome_cases [of "wait_server E (Some 5)" w])
  case (Ret x w1)
  then show ?thesis using assms wait_server_Ret [of E "Some 5" w w1 p] by (simp add: stop_own_def act_simps)
next
  case (Exn e w1)
  then have "thenA (ignore_errors [ESRCH, EPERM] (killpg E pid SIGKILL)) (wait_server E (Some 5)) w1
      = (Ret (), w')"
    using assms(1) by (auto simp: stop_own_def act_simps onA_def split: if_splits)
  then obtain w2 where "ignore_errors [ESRCH, EPERM] (killpg E pid SIGKILL) w1 = (Ret (), w2)"
    "wait_server E (Some 5) w2 = (Ret (), w')" by (rule thenA_RetE) (rule that; simp)
  moreover have "server w1 = Some p" by (rule server_wait_Exn [OF Exn assms(2)])
  ultimately show ?thesis using server_ignore_killpg wait_server_Ret by metis
next
  case (Blocked w1)
  then show ?thesis using assms(1) by (simp add: stop_own_def act_simps)
qed

text \<open>A stop after the recorded process id is known.\<close>

definition stop_recorded :: "env \<Rightarrow> int option \<Rightarrow> (harness_state, unit) act" where
  "stop_recorded E pid = (case pid of
     None \<Rightarrow> reap_server E
   | Some i \<Rightarrow>
       if i = 0 then reap_server E
       else thenA (ignore_errors [ESRCH] (killpg E i SIGTERM))
         (bindA (getsA server) (\<lambda>s.
            if (case s of Some p \<Rightarrow> p_pid p = i | None \<Rightarrow> False) then stop_own E i
            else stop_foreign E i)))"

lemma stop_server_read:
  "stop_server E w = (case fst (recorded_pid w) of
     Ret pid \<Rightarrow> stop_recorded E pid w | Exn e \<Rightarrow> (Exn e, w) | Blocked \<Rightarrow> (Blocked, w))"
  using recorded_pid_reads [of w]
  by (cases "recorded_pid w") (auto simp: stop_server_def stop_recorded_def bindA_def split: outcome.split)

lemma stop_recorded_events:
  "within (evolves_le (\<lambda>ev. \<exists>g sig. ev = EvKillpg g sig \<and> g \<noteq> 0 \<and> pid = Some g)) (stop_recorded E pid)"
proof (cases pid)
  case None
  then show ?thesis by (simp add: stop_recorded_def run_evolving.within_reap_server)
next
  case (Some i)
  show ?thesis
    unfolding Some stop_recorded_def option.case stop_own_def stop_foreign_def
    by (intro evolving.host_rules run_evolving.within_reap_server run_evolving.within_ignore_errors
        run_evolving.within_wait_server run_evolving.within_gone_round) auto
qed

lemma stop_recorded_collects:
  assumes "stop_recorded E (Some (p_pid p)) w = (Ret (), w')" "server w = Some p" "p_pid p \<noteq> 0"
  shows "\<exists>p' rc. server w' = Some p' \<and> p_pid p' = p_pid p \<and> p_returncode p' = Some rc"
proof -
  let ?stop = "bindA (getsA server) (\<lambda>s. if (case s of Some q \<Rightarrow> p_pid q = p_pid p | None \<Rightarrow> False)
     then stop_own E (p_pid p) else stop_foreign E (p_pid p))"
  have "thenA (ignore_errors [ESRCH] (killpg E (p_pid p) SIGTERM)) ?stop w = (Ret (), w')"
    using assms by (simp add: stop_recorded_def)
  then obtain w1 where kill: "ignore_errors [ESRCH] (killpg E (p_pid p) SIGTERM) w = (Ret (), w1)"
    and stop: "?stop w1 = (Ret (), w')"
    by (rule thenA_RetE) (rule that; simp)
  have own: "server w1 = Some p" using server_ignore_killpg [OF kill] assms(2) by simp
  with stop have "stop_own E (p_pid p) w1 = (Ret (), w')" by simp
  then show ?thesis using own by (rule stop_own_Ret)
qed

text \<open>C33. Stopping the server signals nothing but the process group that the state file records, and
  that only if it is not zero; it always ends, and raises no exception that the caller does not
  catch. When it returns after the run's own server was recorded, that server has ended and its
  status was collected.\<close>

theorem stop_server_spec:
  "host_evolves (\<lambda>ev. \<exists>g sig. ev = EvKillpg g sig \<and> g \<noteq> 0 \<and> fst (recorded_pid w) = Ret (Some g))
      (host w) (host (snd (stop_server E w)))
   \<and> (case fst (stop_server E w) of Ret _ \<Rightarrow> True | Exn e \<Rightarrow> is_exception e | Blocked \<Rightarrow> False)
   \<and> (\<forall>p w'. server w = Some p \<and> fst (recorded_pid w) = Ret (Some (p_pid p)) \<and> p_pid p \<noteq> 0
        \<and> stop_server E w = (Ret (), w') \<longrightarrow>
        (\<exists>p' rc. server w' = Some p' \<and> p_pid p' = p_pid p \<and> p_returncode p' = Some rc))"
proof (intro conjI allI impI)
  show "case fst (stop_server E w) of Ret _ \<Rightarrow> True | Exn e \<Rightarrow> is_exception e | Blocked \<Rightarrow> False"
    by (rule ends_at [OF ends_stop_server])
  show "host_evolves (\<lambda>ev. \<exists>g sig. ev = EvKillpg g sig \<and> g \<noteq> 0 \<and> fst (recorded_pid w) = Ret (Some g))
      (host w) (host (snd (stop_server E w)))"
    using withinD_snd [OF stop_recorded_events, where s = w]
    by (auto simp: stop_server_read split: outcome.split)
  fix p w'
  assume a: "server w = Some p \<and> fst (recorded_pid w) = Ret (Some (p_pid p)) \<and> p_pid p \<noteq> 0
    \<and> stop_server E w = (Ret (), w')"
  then have "stop_recorded E (Some (p_pid p)) w = (Ret (), w')" by (auto simp: stop_server_read)
  with a show "\<exists>p' rc. server w' = Some p' \<and> p_pid p' = p_pid p \<and> p_returncode p' = Some rc"
    using stop_recorded_collects by blast
qed

text \<open>A run whose server is recorded and ignores \<open>SIGTERM\<close>.\<close>

definition served_run :: harness_state where
  "served_run = sample_run\<lparr>server := Some \<lparr>p_pid = 100, p_returncode = None\<rparr>,
     host := sample_host\<lparr>procs := [(100, child_proc 100 [''/bin''])],
       nodes := (state_path sample_run, File (Doc (JObj [(''pid'', JInt 100)]))) # nodes sample_host\<rparr>\<rparr>"

theorem stop_server_spec_witness:
  "\<exists>p rc. server (snd (stop_server quiet served_run)) = Some p \<and> p_returncode p = Some rc"
proof -
  have "fst (stop_server quiet served_run) = Ret ()" "fst (recorded_pid served_run) = Ret (Some 100)"
    by (simp_all add: evaluate evaluate_lookups served_run_def sample_defs reap_def child_proc_def
        group_members_def kill_group_def json_get_or_def json_int_def)
  moreover have "server served_run = Some \<lparr>p_pid = 100, p_returncode = None\<rparr>"
    by (simp add: served_run_def)
  ultimately show ?thesis
    using stop_server_spec [of served_run quiet] by (cases "stop_server quiet served_run") fastforce
qed

end
