(* ===== verification/Lifecycle.thy ===== *)
theory Lifecycle
  imports ExecuteFacts
begin

section \<open>The life cycle of a run\<close>

text \<open>
  What a run does to the host, seen from outside: an abstract machine over the events of the
  trace, which starts the server at most once, attaches at most once and only to a started
  server, and runs the caller's command at most once and only on an attached device. \<open>execute\<close>
  refines it: every run, however it ends, is a path of the machine. The rest bounds the runs
  that must not touch a device at all: a run that is refused the lock, and a build-only run.
\<close>

subsection \<open>Machines over events\<close>

text \<open>
  The interface of such a machine: its paths are closed under composition, and the quiet events
  leave every stage as it is. \<open>drives s T m\<close>: from stage \<open>s\<close>, a run of \<open>m\<close> logs a path, which
  ends in \<open>T\<close> when \<open>m\<close> returns. The rules follow the combinators.
\<close>

locale event_machine =
  fixes path :: "'q \<Rightarrow> event list \<Rightarrow> 'q \<Rightarrow> bool" and quiet_event :: "event \<Rightarrow> bool"
  assumes path_append: "path s es t \<Longrightarrow> path t fs u \<Longrightarrow> path s (es @ fs) u"
    and path_quiet: "list_all quiet_event es \<Longrightarrow> path s es s"
begin

definition drives :: "'q \<Rightarrow> 'q set \<Rightarrow> ('z world0_scheme, 'a) act \<Rightarrow> bool" where
  "drives s T m \<longleftrightarrow> (\<forall>w. \<exists>es t. trace (host (snd (m w))) = trace (host w) @ es \<and> path s es t
     \<and> (\<forall>x. fst (m w) = Ret x \<longrightarrow> t \<in> T))"

lemma drivesI:
  "(\<And>w r w'. m w = (r, w') \<Longrightarrow> \<exists>es t. trace (host w') = trace (host w) @ es \<and> path s es t
     \<and> (\<forall>x. r = Ret x \<longrightarrow> t \<in> T)) \<Longrightarrow> drives s T m"
  unfolding drives_def by (metis prod.collapse)

lemma drivesD:
  assumes "drives s T m" "m w = (r, w')"
  obtains es t where "trace (host w') = trace (host w) @ es" "path s es t"
    "\<And>x. r = Ret x \<Longrightarrow> t \<in> T"
proof -
  obtain es t where "trace (host w') = trace (host w) @ es" "path s es t"
    "\<forall>x. r = Ret x \<longrightarrow> t \<in> T"
    using assms unfolding drives_def by (metis fst_conv snd_conv)
  then show ?thesis by (intro that [of es t]) auto
qed

lemma drives_quiet:
  assumes "within (evolves_le quiet_event) m" "s \<in> T"
  shows "drives s T m"
proof (rule drivesI)
  fix w r w'
  assume "m w = (r, w')"
  from withinD [OF assms(1) this] obtain es
    where "trace (host w') = trace (host w) @ es" "list_all quiet_event es"
    by (auto simp: host_evolves_def)
  with assms(2) show "\<exists>es t. trace (host w') = trace (host w) @ es \<and> path s es t
      \<and> (\<forall>x. r = Ret x \<longrightarrow> t \<in> T)"
    by (intro exI [of _ es] exI [of _ s]) (simp add: path_quiet)
qed

lemma drives_bindA:
  assumes m: "drives s T m" and f: "\<And>t x. t \<in> T \<Longrightarrow> drives t U (f x)"
  shows "drives s U (bindA m f)"
proof (rule drivesI)
  fix w r w'
  assume run: "bindA m f w = (r, w')"
  show "\<exists>es t. trace (host w') = trace (host w) @ es \<and> path s es t
     \<and> (\<forall>x. r = Ret x \<longrightarrow> t \<in> U)"
  proof (cases rule: outcome_cases [of m w])
    case (Ret x w1)
    obtain es t where es: "trace (host w1) = trace (host w) @ es" "path s es t" "t \<in> T"
      by (rule drivesD [OF m Ret]) blast
    have "f x w1 = (r, w')" using run Ret by (simp add: act_simps)
    then obtain fs u where "trace (host w') = trace (host w1) @ fs" "path t fs u"
      "\<And>y. r = Ret y \<Longrightarrow> u \<in> U"
      by (rule drivesD [OF f [OF es(3)]]) blast
    with es show ?thesis
      by (intro exI [of _ "es @ fs"] exI [of _ u]) (auto intro: path_append)
  next
    case (Exn e w1)
    show ?thesis by (rule drivesD [OF m Exn]) (use run Exn in \<open>auto simp: act_simps\<close>)
  next
    case (Blocked w1)
    show ?thesis by (rule drivesD [OF m Blocked]) (use run Blocked in \<open>auto simp: act_simps\<close>)
  qed
qed

lemma drives_thenA: "drives s T m \<Longrightarrow> (\<And>t. t \<in> T \<Longrightarrow> drives t U k) \<Longrightarrow> drives s U (thenA m k)"
  unfolding thenA_def by (rule drives_bindA)

lemma drives_bind_getsA: "(\<And>w. drives s T (f (g w))) \<Longrightarrow> drives s T (bindA (getsA g) f)"
  by (simp add: drives_def)

text \<open>A quiet action in front of one that drives the machine.\<close>

lemma quietly_bindA:
  "within (evolves_le quiet_event) m \<Longrightarrow> (\<And>x. drives s T (f x)) \<Longrightarrow> drives s T (bindA m f)"
  by (rule drives_bindA [where T = "{s}"]) (auto intro: drives_quiet)

lemma quietly_thenA:
  "within (evolves_le quiet_event) m \<Longrightarrow> drives s T k \<Longrightarrow> drives s T (thenA m k)"
  unfolding thenA_def by (rule quietly_bindA)

lemma drives_raiseA: "drives s T (raiseA e)"
  using path_quiet [of "[]" s] by (auto simp: drives_def)

lemma drives_handled:
  assumes m: "drives s T m" and h: "\<And>t e k. h e = Some k \<Longrightarrow> drives t (U t) k" "\<And>t. t \<in> T \<Longrightarrow> t \<in> V"
    "\<And>t. U t \<subseteq> V"
  shows "drives s V (catchA m h)"
proof (rule drivesI)
  fix w r w'
  assume run: "catchA m h w = (r, w')"
  show "\<exists>es t. trace (host w') = trace (host w) @ es \<and> path s es t
     \<and> (\<forall>x. r = Ret x \<longrightarrow> t \<in> V)"
  proof (cases rule: outcome_cases [of m w])
    case (Ret x w1)
    show ?thesis by (rule drivesD [OF m Ret]) (use run Ret h(2) in \<open>auto simp: act_simps\<close>)
  next
    case (Exn e w1)
    obtain es t where es: "trace (host w1) = trace (host w) @ es" "path s es t"
      by (rule drivesD [OF m Exn])
    show ?thesis
    proof (cases "h e")
      case None
      with run Exn es show ?thesis by (auto simp: act_simps)
    next
      case (Some k)
      then have "k w1 = (r, w')" using run Exn by (simp add: act_simps)
      then obtain fs u where "trace (host w') = trace (host w1) @ fs" "path t fs u"
        "\<And>y. r = Ret y \<Longrightarrow> u \<in> U t"
        by (rule drivesD [OF h(1) [OF Some]]) blast
      with es h(3) show ?thesis
        by (intro exI [of _ "es @ fs"] exI [of _ u]) (auto intro: path_append)
    qed
  next
    case (Blocked w1)
    show ?thesis by (rule drivesD [OF m Blocked]) (use run Blocked in \<open>auto simp: act_simps\<close>)
  qed
qed

text \<open>A handler that raises again does not return, so it cannot end in a wrong stage.\<close>

lemma drives_catch_raise:
  assumes "drives s T m" "\<And>e. \<exists>f. k e = raiseA (f e)"
  shows "drives s T (catchA m (onA p k))"
proof (rule drives_handled [OF assms(1), where U = "\<lambda>_. T"])
  show "drives t T k'" if "onA p k e = Some k'" for t e k'
  proof -
    obtain f where "k e = raiseA (f e)" using assms(2) by blast
    then have "k' = raiseA (f e)" using that by (simp add: onA_def split: if_splits)
    then show ?thesis by (simp only: drives_raiseA)
  qed
qed auto

lemma drives_finallyA:
  assumes m: "drives s T m" and f: "within (evolves_le quiet_event) f"
  shows "drives s T (finallyA m f)"
proof (rule drivesI)
  fix w r w'
  assume run: "finallyA m f w = (r, w')"
  obtain r1 w1 where m1: "m w = (r1, w1)" by fastforce
  obtain q w2 where f1: "f w1 = (q, w2)" by fastforce
  obtain es t where es: "trace (host w1) = trace (host w) @ es" "path s es t"
    "\<And>x. r1 = Ret x \<Longrightarrow> t \<in> T"
    by (rule drivesD [OF m m1]) blast
  obtain fs where fs: "trace (host w2) = trace (host w1) @ fs" "path t fs t"
    using withinD [OF f f1] path_quiet by (auto simp: host_evolves_def)
  show "\<exists>es t. trace (host w') = trace (host w) @ es \<and> path s es t
     \<and> (\<forall>x. r = Ret x \<longrightarrow> t \<in> T)"
  proof (cases "r1 = Blocked")
    case True
    then show ?thesis using run m1 es by (auto simp: finallyA_def)
  next
    case False
    then have "w' = w2 \<and> (\<forall>x. r = Ret x \<longrightarrow> r1 = r)"
      using run m1 f1 by (auto simp: finallyA_def split: outcome.splits)
    then show ?thesis
      using es fs by (intro exI [of _ "es @ fs"] exI [of _ t])
        (auto intro: path_append)
  qed
qed

text \<open>The commands that log an event: a started child, and a command that was run.\<close>

lemma drives_popenA:
  assumes "\<And>pid. path s [EvSpawn argv pid] t"
  shows "drives s {t} (popenA E argv environment)"
proof (rule drivesI)
  fix w r w'
  assume run: "popenA E argv environment w = (r, w')"
  show "\<exists>es q. trace (host w') = trace (host w) @ es \<and> path s es q
      \<and> (\<forall>x. r = Ret x \<longrightarrow> q \<in> {t})"
  proof (cases "fst (ext_spawn E argv environment (host w))")
    case None
    then have "\<exists>pid. trace (host w') = trace (host w) @ [EvSpawn argv pid]"
      using run by (auto simp: popenA_def hostA_def Let_def split: prod.splits)
    with assms show ?thesis by blast
  next
    case (Some k)
    then have "trace (host w') = trace (host w) @ [] \<and> (\<forall>x. r \<noteq> Ret x)"
      using run by (auto simp: popenA_def hostA_def Let_def split: prod.splits)
    then show ?thesis by (metis list.pred_inject(1) path_quiet)
  qed
qed

lemma drives_run_command:
  assumes "path s [EvRun argv] t"
  shows "drives s {t} (run_command E argv cwd secs log chk)"
  by (rule drivesI) (use assms in \<open>auto dest!: run_command_logged\<close>)

end

subsection \<open>The machine of a run\<close>

text \<open>
  The stages: nothing started, the server started, the device attached, the caller's command
  started. Each of the three events is possible in one stage only; every other event is quiet.
\<close>

datatype stage = Fresh | Serving | Plugged | Exercised

definition serve_event :: "event \<Rightarrow> bool" where
  "serve_event ev \<longleftrightarrow> (\<exists>b st t pid. ev = EvSpawn (server_command b st t) pid)"

definition plug_event :: "event \<Rightarrow> bool" where
  "plug_event ev \<longleftrightarrow> (\<exists>h. ev = EvRun (privileged h attach_command))"

definition exercise_event :: "event \<Rightarrow> bool" where
  "exercise_event ev \<longleftrightarrow> (\<exists>command pid. ev = EvSpawn [''bash'', ''-lc'', command] pid)"

definition quiet_event :: "event \<Rightarrow> bool" where
  "quiet_event ev \<longleftrightarrow> \<not> serve_event ev \<and> \<not> plug_event ev \<and> \<not> exercise_event ev"

inductive life_step :: "stage \<Rightarrow> event \<Rightarrow> stage \<Rightarrow> bool" where
  serve: "serve_event ev \<Longrightarrow> life_step Fresh ev Serving"
| plug: "plug_event ev \<Longrightarrow> life_step Serving ev Plugged"
| exercise: "exercise_event ev \<Longrightarrow> life_step Plugged ev Exercised"
| quiet: "quiet_event ev \<Longrightarrow> life_step s ev s"

inductive life_path :: "stage \<Rightarrow> event list \<Rightarrow> stage \<Rightarrow> bool" where
  stay: "life_path s [] s"
| move: "life_step s ev t \<Longrightarrow> life_path t es u \<Longrightarrow> life_path s (ev # es) u"

inductive_cases life_stepE: "life_step s ev t"

inductive_simps life_path_Nil [simp]: "life_path s [] t"
inductive_simps life_path_Cons: "life_path s (ev # es) u"

lemma life_path_append: "life_path s es t \<Longrightarrow> life_path t fs u \<Longrightarrow> life_path s (es @ fs) u"
  by (induction rule: life_path.induct) (auto intro: life_path.intros)

lemma life_path_quiet: "list_all quiet_event es \<Longrightarrow> life_path s es s"
  by (induction es) (auto intro: life_path.intros life_step.quiet)

interpretation life: event_machine life_path quiet_event
  by unfold_locales (auto intro: life_path_append life_path_quiet)

lemma life_path_one: "life_step s ev t \<Longrightarrow> life_path s [ev] t"
  by (auto intro: life_path.intros)

text \<open>The three events are different, and the other commands of a run are quiet.\<close>

lemma path_str_slash: "\<exists>s. path_str p = CHR ''/'' # s"
  by (cases p) (auto simp: path_str_def)

lemma serve_not_exercise: "server_command b st t \<noteq> [''bash'', ''-lc'', command]"
  using path_str_slash [of b] by (auto simp: server_command_def)

lemma quiet_events:
  "quiet_event (EvPrint s)" "quiet_event (EvKillpg g sig)" "quiet_event (EvKill g sig)"
  "quiet_event (EvRun argv) \<longleftrightarrow> (\<forall>h. argv \<noteq> privileged h attach_command)"
  by (auto simp: quiet_event_def serve_event_def plug_event_def exercise_event_def)

lemma quiet_commands [simp]:
  "quiet_event (EvRun (''git'' # args))" "quiet_event (EvRun (''cmake'' # args))"
  "quiet_event (EvRun [tool, ''--version''])" "quiet_event (EvRun [''usbip'', ''version''])"
  "quiet_event (EvRun [''usbip'', ''port''])" "quiet_event (EvRun list_command)"
  "quiet_event (EvRun (privileged h [''modprobe'', ''vhci_hcd'']))"
  "quiet_event (EvRun (privileged h [''systemctl'', ''start'', ''pcscd'']))"
  "quiet_event (EvRun (privileged h (detach_command port)))"
  "quiet_event (EvRun [''udevadm'', ''info'', ''--query=all'', d])"
  "quiet_event (EvRun (privileged h [''journalctl'', ''-u'', ''pcscd'', ''--no-pager'', ''-n'', ''300'']))"
  "quiet_event (EvPrint s)" "quiet_event (EvKillpg g sig)" "quiet_event (EvKill g sig)"
  by (auto simp: quiet_events privileged_def attach_command_def list_command_def detach_command_def)

lemma quiet_debug: "c \<in> set (debug_commands vid pid) \<Longrightarrow> quiet_event (EvRun (snd c))"
  by (auto simp: debug_commands_def quiet_events privileged_def attach_command_def)

lemma quiet_cleanup: "cleanup_event ev \<Longrightarrow> quiet_event ev"
  by (auto simp: cleanup_event_def dest: quiet_debug)

subsection \<open>\<open>execute\<close> refines the machine\<close>

lemma quiet_sequence:
  "within (evolves_le quiet_event) (execute_setup E :: (harness_state, unit) act)"
  "within (evolves_le quiet_event) (prepare_phases E)"
  "within (evolves_le quiet_event) (prepare_host E :: (harness_state, unit) act)"
  "within (evolves_le quiet_event) (execute_finally E)"
proof -
  show "within (evolves_le quiet_event) (execute_setup E :: (harness_state, unit) act)"
    by (rule run_evolving.within_execute_setup) simp_all
  show "within (evolves_le quiet_event) (prepare_phases E)"
    by (rule run_evolving.within_prepare_phases) simp_all
  show "within (evolves_le quiet_event) (prepare_host E :: (harness_state, unit) act)"
    by (rule evolving.within_prepare_host) simp_all
  show "within (evolves_le quiet_event) (execute_finally E)"
    by (intro run_evolving.within_execute_finally plat_evolving.within_collect_debug
        plat_evolving.within_detach run_evolving.within_stop_server
        run_evolving.within_note_cleanup_error)
      (simp_all add: quiet_debug)
qed

lemma serve_popen:
  "life.drives Fresh {Serving} (popenA E (server_command b st t) environment)"
  by (intro life.drives_popenA life_path_one life_step.serve) (auto simp: serve_event_def)

lemma exercise_popen:
  "life.drives Plugged {Exercised} (popenA E [''bash'', ''-lc'', command] environment)"
  by (intro life.drives_popenA life_path_one life_step.exercise) (auto simp: exercise_event_def)

lemma plug_attach: "life.drives Serving {Plugged} (attach_device E)"
  unfolding attach_device_def askH_def
proof (rule life.drives_catch_raise)
  have "life.drives Serving {Plugged} (thenA (run_command E (privileged h attach_command) None
      (Some 30) None True) (retA ()))" for h
    by (rule life.drives_thenA [OF life.drives_run_command])
      (auto intro!: life_path_one life_step.plug life.drives_quiet evolving.within_retA
        simp: plug_event_def)
  then show "life.drives Serving {Plugged} (bindA (getsA (\<lambda>w. privileged (host w) attach_command))
      (\<lambda>argv. thenA (run_command E argv None (Some 30) None True) (retA ())))"
    by (rule life.drives_bind_getsA)
qed auto

lemma drives_attach: "life.drives Serving {Plugged} (attach E before :: (harness_state, unit) act)"
  unfolding attach_def
proof (intro life.quietly_thenA [OF plat_evolving.within_reader_baseline]
    life.drives_thenA [OF plug_attach])
  fix t assume "t \<in> {Plugged}"
  then show "life.drives t {Plugged} (thenA (modifyA (\<lambda>w. w\<lparr>owns_attachment := True\<rparr>))
      (thenA (bindA (find_usbip_port E) (\<lambda>q. modifyA (\<lambda>w. w\<lparr>usb_port := q\<rparr>)))
        (attach_wait E before)) :: (harness_state, unit) act)"
    by (intro life.drives_quiet evolving.within_thenA evolving.within_bindA
        evolving.within_modifyA plat_evolving.within_find_usbip_port
        plat_evolving.within_attach_wait) simp_all
qed

lemma drives_await: "life.drives Serving {Serving} (await_server E secs p)"
  unfolding await_server_def
  by (intro life.drives_quiet evolving.host_rules evolving.within_modifyA
      run_evolving.within_write_state run_evolving.within_start_round) simp_all

lemma drives_start_server: "life.drives Fresh {Serving} (start_server E)"
  unfolding start_server_def
proof (rule life.drives_bindA [where T = "{Fresh}"], rule life.drives_quiet, rule evolving.within_getsA)
  fix t b assume "t \<in> {Fresh}"
  then have t: "t = Fresh" by simp
  show "life.drives t {Serving} (case b of None \<Rightarrow> raiseA AssertionError
     | Some b \<Rightarrow>
         bindA (getsA (\<lambda>w. w)) (\<lambda>w0.
         thenA (mkdir_parents True (butlast (storage w0)))
        (thenA (open_append (run_output_dir w0 @ [''usbip.log'']))
        (bindA (askH environ) (\<lambda>inherited.
         bindA (popenA E (server_command b (storage w0) (touch (opts w0))) inherited)
           (await_server E (opt_timeout (opts w0))))))))"
    unfolding t
    by (cases b)
      (auto intro!: life.drives_raiseA life.quietly_bindA [OF evolving.within_getsA]
        life.quietly_thenA [OF evolving.within_mkdir_parents]
        life.quietly_thenA [OF evolving.within_open_append]
        life.quietly_bindA [OF evolving.within_askH] life.drives_bindA [OF serve_popen]
        intro: drives_await)
qed simp

lemma drives_run_test: "life.drives Plugged {Exercised} (run_test E ready)"
proof -
  have wait: "life.drives t {Exercised} (wait_test E secs p :: (harness_state, int) act)"
    if "t \<in> {Exercised}" for t secs p
    using that by (intro life.drives_quiet run_evolving.within_wait_test) simp_all
  have "life.drives Plugged {Exercised} (run_test_with E c command ready)" for c command
    unfolding run_test_with_def Let_def
    by (intro life.quietly_bindA life.quietly_thenA evolving.host_rules
        life.drives_bindA [OF exercise_popen] wait)
      (auto simp: device_variables_def intro!: evolving.host_rules)
  then show ?thesis
    unfolding run_test_def
    by (intro life.quietly_bindA evolving.within_getsA)
      (auto intro: life.drives_raiseA split: option.split list.split)
qed

lemma drives_device_phases: "life.drives Fresh {Plugged} (device_phases E)"
proof -
  let ?rest = "thenA (bindA (getsA (\<lambda>w. (case server w of Some p \<Rightarrow> p_pid p | None \<Rightarrow> 0, usb_port w)))
        (\<lambda>(pid, port). write_state pid port))
    (thenA (enter Readiness)
    (bindA (wait_ready E) (\<lambda>ready.
     thenA (set_metadata ''readiness'' (ready_json ready))
    (thenA (enter Test) (retA ready)))))"
  have rest: "life.drives t {Plugged} ?rest" if "t \<in> {Plugged}" for t
    using that
    by (intro life.drives_quiet evolving.within_thenA evolving.within_bindA evolving.within_getsA
        evolving.within_case_prod evolving.within_retA run_evolving.within_write_state
        run_evolving.within_enter run_evolving.within_set_metadata plat_evolving.within_wait_ready)
  have served: "life.drives t {Plugged} (thenA (enter Attach) (thenA (attach E before) ?rest))"
    if "t \<in> {Serving}" for t before
    using that rest
    by (auto intro!: life.quietly_thenA run_evolving.within_enter life.drives_thenA [OF drives_attach])
  show ?thesis
    unfolding device_phases_def
    by (intro life.quietly_thenA life.quietly_bindA run_evolving.within_enter quiet_sequence(3)
        plat_evolving.within_matching_usb_devices life.drives_thenA [OF drives_start_server] served)
qed

lemma drives_execute_try:
  "life.drives Fresh {Fresh, Exercised} (execute_try E)"
proof -
  have test: "life.drives t {Fresh, Exercised} (test_phase E ready)" if "t \<in> {Plugged}" for t ready
    using that unfolding test_phase_def
    by (auto intro!: life.drives_bindA [OF drives_run_test] life.drives_quiet
        evolving.within_thenA evolving.within_whenA run_evolving.within_locals)
  have "life.drives Fresh {Fresh, Exercised} (run_phases E)"
    unfolding run_phases_def by (rule life.drives_bindA [OF drives_device_phases test])
  then show ?thesis
    unfolding execute_try_def
    by (intro life.quietly_bindA quiet_sequence(2) evolving.within_getsA)
      (auto intro!: life.drives_quiet evolving.within_thenA run_evolving.within_locals
        evolving.within_printA)
qed

lemma drives_execute: "life.drives Fresh UNIV (execute E)"
proof -
  have handler: "life.drives t {t} k" if "execute_handler e = Some k" for t e k
    using run_evolving.within_handler [OF that] by (intro life.drives_quiet) simp_all
  have "life.drives Fresh UNIV (catchA (execute_try E) execute_handler)"
    by (rule life.drives_handled [OF drives_execute_try handler]) simp_all
  then have body: "life.drives Fresh UNIV
      (finallyA (catchA (execute_try E) execute_handler) (execute_finally E))"
    by (rule life.drives_finallyA [OF _ quiet_sequence(4)])
  have "life.drives t UNIV (getsA result)" for t
    by (rule life.drives_quiet [OF evolving.within_getsA]) simp
  then show ?thesis
    unfolding execute_def
    by (intro life.quietly_thenA evolving.within_modifyA quiet_sequence(1)
        life.drives_thenA [OF body]) simp_all
qed

text \<open>C2. Every run refines the machine, however it ends: the events it adds to the trace are a
  path from the fresh stage. A server is started from the fresh stage only, the device attached only
  to a started server, the caller's command started only on an attached device, each at most once.\<close>

theorem execute_refines_lifecycle:
  "\<exists>es t. trace (host (snd (execute E w))) = trace (host w) @ es \<and> life_path Fresh es t"
  using drives_execute [of E] unfolding life.drives_def by blast

subsection \<open>What the machine allows\<close>

text \<open>The invariants of the machine, by induction over its paths.\<close>

lemma event_classes:
  "serve_event ev \<Longrightarrow> \<not> plug_event ev \<and> \<not> exercise_event ev"
  "plug_event ev \<Longrightarrow> \<not> serve_event ev \<and> \<not> exercise_event ev"
  "exercise_event ev \<Longrightarrow> \<not> serve_event ev \<and> \<not> plug_event ev"
  using serve_not_exercise serve_not_exercise [symmetric]
  by (auto simp: serve_event_def plug_event_def exercise_event_def)

lemma serve_once: "life_path s es t \<Longrightarrow> length (filter serve_event es) \<le> (if s = Fresh then 1 else 0)"
proof (induction rule: life_path.induct)
  case (move s ev t es u)
  from move(1,3) show ?case
    by (cases rule: life_step.cases) (auto simp: quiet_event_def dest: event_classes split: if_splits)
qed simp

lemma plug_once:
  "life_path s es t \<Longrightarrow> length (filter plug_event es) \<le> (if s \<in> {Fresh, Serving} then 1 else 0)"
proof (induction rule: life_path.induct)
  case (move s ev t es u)
  from move(1,3) show ?case
    by (cases rule: life_step.cases) (auto simp: quiet_event_def dest: event_classes split: if_splits)
qed simp

lemma exercise_once:
  "life_path s es t \<Longrightarrow> length (filter exercise_event es) \<le> (if s = Exercised then 0 else 1)"
proof (induction rule: life_path.induct)
  case (move s ev t es u)
  from move(1,3) show ?case
    by (cases rule: life_step.cases) (auto simp: quiet_event_def dest: event_classes split: if_splits)
qed simp

lemma served_before: "life_path s es t \<Longrightarrow> t \<noteq> Fresh \<Longrightarrow> s \<noteq> Fresh \<or> (\<exists>x \<in> set es. serve_event x)"
proof (induction rule: life_path.induct)
  case (move s ev t es u)
  from move(1,3,4) show ?case by (cases rule: life_step.cases) auto
qed simp

lemma plugged_before:
  "life_path s es t \<Longrightarrow> t \<in> {Plugged, Exercised} \<Longrightarrow>
     s \<in> {Plugged, Exercised} \<or> (\<exists>x \<in> set es. plug_event x)"
proof (induction rule: life_path.induct)
  case (move s ev t es u)
  from move(1,3,4) show ?case by (cases rule: life_step.cases) auto
qed simp

lemma life_path_split:
  "life_path s (as @ bs) u \<Longrightarrow> \<exists>t. life_path s as t \<and> life_path t bs u"
  by (induction as arbitrary: s) (auto simp: life_path_Cons, blast)

lemma life_path_before:
  assumes "life_path Fresh (as @ ev # bs) u"
  shows "plug_event ev \<Longrightarrow> \<exists>x \<in> set as. serve_event x"
    and "exercise_event ev \<Longrightarrow> \<exists>x \<in> set as. plug_event x"
proof -
  obtain s t where s: "life_path Fresh as s" and step: "life_step s ev t"
    using life_path_split [OF assms] by (auto simp: life_path_Cons)
  show "\<exists>x \<in> set as. serve_event x" if "plug_event ev"
    using step that served_before [OF s] by cases (auto simp: quiet_event_def dest: event_classes)
  show "\<exists>x \<in> set as. plug_event x" if "exercise_event ev"
    using step that plugged_before [OF s] by cases (auto simp: quiet_event_def dest: event_classes)
qed



subsection \<open>Runs that touch no device\<close>

text \<open>C12. A run that finds the lock taken stops there: it runs no command, starts nothing and writes
  no attribute, and ends with the error of the phase \<open>lock\<close>, unless the lock file cannot even be
  written.\<close>

theorem lock_refuses:
  assumes "lock_busy (host w)"
  shows "(fst (execute_try E w) = Exn (PhaseError Lock
        ''another canokey-usbip environment is active on this runner'' 1)
      \<or> (\<exists>e. fst (execute_try E w) = Exn e \<and> is_os_error e))
    \<and> trace (host (snd (execute_try E w))) = trace (host w)
    \<and> world0.more (snd (execute_try E w)) = world0.more w"
proof -
  let ?lock = "write_text (temp_dir w @ [''canokey-usbip.lock'']) [] :: (harness_state, unit) act"
  have quiet: "within (evolves_le (\<lambda>_. False)) ?lock" by (rule evolving.within_write_text)
  have out: "within (\<lambda>w w'. world0.more w' = world0.more w) ?lock" by (rule outside.within_write_text)
  show ?thesis
  proof (cases rule: outcome_cases [of ?lock w])
    case (Ret u w1)
    then have "lock_busy (host w1)"
      using assms by (auto simp: write_text_def write_content_def hostA_def put_node_def
          split: option.splits)
    then show ?thesis
      using Ret host_evolves_silent withinD [OF quiet Ret] withinD [OF out Ret]
      by (simp add: execute_try_def prepare_phases_def acquire_lock_def act_simps askH_def)
  next
    case (Exn e w1)
    have "ends is_os_error False ?lock" by (rule ends_write_text) simp
    from endsD_Exn [OF this Exn] have "is_os_error e" .
    then show ?thesis
      using Exn host_evolves_silent withinD [OF quiet Exn] withinD [OF out Exn]
      by (simp add: execute_try_def prepare_phases_def acquire_lock_def act_simps)
  next
    case (Blocked w1)
    have "ends is_os_error False ?lock" by (rule ends_write_text) simp
    from endsD_Blocked [OF this Blocked] show ?thesis ..
  qed
qed

theorem lock_refuses_witness:
  "trace (host (snd (execute_try quiet (sample_run\<lparr>host := sample_host\<lparr>lock_busy := True\<rparr>\<rparr>)))) = []"
  using lock_refuses [of "sample_run\<lparr>host := sample_host\<lparr>lock_busy := True\<rparr>\<rparr>" quiet]
  by (simp add: sample_defs)

text \<open>
  A build-only run: as long as it does not own an attachment, it acquires none, and its commands
  are those of a build.
\<close>

definition build_event :: "event \<Rightarrow> bool" where
  "build_event ev \<longleftrightarrow>
     (\<exists>args. ev = EvRun (''git'' # args)) \<or> (\<exists>args. ev = EvRun (''cmake'' # args))
     \<or> ev = EvRun [''usbip'', ''version''] \<or> (\<exists>tool. ev = EvRun [tool, ''--version''])
     \<or> cleanup_event ev"

definition spares :: "harness_state \<Rightarrow> harness_state \<Rightarrow> bool" where
  "spares w w' \<longleftrightarrow> (build_only (opts w) \<longrightarrow> opts w' = opts w \<and> stays_detached build_event w w')"

interpretation sparing: phase_reader spares build_event
  by unfold_locales (auto simp: spares_def stays_detached_def intro: host_evolves_trans)

lemma sparing_locals: "within spares (set_result i)" "within spares (set_failure m)"
  unfolding set_result_def set_failure_def
  by (intro sparing.within_modifyA; simp add: spares_def stays_detached_def)+

lemma sparing_phase_error: "within spares (handle_phase_error e)"
  by (cases e) (auto intro!: sparing.within_thenA sparing.within_enter sparing_locals
      sparing.within_printA sparing.within_raiseA simp: build_event_def cleanup_event_def)

lemma sparing_handler: "execute_handler e = Some k \<Longrightarrow> within spares k"
  by (auto simp: execute_handler_def orelseA_def onA_def handle_other_def build_event_def
      cleanup_event_def split: if_splits option.splits
      intro!: sparing_phase_error sparing.within_thenA sparing_locals sparing.within_printA)

lemma sparing_try: "within spares (execute_try E)"
  unfolding execute_try_def
proof (rule sparing.within_bindA)
  show "within spares (prepare_phases E)"
    by (rule sparing.within_prepare_phases) (auto simp: build_event_def)
  have "within spares (thenA (set_result 0) (printA s))" for s
    by (intro sparing.within_thenA sparing_locals sparing.within_printA)
      (auto simp: build_event_def cleanup_event_def)
  then show "within spares (bindA (getsA (\<lambda>w. build_only (opts w))) (\<lambda>only.
      if only then thenA (set_result 0) (printA (path_str b)) else run_phases E))" for b
    by (auto simp: within_def spares_def)
qed

lemma sparing_detach: "within spares (detach E)"
proof (rule withinI)
  fix w :: harness_state
  have "run_config (snd (detach E w)) = run_config w"
    by (rule withinD_snd [OF run_fixed.within_detach]) simp_all
  moreover have "stays_detached build_event w (snd (detach E w))"
    by (rule withinD_snd [OF detached_detach])
  ultimately show "spares w (snd (detach E w))" by (simp add: spares_def run_config_def)
qed

lemma sparing_note: "within spares (note_cleanup_error m)"
  unfolding note_cleanup_error_def
  by (intro sparing.within_bindA sparing.within_getsA sparing.within_whenA sparing.within_thenA
      sparing_locals sparing.within_enter)

lemma sparing_finally: "within spares (execute_finally E)"
proof (rule sparing.within_execute_finally)
  show "within spares (collect_debug E)"
    by (rule sparing.within_collect_debug) (auto simp: build_event_def cleanup_event_def)
  show "within spares (stop_server E)"
    by (rule sparing.within_stop_server) (simp add: build_event_def cleanup_event_def)
qed (auto simp: build_event_def cleanup_event_def sparing_detach sparing_note)

lemma sparing_execute: "within spares (execute E)"
  unfolding execute_def
  by (intro sparing.within_thenA sparing.within_modifyA sparing.within_execute_setup
      sparing.within_finallyA sparing.within_catchA sparing_try sparing_finally sparing_handler
      sparing.within_getsA)
    (auto simp: build_event_def spares_def stays_detached_def)

text \<open>C13. A build-only run never touches a device: it runs \<open>git\<close>, \<open>cmake\<close>, version queries and the
  diagnostics, sends signals to a recorded server and prints; it starts no server, runs no test
  command, attaches and detaches nothing, and owns no attachment in the end.\<close>

theorem build_only_touches_no_device:
  assumes "build_only (opts w)" "\<not> owns_attachment w"
  shows "host_evolves build_event (host w) (host (snd (execute E w)))
    \<and> \<not> owns_attachment (snd (execute E w)) \<and> opts (snd (execute E w)) = opts w"
  using withinD_snd [OF sparing_execute, of w E] assms by (simp add: spares_def stays_detached_def)

theorem build_only_touches_no_device_witness:
  "\<not> owns_attachment (snd (execute quiet (sample_run\<lparr>opts := sample_options\<lparr>build_only := True\<rparr>\<rparr>)))"
  using build_only_touches_no_device [of "sample_run\<lparr>opts := sample_options\<lparr>build_only := True\<rparr>\<rparr>" quiet]
  by (simp add: sample_defs)

end
