(* ===== verification/Control.thy ===== *)
theory Control
  imports Execute
begin

section \<open>\<open>control.py\<close>: operating the device from a test command\<close>

text \<open>
  The helpers a test command calls. They run in a process of their own, so they know the
  device only through the state file: \<open>load_state\<close> reads it, the commands change the device
  and write it back. \<open>control_state\<close> extends the platform state with the file's path and the
  loaded dictionary.
\<close>

subsection \<open>State\<close>

record control_state = plat_state +
  ctl_path :: path
  ctl_state :: "(string \<times> json) list"

text \<open>\<open>Path(text)\<close> of an absolute path.\<close>

fun path_parts :: "string \<Rightarrow> string \<Rightarrow> path" where
  "path_parts acc [] = (if acc = [] then [] else [rev acc])"
| "path_parts acc (c # cs) =
     (if c = CHR ''/'' then (if acc = [] then path_parts [] cs else rev acc # path_parts [] cs)
      else path_parts (c # acc) cs)"

definition path_of :: "string \<Rightarrow> path" where
  "path_of s = filter (\<lambda>c. c \<noteq> ''.'') (path_parts [] s)"

definition load_state :: "('z world0_scheme, path \<times> json) act" where
  "load_state = bindA (askH (\<lambda>h. getenv h ''CANOKEY_USBIP_STATE'')) (\<lambda>v. case v of
     Some (c # cs) \<Rightarrow> bindA (read_json (path_of (c # cs))) (\<lambda>j. retA (path_of (c # cs), j))
   | _ \<Rightarrow> raiseA (RuntimeError
       ''CANOKEY_USBIP_STATE is not set; run this helper inside compat/run''))"

text \<open>\<open>state[key]\<close>, \<open>state.get(key, default)\<close>, \<open>state.update(...)\<close>.\<close>

definition state_get :: "string \<Rightarrow> (control_state, json) act" where
  "state_get k = bindA (getsA ctl_state) (\<lambda>st. liftE (json_get (JObj st) k))"

definition state_get_or :: "string \<Rightarrow> json \<Rightarrow> (control_state, json) act" where
  "state_get_or k d = bindA (getsA ctl_state) (\<lambda>st. liftE (json_get_or (JObj st) k d))"

definition state_set :: "(string \<times> json) list \<Rightarrow> (control_state, unit) act" where
  "state_set kvs = modifyA (\<lambda>w. w\<lparr>ctl_state := dict_update (ctl_state w) kvs\<rparr>)"

definition save_state :: "(control_state, unit) act" where
  "save_state = bindA (getsA (\<lambda>w. (ctl_path w, JObj (ctl_state w)))) (\<lambda>(p, j). write_json p j)"

definition as_text :: "json \<Rightarrow> exn + string" where
  "as_text v = (case v of JStr s \<Rightarrow> Inr s | _ \<Rightarrow> Inl TypeError)"

definition as_port :: "json \<Rightarrow> exn + string option" where
  "as_port v = (case v of JNull \<Rightarrow> Inr None | JStr s \<Rightarrow> Inr (Some s) | _ \<Rightarrow> Inl TypeError)"

subsection \<open>Stopping a process by its id\<close>

text \<open>
  One round of the wait: the process is done when \<open>/proc\<close> shows a zombie (third field of
  \<open>stat\<close>), or when signal 0 finds no process.
\<close>

definition shows_zombie :: "host \<Rightarrow> int \<Rightarrow> bool" where
  "shows_zombie h pid = (case proc_stat_text h pid of
     None \<Rightarrow> False
   | Some s \<Rightarrow> (let ws = py_split s in 2 < length ws \<and> ws ! 2 = ''Z''))"

definition stop_round :: "env \<Rightarrow> int \<Rightarrow> ('z world0_scheme, unit option) act" where
  "stop_round E pid =
     bindA (askH (\<lambda>h. shows_zombie h pid)) (\<lambda>z.
       if z then retA (Some ()) else gone_round E pid)"

definition stop_pid :: "env \<Rightarrow> int option \<Rightarrow> ('z world0_scheme, unit) act" where
  "stop_pid E pid = (case pid of
     None \<Rightarrow> retA ()
   | Some i \<Rightarrow>
       if i = 0 then retA ()
       else bindA (catchA (thenA (killpg E i SIGTERM) (retA True))
              (onA (is_os_kind [ESRCH]) (\<lambda>_. retA False))) (\<lambda>there.
         if \<not> there then retA ()
         else bindA monotonic (\<lambda>t.
           bindA (poll_until E (deadline_after 5 t) 100 (stop_round E i)) (\<lambda>r. case r of
             Some _ \<Rightarrow> retA ()
           | None \<Rightarrow> ignore_errors [ESRCH, EPERM] (killpg E i SIGKILL)))))"

definition as_pid :: "json \<Rightarrow> exn + int option" where
  "as_pid v = (case v of JNull \<Rightarrow> Inr None | JInt i \<Rightarrow> Inr (Some i) | _ \<Rightarrow> Inl TypeError)"

subsection \<open>Waiting for a reader to disappear\<close>

definition removed_round :: "env \<Rightarrow> string \<Rightarrow> ('z world0_scheme, unit option) act" where
  "removed_round E reader =
     bindA (pcsc_readers E) (\<lambda>rs. case rs of
       None \<Rightarrow> retA None
     | Some xs \<Rightarrow> retA (if reader \<notin> set xs then Some () else None))"

definition wait_reader_removed :: "env \<Rightarrow> string \<Rightarrow> int \<Rightarrow> ('z world0_scheme, unit) act" where
  "wait_reader_removed E reader secs =
     bindA monotonic (\<lambda>t.
     bindA (poll_until E (deadline_after secs t) 100 (removed_round E reader)) (\<lambda>r. case r of
       Some _ \<Rightarrow> retA ()
     | None \<Rightarrow> raiseA (RuntimeError
         (''PC/SC reader did not disappear after detach: '' @ reader))))"

subsection \<open>Configuring the platform from the state\<close>

definition requirement_list :: "json \<Rightarrow> exn + string list" where
  "requirement_list v = bindE (json_iter v) (mapE as_text)"

definition configure_platform :: "(control_state, unit) act" where
  "configure_platform =
     bindA (state_get ''output_dir'') (\<lambda>o'. bindA (liftE (as_text o')) (\<lambda>out.
     bindA (state_get ''timeout'') (\<lambda>t. bindA (liftE (json_int t)) (\<lambda>secs.
     bindA (state_get_or ''readiness_requirements'' (JList [])) (\<lambda>r.
     bindA (liftE (requirement_list r)) (\<lambda>reqs.
     thenA (modifyA (\<lambda>w. plat_state.extend
         (init_platform (host w) (path_of out) secs reqs) (plat_state.more w)))
    (bindA (state_get_or ''usb_vid'' (JStr DEFAULT_VID)) (\<lambda>v. bindA (liftE (as_text v)) (\<lambda>vid.
     bindA (state_get_or ''usb_pid'' (JStr DEFAULT_PID)) (\<lambda>p. bindA (liftE (as_text p)) (\<lambda>pid.
       set_usb_identity vid pid)))))))))))"

subsection \<open>Starting\<close>

definition restart_round :: "env \<Rightarrow> popen \<Rightarrow> (control_state, unit option) act" where
  "restart_round E p =
     bindA (popen_poll p) (\<lambda>(rc, _). case rc of
       Some code \<Rightarrow> raiseA (RuntimeError
         (''canokey-usbip exited during restart ('' @ show_int code @ '')''))
     | None \<Rightarrow> bindA (run_command E list_command None (Some 3) None False) (\<lambda>r.
         retA (if bus_listed r then Some () else None)))"

definition start_attempt :: "env \<Rightarrow> path set \<Rightarrow> popen \<Rightarrow> (control_state, unit) act" where
  "start_attempt E before p =
     bindA monotonic (\<lambda>t.
     bindA (state_get ''timeout'') (\<lambda>tv. bindA (liftE (json_int tv)) (\<lambda>secs.
     bindA (poll_until E (deadline_after (min secs 15) t) 250 (restart_round E p)) (\<lambda>r. case r of
       None \<Rightarrow> raiseA (RuntimeError ''canokey-usbip did not become ready during restart'')
     | Some _ \<Rightarrow>
         thenA (attach E before)
        (thenA (thenA (wait_ready E) (retA ()))
        (thenA (bindA (getsA usb_port) (\<lambda>port. state_set [(''usb_port'', json_opt_str port)]))
           save_state))))))"

text \<open>
  \<open>except BaseException\<close>: a failed start detaches what it attached, stops the server it
  started, and records that neither exists, before the exception goes on.
\<close>

definition start_rollback :: "env \<Rightarrow> popen \<Rightarrow> exn \<Rightarrow> (control_state, unit) act" where
  "start_rollback E p e =
     thenA (bindA (getsA owns_attachment) (\<lambda>owns. whenA owns
         (catchA (detach E) (onA is_exception (\<lambda>_. retA ())))))
    (thenA (stop_pid E (Some (p_pid p)))
    (thenA (state_set [(''pid'', JNull), (''usb_port'', JNull)])
    (thenA save_state (raiseA e))))"

definition start_guarded :: "env \<Rightarrow> path set \<Rightarrow> popen \<Rightarrow> (control_state, unit) act" where
  "start_guarded E before p =
     catchA (start_attempt E before p) (\<lambda>e. Some (start_rollback E p e))"

definition launch_command :: "(control_state, string list) act" where
  "launch_command =
     bindA (state_get ''binary'') (\<lambda>b. bindA (liftE (as_text b)) (\<lambda>bin.
     bindA (state_get ''storage'') (\<lambda>s. bindA (liftE (as_text s)) (\<lambda>st.
     bindA (state_get_or ''touch'' JNull) (\<lambda>t.
       retA ([bin, st, show_nat USBIP_PORT] @ (if json_truth t then [''touch''] else [])))))))"

definition start :: "env \<Rightarrow> (control_state, unit) act" where
  "start E =
     thenA configure_platform
    (thenA (prepare_host E)
    (bindA matching_usb_devices (\<lambda>before.
     thenA (bindA (getsA output_dir) (\<lambda>out. open_append (out @ [''usbip.log''])))
    (bindA launch_command (\<lambda>command.
     bindA (askH environ) (\<lambda>inherited.
     bindA (popenA E command inherited) (\<lambda>p.
     thenA (state_set [(''pid'', JInt (p_pid p)), (''usb_port'', JNull)])
    (thenA save_state (start_guarded E before p)))))))))"

subsection \<open>The commands\<close>

datatype control_command =
    CmdStart | CmdStop | CmdAttach | CmdDetach | CmdRestart | CmdTouch | CmdCollectDebug

definition stop_device :: "env \<Rightarrow> (control_state, unit) act" where
  "stop_device E =
     thenA (detach E)
    (thenA (bindA (state_get_or ''pid'' JNull) (\<lambda>v. bindA (liftE (as_pid v)) (stop_pid E)))
    (thenA (state_set [(''pid'', JNull), (''usb_port'', JNull)]) save_state))"

definition attach_again :: "env \<Rightarrow> (control_state, unit) act" where
  "attach_again E =
     bindA matching_usb_devices (\<lambda>before.
     thenA (attach E before)
    (thenA (thenA (wait_ready E) (retA ()))
    (thenA (bindA (getsA usb_port) (\<lambda>port. state_set [(''usb_port'', json_opt_str port)]))
       save_state)))"

definition detach_recorded :: "env \<Rightarrow> (control_state, unit) act" where
  "detach_recorded E =
     thenA (detach E) (thenA (state_set [(''usb_port'', JNull)]) save_state)"

definition touch_device :: "env \<Rightarrow> (control_state, unit) act" where
  "touch_device E =
     bindA (state_get ''pid'') (\<lambda>v. bindA (liftE (json_int v)) (\<lambda>pid. kill_one E pid SIGINT))"

definition wait_old_reader :: "env \<Rightarrow> (control_state, unit) act" where
  "wait_old_reader E =
     bindA (askH (\<lambda>h. getenv h ''CANOKEY_PCSC_READER'')) (\<lambda>r. case r of
       Some (c # cs) \<Rightarrow> wait_reader_removed E (c # cs) 10
     | _ \<Rightarrow> retA ())"

text \<open>The attachment is the device's as soon as the state file records a port.\<close>

definition recall_port :: "(control_state, unit) act" where
  "recall_port =
     bindA (state_get_or ''usb_port'' JNull) (\<lambda>v. bindA (liftE (as_port v)) (\<lambda>port.
       modifyA (\<lambda>w. w\<lparr>usb_port := port, owns_attachment := (port \<noteq> None)\<rparr>)))"

fun dispatch :: "env \<Rightarrow> control_command \<Rightarrow> (control_state, unit) act" where
  "dispatch E CmdStop = stop_device E"
| "dispatch E CmdRestart = thenA (stop_device E) (thenA (wait_old_reader E) (start E))"
| "dispatch E CmdStart = start E"
| "dispatch E CmdAttach = attach_again E"
| "dispatch E CmdDetach = detach_recorded E"
| "dispatch E CmdTouch = touch_device E"
| "dispatch E CmdCollectDebug = collect_debug E"

definition configure_helper :: "(control_state, unit) act" where
  "configure_helper =
     bindA load_state (\<lambda>(p, j).
     bindA (liftE (case j of JObj kvs \<Rightarrow> Inr kvs | _ \<Rightarrow> Inl TypeError)) (\<lambda>kvs.
     thenA (modifyA (\<lambda>w. w\<lparr>ctl_path := p, ctl_state := kvs\<rparr>))
    (thenA configure_platform recall_port)))"

definition control_main :: "env \<Rightarrow> control_command \<Rightarrow> (control_state, int) act" where
  "control_main E command = thenA configure_helper (thenA (dispatch E command) (retA 0))"

text \<open>The process exit: expected errors are printed and become status 1.\<close>

definition control_process :: "env \<Rightarrow> control_command \<Rightarrow> (control_state, int) act" where
  "control_process E command =
     catchA (control_main E command)
       (onA (\<lambda>e. is_runtime_error e \<or> is_os_error e \<or> is_timeout e) (\<lambda>exc.
          thenA (printA (''canokey-usbip control: '' @ exn_str exc)) (retA 1)))"

lemmas evaluate_control [evaluate] =
  load_state_def [THEN fun_cong] state_get_def [THEN fun_cong] state_get_or_def [THEN fun_cong]
  state_set_def [THEN fun_cong] save_state_def [THEN fun_cong] stop_round_def [THEN fun_cong]
  stop_pid_def [THEN fun_cong] removed_round_def [THEN fun_cong]
  wait_reader_removed_def [THEN fun_cong] configure_platform_def [THEN fun_cong]
  restart_round_def [THEN fun_cong] start_attempt_def [THEN fun_cong]
  start_rollback_def [THEN fun_cong] start_guarded_def [THEN fun_cong] launch_command_def [THEN fun_cong] start_def [THEN fun_cong]
  stop_device_def [THEN fun_cong] attach_again_def [THEN fun_cong]
  detach_recorded_def [THEN fun_cong] touch_device_def [THEN fun_cong]
  wait_old_reader_def [THEN fun_cong] recall_port_def [THEN fun_cong]
  configure_helper_def [THEN fun_cong] control_main_def [THEN fun_cong] control_process_def [THEN fun_cong]

end
