(* ===== verification/ControlFacts.thy ===== *)
theory ControlFacts
  imports Control TestFacts
begin

section \<open>What the control commands guarantee\<close>

text \<open>
  The commands of \<open>control.py\<close>: stopping by process id ends and signals one group only, a failed
  start is rolled back, a stop is recorded, the state file carries the configuration of a run over
  to its helpers, and the wait for a removed reader is a real wait.
\<close>

subsection \<open>Polling loops\<close>

lemma within_stop_round:
  assumes "host_client R P" shows "within R (stop_round E pid)"
  unfolding stop_round_def gone_round_def
  by (intro host_client.host_rules [OF assms] effect_contract.within_modifyA)

interpretation stop_poll: polling E 100 "stop_round E pid" for E pid
  by unfold_locales (simp_all add: within_stop_round [OF clock.host_client_axioms])

lemma within_removed_round:
  assumes "host_client R P" shows "within R (removed_round E reader)"
  unfolding removed_round_def
  by (intro host_client.host_rules [OF assms] host_client.within_pcsc_readers [OF assms])

interpretation removed_poll: polling E 100 "removed_round E reader" for E reader
  by unfold_locales (simp_all add: within_removed_round [OF clock.host_client_axioms])

lemma within_restart_round: "within clock_le (restart_round E p)"
  unfolding restart_round_def by (intro clock.host_rules) simp

interpretation restart_poll: polling E 250 "restart_round E p" for E p
  by unfold_locales (simp_all add: within_restart_round)

subsection \<open>Stopping by process id\<close>

lemma within_stop_pid:
  assumes "\<And>g sig. g \<noteq> 0 \<Longrightarrow> pid = Some g \<Longrightarrow> P (EvKillpg g sig)"
  shows "within (evolves_le P) (stop_pid E pid)"
proof (cases pid)
  case None
  then show ?thesis by (simp add: stop_pid_def evolving.within_retA)
next
  case (Some i)
  show ?thesis
    unfolding Some stop_pid_def option.case ignore_errors_def
    by (intro evolving.host_rules within_stop_round [OF evolving.host_client_axioms])
      (simp_all add: assms Some)
qed

text \<open>The system refuses a signal in two ways.\<close>

lemma ends_signals:
  "ends (is_os_kind [ESRCH, EPERM]) False (killpg E g sig)"
  "ends (is_os_kind [ESRCH, EPERM]) False (kill_one E g sig)"
  unfolding killpg_def kill_one_def
  by (rule ends_hostA, auto simp: Let_def split: option.split)+

lemma ends_stop_round: "ends (is_os_kind [EPERM]) False (stop_round E pid)"
proof -
  have "ends (is_os_kind [EPERM]) False (gone_round E pid)"
    unfolding gone_round_def
    by (rule ends_catch_onA [where Y = "is_os_kind [ESRCH, EPERM]"])
      (auto intro!: ends_thenA ends_signals ends_retA elim: is_os_kind.elims)
  then show ?thesis unfolding stop_round_def by (intro ends_rules)
qed

lemma ends_stop_pid: "ends (is_os_kind [EPERM]) False (stop_pid E pid)"
proof -
  have first: "ends (is_os_kind [EPERM]) False (catchA (thenA (killpg E i SIGTERM) (retA True))
      (onA (is_os_kind [ESRCH]) (\<lambda>_. retA False)))" for i
    by (rule ends_catch_onA [where Y = "is_os_kind [ESRCH, EPERM]"])
      (auto intro!: ends_thenA ends_signals ends_retA elim: is_os_kind.elims)
  have last: "ends (is_os_kind [EPERM]) False (ignore_errors [ESRCH, EPERM] (killpg E i SIGKILL))" for i
    by (rule ends_ignore_errors [OF ends_signals(1)]) simp
  show ?thesis
    unfolding stop_pid_def
    by (intro ends_rules first last stop_poll.poll_ends ends_stop_round)
qed

text \<open>Stopping a server by its recorded process id signals that process group and no other, never
  group 0, which would be the caller's own; it always ends, and only a refused permission escapes.
  Nothing happens without a recorded process.\<close>

lemma stop_pid_bounded:
  "host_evolves (\<lambda>ev. \<exists>g sig. ev = EvKillpg g sig \<and> g \<noteq> 0 \<and> pid = Some g)
     (host w) (host (snd (stop_pid E pid w)))
   \<and> (case fst (stop_pid E pid w) of Ret _ \<Rightarrow> True | Exn e \<Rightarrow> is_os_kind [EPERM] e | Blocked \<Rightarrow> False)"
  using withinD_snd [OF within_stop_pid [of pid "\<lambda>ev. \<exists>g sig. ev = EvKillpg g sig \<and> g \<noteq> 0 \<and> pid = Some g" E], of w]
    ends_at [OF ends_stop_pid [of E pid], of w]
  by simp

subsection \<open>Waiting for a removed reader\<close>

lemma ends_removed_round: "ends is_pcsc_error False (removed_round E reader)"
  unfolding removed_round_def by (intro ends_rules) auto

lemma removed_round_Some:
  "removed_round E reader w = (Ret (Some u), w') \<Longrightarrow>
     \<exists>xs. pcsc_readers E w = (Ret (Some xs), w') \<and> reader \<notin> set xs"
  by (auto simp: removed_round_def elim!: bindA_RetE split: option.splits if_splits)

text \<open>C37. The wait after a detach returns only when PC/SC, asked within the time limit, has reported its
  readers and the old one is not among them; an unavailable PC/SC does not count. Otherwise it ends
  with a \<open>RuntimeError\<close> once the limit has passed, or with the error of a failed query. It runs no
  command and always ends.\<close>

theorem reader_wait_is_real:
  "case wait_reader_removed E reader secs w of
     (Ret _, w') \<Rightarrow> \<exists>w0 xs. now (host w0) < deadline_after secs (now (host w))
       \<and> host_evolves (\<lambda>_. False) (host w) (host w0)
       \<and> pcsc_readers E w0 = (Ret (Some xs), w') \<and> reader \<notin> set xs
   | (Exn e, w') \<Rightarrow> is_pcsc_error e
       \<or> (\<exists>m. e = RuntimeError m \<and> deadline_after secs (now (host w)) \<le> now (host w'))
   | (Blocked, _) \<Rightarrow> False"
proof -
  let ?d = "deadline_after secs (now (host w))"
  let ?loop = "poll_until E ?d 100 (removed_round E reader)"
  have ends: "ends is_pcsc_error False ?loop" by (rule removed_poll.poll_ends [OF ends_removed_round])
  have unfold: "wait_reader_removed E reader secs w = bindA ?loop (\<lambda>r. case r of Some _ \<Rightarrow> retA ()
     | None \<Rightarrow> raiseA (RuntimeError (''PC/SC reader did not disappear after detach: '' @ reader))) w"
    unfolding wait_reader_removed_def monotonic_def askH_def bindA_def [of "\<lambda>w. (Ret _, w)"]
    by (simp only: bindA_simps)
  show ?thesis
  proof (cases rule: outcome_cases [of ?loop w])
    case (Ret r w1)
    show ?thesis
    proof (cases r)
      case None
      with removed_poll.poll_timeout Ret have "?d \<le> now (host w1)" by blast
      with Ret None show ?thesis by (simp add: unfold act_simps)
    next
      case (Some u)
      from removed_poll.poll_from_round [OF evolving.host_client_axioms
          within_removed_round [OF evolving.host_client_axioms] Ret [unfolded Some]]
      obtain w0 where w0: "host_evolves (\<lambda>_. False) (host w) (host w0)" "now (host w0) < ?d"
        "removed_round E reader w0 = (Ret (Some u), w1)" by blast
      then obtain xs where "pcsc_readers E w0 = (Ret (Some xs), w1)" "reader \<notin> set xs"
        using removed_round_Some [OF w0(3)] by auto
      with w0 Ret Some show ?thesis by (auto simp: unfold act_simps)
    qed
  next
    case (Exn e w1)
    then show ?thesis using endsD_Exn [OF ends Exn] by (simp add: unfold act_simps)
  next
    case (Blocked w1)
    then show ?thesis using endsD_Blocked [OF ends Blocked] by simp
  qed
qed

subsection \<open>The state file\<close>

text \<open>The control state lies beyond the platform's own fields, which is all its operations write.\<close>

lemma plat_config_control:
  "plat_config w' = plat_config w \<Longrightarrow> ctl_state w' = ctl_state w \<and> ctl_path w' = ctl_path w"
  by (cases w; cases w') (simp add: plat_config_def control_state.defs plat_state.defs)

definition saved :: "control_state \<Rightarrow> bool" where
  "saved w \<longleftrightarrow> node_at (host w) (ctl_path w) = Some (File (Doc (JObj (ctl_state w))))"

lemma save_state_host: "\<exists>h. snd (save_state w) = w\<lparr>host := h\<rparr>"
  by (cases "open_error (host w) (ctl_path w)")
    (auto simp: save_state_def write_json_def write_content_def hostA_def intro: exI [of _ "host w"])

text \<open>\<open>recorded w w' m\<close>: the state file at \<open>w'\<close> holds the state of \<open>w\<close> with the entries of \<open>m\<close> set.\<close>

definition recorded :: "control_state \<Rightarrow> control_state \<Rightarrow> (string \<rightharpoonup> json) \<Rightarrow> bool" where
  "recorded w w' m \<longleftrightarrow> ctl_path w' = ctl_path w \<and> map_of (ctl_state w') = map_of (ctl_state w) ++ m \<and> saved w'"

lemma state_set_save:
  assumes "thenA (state_set kvs) save_state w = (Ret (), w')"
  shows "recorded w w' (map_of (rev kvs))" "usb_port w' = usb_port w"
proof -
  let ?w = "w\<lparr>ctl_state := dict_update (ctl_state w) kvs\<rparr>"
  have s: "save_state ?w = (Ret (), w')"
    using assms by (simp add: state_set_def)
  moreover obtain h where "snd (save_state ?w) = ?w\<lparr>host := h\<rparr>" using save_state_host by blast
  ultimately have w': "w' = ?w\<lparr>host := h\<rparr>" by simp
  have "node_at (host w') (ctl_path ?w) = Some (File (Doc (JObj (ctl_state ?w))))"
    using s by (auto simp: save_state_def write_json_def dest: write_content_Ret)
  then show "recorded w w' (map_of (rev kvs))" "usb_port w' = usb_port w"
    by (simp_all add: w' recorded_def saved_def map_of_dict_update)
qed

lemma ends_save_state: "ends is_os_error False save_state"
  unfolding save_state_def by (intro ends_rules) (auto intro!: ends_rules)

subsection \<open>A failed start\<close>

text \<open>What no operation of a start writes: every entry of the state but the port.\<close>

definition other_entries :: "control_state \<Rightarrow> path \<times> (string \<rightharpoonup> json)" where
  "other_entries w = (ctl_path w, (map_of (ctl_state w))(''usb_port'' := None))"

interpretation entries_kept: platform_client "\<lambda>w w'. other_entries w' = other_entries w" "\<lambda>_. True"
  by unfold_locales (auto simp: other_entries_def)

lemma entries_state_set: "leaves other_entries (state_set [(''usb_port'', j)])"
  unfolding state_set_def
  by (rule same.within_modifyA)
    (simp add: other_entries_def map_of_dict_update)

lemma entries_save_state: "leaves other_entries save_state"
  unfolding save_state_def by (intro entries_kept.host_rules)

lemma entries_start_attempt:
  "leaves other_entries (start_attempt E before p)"
  unfolding start_attempt_def restart_round_def state_get_def
  by (intro entries_kept.platform_rules entries_state_set entries_save_state) auto

lemma ends_wait_ready: "ends (\<lambda>_. True) False (wait_ready E)"
proof -
  have "ends (\<lambda>_. True) False (ready_round E)"
    unfolding ready_round_def judge_probe_def
    by (intro ends_rules ends_catch_onA [where Y = is_pcsc_error]) auto
  then show ?thesis
    unfolding wait_ready_def by (intro ends_rules ready_poll.poll_ends) auto
qed

lemma ends_start_attempt: "ends (\<lambda>_. True) False (start_attempt E before p)"
proof -
  have "ends (\<lambda>_. True) False (restart_round E p)"
    unfolding restart_round_def by (intro ends_rules) auto
  note round = restart_poll.poll_ends [OF this]
  have "ends (\<lambda>_. True) False (attach E before)" "ends (\<lambda>_. True) False (wait_ready E)"
    "ends (\<lambda>_. True) False save_state"
    by (rule ends_mono [OF ends_attach] ends_wait_ready ends_mono [OF ends_save_state]; simp)+
  then show ?thesis
    unfolding start_attempt_def state_get_def state_set_def
    by (intro ends_rules round) auto
qed

lemma liftE_Ret: "liftE r s = (Ret x, t) \<Longrightarrow> r = Inr x \<and> t = s"
  by (cases r) (simp_all add: liftE_def)

lemma start_attempt_Ret:
  assumes "start_attempt E before p w = (Ret u, w')"
  shows "recorded w w' [''usb_port'' \<mapsto> json_opt_str (usb_port w')]"
proof -
  from assms obtain secs v w1 w2 st w3 where
    steps: "poll_until E (deadline_after (min secs 15) (now (host w))) 250 (restart_round E p) w = (Ret v, w1)"
      "attach E before w1 = (Ret (), w2)" "wait_ready E w2 = (Ret st, w3)"
    and last: "thenA (state_set [(''usb_port'', json_opt_str (usb_port w3))]) save_state w3 = (Ret u, w')"
    unfolding start_attempt_def monotonic_def state_get_def
    by (auto elim!: bindA_RetE thenA_RetE split: option.splits dest!: liftE_Ret simp: state_set_def)
  have "within (\<lambda>w w'. plat_config w' = plat_config w) (restart_round E p)"
    unfolding restart_round_def by (intro plat_fixed.platform_rules) auto
  from withinD [OF plat_fixed.within_poll_until [OF this] steps(1)]
  have "plat_config w1 = plat_config w" .
  moreover have "plat_config w2 = plat_config w1"
    by (rule withinD [OF plat_fixed.within_attach steps(2)]) auto
  moreover have "plat_config w3 = plat_config w2" by (rule withinD [OF plat_fixed.within_wait_ready steps(3)])
  ultimately have "plat_config w3 = plat_config w" by simp
  from plat_config_control [OF this] state_set_save [OF last [unfolded unit_eq [of u]]] show ?thesis
    by (simp add: recorded_def)
qed

text \<open>The detach of a rollback swallows its errors, so that the server is stopped in any case.\<close>

definition quiet_detach :: "env \<Rightarrow> (control_state, unit) act" where
  "quiet_detach E = bindA (getsA owns_attachment) (\<lambda>owns. whenA owns
     (catchA (detach E) (onA is_exception (\<lambda>_. retA ()))))"

lemma quiet_detach_ends: "ends (\<lambda>_. False) False (quiet_detach E)"
  unfolding quiet_detach_def
  by (intro ends_rules ends_catch_onA [OF ends_detach]) (auto simp: os_or_timeout)

lemma quiet_detach_keeps: "leaves plat_config (quiet_detach E)"
  unfolding quiet_detach_def by (intro plat_fixed.platform_rules) auto

lemma stop_pid_keeps: "leaves plat_config (stop_pid E pid)"
  unfolding stop_pid_def ignore_errors_def
  by (intro plat_fixed.platform_rules within_stop_round [OF plat_fixed.host_client_axioms]) auto

definition no_device :: "(string \<times> json) list" where
  "no_device = [(''pid'', JNull), (''usb_port'', JNull)]"

lemma record_ends:
  obtains (Save) w1 e' w' where "thenA (state_set no_device) (thenA save_state k) w = (Exn e', w')"
      "is_os_error e'" "save_state w1 = (Exn e', w')"
    | (Recorded) w' where "thenA (state_set no_device) (thenA save_state k) w = k w'"
      "recorded w w' [''pid'' \<mapsto> JNull, ''usb_port'' \<mapsto> JNull]"
proof -
  let ?w = "w\<lparr>ctl_state := dict_update (ctl_state w) no_device\<rparr>"
  show thesis
  proof (cases rule: outcome_cases [of save_state ?w])
    case (Ret u w')
    then have "thenA (state_set no_device) save_state w = (Ret (), w')" by (simp add: state_set_def)
    from state_set_save(1) [OF this] Ret show thesis
      by (intro Recorded) (simp_all add: state_set_def act_simps no_device_def)
  next
    case (Exn e' w')
    with endsD_Exn [OF ends_save_state Exn] show thesis
      by (intro Save) (simp_all add: state_set_def act_simps)
  next
    case (Blocked w')
    then show thesis using endsD_Blocked [OF ends_save_state] by blast
  qed
qed

lemma overwritten: "f(b := x) = g(b := x) \<Longrightarrow> f(a \<mapsto> u, b \<mapsto> v) = g(a \<mapsto> u, b \<mapsto> v)"
  unfolding fun_eq_iff by (simp split: if_splits) blast

lemma start_rollback_ends:
  obtains (Signal) w1 e' w' where "start_rollback E p e w = (Exn e', w')" "is_os_error e'"
      "stop_pid E (Some (p_pid p)) w1 = (Exn e', w')"
    | (Save) w1 e' w' where "start_rollback E p e w = (Exn e', w')" "is_os_error e'"
      "save_state w1 = (Exn e', w')"
    | (Recorded) w' where "start_rollback E p e w = (Exn e, w')"
      "recorded w w' [''pid'' \<mapsto> JNull, ''usb_port'' \<mapsto> JNull]"
proof -
  obtain w1 where w1: "quiet_detach E w = (Ret (), w1)"
    by (cases rule: outcome_cases [of "quiet_detach E" w])
      (auto dest: endsD_Exn [OF quiet_detach_ends] endsD_Blocked [OF quiet_detach_ends])
  have step: "start_rollback E p e w = thenA (stop_pid E (Some (p_pid p)))
      (thenA (state_set no_device) (thenA save_state (raiseA e))) w1"
    using w1 by (simp add: start_rollback_def quiet_detach_def no_device_def act_simps)
  show thesis
  proof (cases rule: outcome_cases [of "stop_pid E (Some (p_pid p))" w1])
    case (Exn e' w')
    with endsD_Exn [OF ends_stop_pid Exn] step show thesis
      by (intro Signal) (auto simp: act_simps elim: is_os_kind.elims)
  next
    case (Blocked w')
    then show thesis using endsD_Blocked [OF ends_stop_pid] by blast
  next
    case (Ret u w2)
    with step have step: "start_rollback E p e w =
        thenA (state_set no_device) (thenA save_state (raiseA e)) w2" by (simp add: act_simps)
    have "plat_config w2 = plat_config w"
      using withinD [OF quiet_detach_keeps w1] withinD [OF stop_pid_keeps Ret] by simp
    note kept = plat_config_control [OF this]
    show thesis
    proof (cases rule: record_ends [where k = "raiseA e :: (control_state, unit) act" and w = w2])
      case (Save w3 e' w')
      with step show thesis by (intro that(2)) simp_all
    next
      case (Recorded w')
      with step kept show thesis by (intro that(3)) (simp_all add: recorded_def)
    qed
  qed
qed

text \<open>C34. The helper that starts the server again either succeeds, and then the state file records the
  port of the attachment, or it fails with the error of the failed step. In that case the state
  file records neither a process nor a port, and keeps every other entry; unless stopping the new
  process or writing the file was itself refused. It always ends.\<close>

theorem failed_start_rolled_back:
  "case start_guarded E before p w of
     (Ret _, w') \<Rightarrow> recorded w w' [''usb_port'' \<mapsto> json_opt_str (usb_port w')]
   | (Exn e, w') \<Rightarrow> (\<exists>e0. fst (start_attempt E before p w) = Exn e0
       \<and> (e = e0 \<and> recorded w w' [''pid'' \<mapsto> JNull, ''usb_port'' \<mapsto> JNull]
         \<or> is_os_error e \<and> (\<exists>w1. stop_pid E (Some (p_pid p)) w1 = (Exn e, w')
                              \<or> save_state w1 = (Exn e, w'))))
   | (Blocked, _) \<Rightarrow> False"
proof (cases rule: outcome_cases [of "start_attempt E before p" w])
  case (Ret u w')
  with start_attempt_Ret [OF Ret] show ?thesis by (simp add: start_guarded_def act_simps)
next
  case (Blocked w')
  then show ?thesis using endsD_Blocked [OF ends_start_attempt] by blast
next
  case (Exn e0 w0)
  then have guarded: "start_guarded E before p w = start_rollback E p e0 w0"
    by (simp add: start_guarded_def act_simps)
  from withinD [OF entries_start_attempt Exn] have same: "ctl_path w0 = ctl_path w"
    and others: "(map_of (ctl_state w0))(''usb_port'' := None) = (map_of (ctl_state w))(''usb_port'' := None)"
    by (simp_all add: other_entries_def)
  have "(map_of (ctl_state w0))(''pid'' \<mapsto> JNull, ''usb_port'' \<mapsto> JNull)
      = (map_of (ctl_state w))(''pid'' \<mapsto> JNull, ''usb_port'' \<mapsto> JNull)"
    by (rule overwritten [OF others])
  with same have "recorded w w' [''pid'' \<mapsto> JNull, ''usb_port'' \<mapsto> JNull]"
    if "recorded w0 w' [''pid'' \<mapsto> JNull, ''usb_port'' \<mapsto> JNull]" for w'
    using that by (simp add: recorded_def)
  then show ?thesis
    unfolding guarded using Exn by (cases rule: start_rollback_ends [of E p e0 w0]) auto
qed

subsection \<open>Stopping the device\<close>

definition stop_recorded_pid :: "env \<Rightarrow> (control_state, unit) act" where
  "stop_recorded_pid E = bindA (state_get_or ''pid'' JNull) (\<lambda>v. bindA (liftE (as_pid v)) (stop_pid E))"

text \<open>What the recorded process id makes of the stop.\<close>

lemma stop_recorded_pid_cases:
  obtains (Nothing) "stop_recorded_pid E w = (Ret (), w)"
    | (Bad) "stop_recorded_pid E w = (Exn TypeError, w)"
    | (Process) i where "map_of (ctl_state w) ''pid'' = Some (JInt i)"
        "stop_recorded_pid E w = stop_pid E (Some i) w"
proof (cases "map_of (ctl_state w) ''pid''")
  case None
  then show thesis
    by (intro Nothing) (simp add: stop_recorded_pid_def state_get_or_def json_get_or_def as_pid_def
        liftE_def stop_pid_def evaluate_bindA)
next
  case (Some v)
  then show thesis
    using Nothing Bad Process
    by (cases v) (simp_all add: stop_recorded_pid_def state_get_or_def json_get_or_def as_pid_def
        liftE_def stop_pid_def evaluate_bindA)
qed

lemma ends_stop_recorded_pid:
  "ends (\<lambda>e. is_os_error e \<or> e = TypeError) False (stop_recorded_pid E)"
proof -
  have stop: "ends (\<lambda>e. is_os_error e \<or> e = TypeError) False (stop_pid E x)" for x
    by (rule ends_mono [OF ends_stop_pid]) (auto elim: is_os_kind.elims)
  show ?thesis
    unfolding stop_recorded_pid_def state_get_or_def as_pid_def
    by (intro ends_rules stop) (auto simp: json_get_or_def split: json.splits option.splits)
qed

lemma stop_recorded_pid_effect:
  assumes "\<And>g sig. g \<noteq> 0 \<Longrightarrow> map_of (ctl_state w) ''pid'' = Some (JInt g) \<Longrightarrow> P (EvKillpg g sig)"
  shows "evolves_le P w (snd (stop_recorded_pid E w))"
    and "plat_config (snd (stop_recorded_pid E w)) = plat_config w"
proof -
  have "evolves_le P w (snd (stop_recorded_pid E w))
      \<and> plat_config (snd (stop_recorded_pid E w)) = plat_config w"
  proof (cases rule: stop_recorded_pid_cases [of E w])
    case (Process i)
    with withinD_snd [OF within_stop_pid [of "Some i" P E], of w] withinD_snd [OF stop_pid_keeps [of E "Some i"], of w]
    show ?thesis using assms by simp
  qed simp_all
  then show "evolves_le P w (snd (stop_recorded_pid E w))"
    "plat_config (snd (stop_recorded_pid E w)) = plat_config w" by simp_all
qed

lemma thenA_retA_unit: "thenA m (retA ()) = m"
  by (auto simp: act_defs fun_eq_iff split: prod.splits outcome.splits)

lemma stop_device_steps:
  "stop_device E = thenA (detach E) (thenA (stop_recorded_pid E)
     (thenA (state_set no_device) (thenA save_state (retA ()))))"
  by (simp add: stop_device_def stop_recorded_pid_def no_device_def thenA_retA_unit)

lemma touch_fails: "map_of (ctl_state w) ''pid'' = Some JNull \<Longrightarrow> touch_device E w = (Exn TypeError, w)"
  by (simp add: touch_device_def state_get_def json_get_def json_int_def liftE_def evaluate_bindA)

text \<open>C36. The command \<open>stop\<close> always ends. It runs \<open>usbip port\<close> and the privileged \<open>usbip detach\<close> and
  signals only the process group of the recorded process, never group 0. When it succeeds, the state
  file records neither a process nor a port and keeps every other entry, and a following
  \<open>touch\<close> raises a \<open>TypeError\<close>, which the helper does not report as its own error.\<close>

theorem stop_device_spec:
  "host_evolves (\<lambda>ev. ev = EvRun [''usbip'', ''port'']
       \<or> (\<exists>h p. ev = EvRun (privileged h (detach_command p)))
       \<or> (\<exists>g sig. ev = EvKillpg g sig \<and> g \<noteq> 0 \<and> map_of (ctl_state w) ''pid'' = Some (JInt g)))
     (host w) (host (snd (stop_device E w)))
   \<and> (case stop_device E w of
        (Ret _, w') \<Rightarrow> recorded w w' [''pid'' \<mapsto> JNull, ''usb_port'' \<mapsto> JNull]
          \<and> fst (touch_device E w') = Exn TypeError
      | (Exn e, _) \<Rightarrow> is_os_error e \<or> is_timeout e \<or> e = TypeError
      | (Blocked, _) \<Rightarrow> False)"
  (is "host_evolves ?P _ _ \<and> _")
proof -
  let ?tail = "thenA (state_set no_device) (thenA save_state (retA ()))"
  have records: "evolves_le ?P v (snd (?tail v))" for v
    unfolding state_set_def save_state_def
    by (rule withinD_snd [OF evolving.within_thenA]) (intro evolving.host_rules evolving.within_modifyA; simp)+
  have detach: "evolves_le ?P w (snd (detach E w)) \<and> plat_config (snd (detach E w)) = plat_config w"
    by (rule withinD_snd [OF plat_watch.within_detach [where P = ?P]]) auto
  show ?thesis
  proof (cases rule: outcome_cases [of "detach E" w])
    case (Ret u w1)
    with detach have w1: "evolves_le ?P w w1" "ctl_state w1 = ctl_state w" "ctl_path w1 = ctl_path w"
      using plat_config_control [of w1 w] by simp_all
    have stop: "evolves_le ?P w1 (snd (stop_recorded_pid E w1))"
      "plat_config (snd (stop_recorded_pid E w1)) = plat_config w1"
      by (rule stop_recorded_pid_effect; auto simp: w1)+
    show ?thesis
    proof (cases rule: outcome_cases [of "stop_recorded_pid E" w1])
      case (Ret u' w2)
      with stop w1 have w2: "evolves_le ?P w w2" "ctl_state w2 = ctl_state w" "ctl_path w2 = ctl_path w"
        using plat_config_control [of w2 w1] by (auto elim: host_evolves_trans)
      have run: "stop_device E w = ?tail w2"
        using \<open>detach E w = (Ret u, w1)\<close> Ret by (simp add: stop_device_steps act_simps)
      from w2(1) records [of w2] have "evolves_le ?P w (snd (stop_device E w))"
        unfolding run by (rule host_evolves_trans)
      then show ?thesis
        using w2(2,3) by (cases rule: record_ends [where k = "retA () :: (control_state, unit) act" and w = w2])
          (auto simp: run recorded_def touch_fails)
    next
      case (Exn e w2)
      with stop w1 have "evolves_le ?P w w2" by (auto elim: host_evolves_trans)
      with Exn endsD_Exn [OF ends_stop_recorded_pid Exn] \<open>detach E w = (Ret u, w1)\<close>
      show ?thesis by (auto simp: stop_device_steps act_simps)
    next
      case (Blocked w2)
      then show ?thesis using endsD_Blocked [OF ends_stop_recorded_pid] by blast
    qed
  next
    case (Exn e w1)
    with endsD_Exn [OF ends_detach Exn] detach show ?thesis by (auto simp: stop_device_steps act_simps)
  next
    case (Blocked w1)
    then show ?thesis using endsD_Blocked [OF ends_detach] by blast
  qed
qed

subsection \<open>The state file carries a run over to its helpers\<close>

definition plain_name :: "string \<Rightarrow> bool" where
  "plain_name c \<longleftrightarrow> c \<noteq> [] \<and> c \<noteq> ''.'' \<and> CHR ''/'' \<notin> set c"

lemma path_parts_name: "CHR ''/'' \<notin> set c \<Longrightarrow> path_parts acc (c @ s) = path_parts (rev c @ acc) s"
  by (induction c arbitrary: acc) auto

lemma path_parts_names:
  "list_all plain_name p \<Longrightarrow>
     path_parts acc (concat (map (\<lambda>c. CHR ''/'' # c) p)) = (if acc = [] then [] else [rev acc]) @ p"
proof (induction p arbitrary: acc)
  case (Cons c p)
  then have "path_parts [] (c @ concat (map (\<lambda>c. CHR ''/'' # c) p)) = c # p"
    by (simp add: path_parts_name plain_name_def)
  then show ?case by simp
qed simp

lemma path_of_path_str: "list_all plain_name p \<Longrightarrow> path_of (path_str p) = p"
proof -
  assume plain: "list_all plain_name p"
  then have "filter (\<lambda>c. c \<noteq> ''.'') p = p"
    by (simp add: filter_id_conv list_all_iff plain_name_def)
  with path_parts_names [OF plain, of "[]"] show ?thesis
    by (auto simp: path_of_def path_str_def)
qed

lemma requirement_list_strs: "requirement_list (json_strs xs) = Inr xs"
proof -
  have "mapE as_text (map JStr xs) = Inr xs" by (induction xs) (simp_all add: as_text_def)
  then show ?thesis by (simp add: requirement_list_def json_strs_def json_iter_def)
qed

lemma as_port_opt: "as_port (json_opt_str x) = Inr x"
  by (simp add: as_port_def json_opt_str_def split: option.split)

lemma extended_control [simp]:
  "ctl_state \<lparr>host = h, output_dir = d, timeout = t, usb_vid = v, usb_pid = i, readiness_requirements = q,
     device_path = dp, usb_port = up, owns_attachment = a, pcsc_readers_before = b, ready_locals = l,
     \<dots> = plat_state.more w\<rparr> = ctl_state w"
  "ctl_path \<lparr>host = h, output_dir = d, timeout = t, usb_vid = v, usb_pid = i, readiness_requirements = q,
     device_path = dp, usb_port = up, owns_attachment = a, pcsc_readers_before = b, ready_locals = l,
     \<dots> = plat_state.more w\<rparr> = ctl_path w"
  by (cases w; simp)+

lemma configure_platform_run:
  assumes "ctl_state w = kvs" "JObj kvs = state_json hs pid port"
    and "list_all plain_name (run_output_dir hs)"
  shows "\<exists>w'. configure_platform w = (Ret (), w') \<and> host w' = host w \<and> ctl_state w' = kvs
    \<and> ctl_path w' = ctl_path w \<and> output_dir w' = run_output_dir hs
    \<and> timeout w' = opt_timeout (opts hs) \<and> readiness_requirements w' = opt_requirements (opts hs)
    \<and> (usb_vid w', usb_pid w') = (case core hs of
         Some c \<Rightarrow> (cs_usb_vid c, cs_usb_pid c) | None \<Rightarrow> (DEFAULT_VID, DEFAULT_PID))"
  using assms
  by (simp add: state_json_def configure_platform_def state_get_def state_get_or_def json_get_def
      json_get_or_def liftE_def as_text_def json_int_def requirement_list_strs path_of_path_str
      evaluate_bindA evaluate_thenA init_platform_def set_usb_identity_def plat_state.defs
      control_state.defs split: option.split)


lemma read_result_environ: "read_result (h\<lparr>environ := v\<rparr>) p = read_result h p"
  by (simp add: read_result_def node_at_def)

lemma written_state:
  assumes "write_state pid port hs = (Ret (), hs')"
  shows "read_result (host hs') (state_path hs) = Inr (Doc (state_json hs (JInt pid) port))"
  using assms
  by (auto simp: write_state_def write_json_def write_content_def hostA_def open_error_def read_result_def
      node_at_def put_node_def update_conv' split: option.splits if_splits node.splits)

text \<open>C35. The state file carries a run over to its helper commands. When the harness has written it,
  a helper started in the environment of the test command, which names the file, finds the run's
  output directory, time limit, readiness requirements and USB identity, the port of the
  attachment, which is the helper's to detach exactly when a port is recorded, and the server's
  process id.\<close>

theorem state_file_roundtrip:
  assumes "write_state pid port hs = (Ret (), hs')"
    and "list_all plain_name (run_output_dir hs)" "list_all plain_name (state_path hs)"
    and "host w = (host hs')\<lparr>environ := variables\<rparr>"
    and "map_of variables ''CANOKEY_USBIP_STATE'' = Some (path_str (state_path hs))"
  shows "\<exists>w'. configure_helper w = (Ret (), w') \<and> host w' = host w
    \<and> output_dir w' = run_output_dir hs \<and> timeout w' = opt_timeout (opts hs)
    \<and> readiness_requirements w' = opt_requirements (opts hs)
    \<and> (usb_vid w', usb_pid w') = (case core hs of
         Some c \<Rightarrow> (cs_usb_vid c, cs_usb_pid c) | None \<Rightarrow> (DEFAULT_VID, DEFAULT_PID))
    \<and> usb_port w' = port \<and> owns_attachment w' = (port \<noteq> None)
    \<and> ctl_path w' = state_path hs \<and> JObj (ctl_state w') = state_json hs (JInt pid) port"
proof -
  obtain kvs where kvs: "state_json hs (JInt pid) port = JObj kvs" by (simp add: state_json_def)
  have "read_result (host w) (state_path hs) = Inr (Doc (JObj kvs))"
    using written_state [OF assms(1)] kvs assms(4) by (simp add: read_result_environ)
  moreover have "getenv (host w) ''CANOKEY_USBIP_STATE'' = Some (path_str (state_path hs))"
    using assms(4,5) by (simp add: getenv_def)
  moreover obtain y ys where "path_str (state_path hs) = y # ys"
    by (cases "state_path hs") (simp_all add: path_str_def)
  moreover have "path_of (path_str (state_path hs)) = state_path hs" by (rule path_of_path_str [OF assms(3)])
  ultimately have load: "load_state w = (Ret (state_path hs, JObj kvs), w)"
    by (simp add: load_state_def read_json_def read_content_def liftE_def evaluate_bindA)
  let ?w = "w\<lparr>ctl_path := state_path hs, ctl_state := kvs\<rparr>"
  obtain w1 where w1: "configure_platform ?w = (Ret (), w1)" "host w1 = host w" "ctl_state w1 = kvs"
      "ctl_path w1 = state_path hs" "output_dir w1 = run_output_dir hs"
      "timeout w1 = opt_timeout (opts hs)" "readiness_requirements w1 = opt_requirements (opts hs)"
      "(usb_vid w1, usb_pid w1) = (case core hs of
         Some c \<Rightarrow> (cs_usb_vid c, cs_usb_pid c) | None \<Rightarrow> (DEFAULT_VID, DEFAULT_PID))"
    using configure_platform_run [of ?w kvs hs "JInt pid" port] kvs assms(2) by auto
  have "map_of kvs ''usb_port'' = Some (json_opt_str port)" using kvs by (auto simp: state_json_def)
  then have "recall_port w1 = (Ret (), w1\<lparr>usb_port := port, owns_attachment := (port \<noteq> None)\<rparr>)"
    by (simp add: recall_port_def state_get_or_def json_get_or_def liftE_def w1(3) as_port_opt evaluate_bindA)
  with load w1 kvs show ?thesis
    by (simp add: configure_helper_def evaluate_bindA evaluate_thenA liftE_def)
qed

definition helper_world :: "host \<Rightarrow> control_state" where
  "helper_world h = plat_state.extend (init_platform h [] 0 []) (control_state.fields [] [])"

lemma helper_host: "host (helper_world h) = h"
  by (simp add: helper_world_def init_platform_def plat_state.defs)

theorem state_file_roundtrip_witness:
  "\<exists>w'. configure_helper (helper_world ((host (snd (write_state 100 (Some ''3'') quiet_built)))
          \<lparr>environ := [(''CANOKEY_USBIP_STATE'', path_str (state_path quiet_built))]\<rparr>)) = (Ret (), w')
     \<and> output_dir w' = [''out''] \<and> timeout w' = 5 \<and> usb_port w' = Some ''3'' \<and> owns_attachment w'"
proof -
  have "fst (write_state 100 (Some ''3'') quiet_built) = Ret ()"
    by (simp add: evaluate open_error_def quiet_built_def sample_defs evaluate_files)
  then obtain hs where run: "write_state 100 (Some ''3'') quiet_built = (Ret (), hs)"
    by (cases "write_state 100 (Some ''3'') quiet_built") simp
  have "list_all plain_name (run_output_dir quiet_built)" "list_all plain_name (state_path quiet_built)"
    and dir: "run_output_dir quiet_built = [''out'']" "opt_timeout (opts quiet_built) = 5"
    by (simp_all add: quiet_built_def sample_defs plain_name_def)
  from state_file_roundtrip [OF run this(1,2) helper_host, where variables =
        "[(''CANOKEY_USBIP_STATE'', path_str (state_path quiet_built))]"]
  show ?thesis unfolding run snd_conv dir by auto
qed

end
