(* ===== verification/Cli.thy ===== *)
theory Cli
  imports Control Catalog
begin

section \<open>The command lines\<close>

text \<open>
  \<open>main.parse_args\<close> declares its options to \<open>argparse\<close> and checks two conditions of its own.
  The part of \<open>argparse\<close> that this declaration uses is modelled: long options with a value in
  the next argument or after \<open>=\<close>, unambiguous prefixes, flags, choices, \<open>type=int\<close>, the
  mutually exclusive source options, help, and the usage error (status 2) for everything else.
  The separator \<open>--\<close> is treated as an unrecognised argument. \<open>control.main\<close> takes one command
  word. \<open>catalog.main\<close> declares three options. The parser is one function, applied to the declarations.
\<close>

subsection \<open>Classifying the arguments\<close>

text \<open>
  An argument is a value, an option (with its explicit value if it was written with \<open>=\<close>), an
  unknown option, or an ambiguous prefix.
\<close>

datatype arg_class = Value string | Opt string "string option" | Unknown | Ambiguous

fun split_eq :: "string \<Rightarrow> string \<Rightarrow> (string \<times> string) option" where
  "split_eq acc [] = None"
| "split_eq acc (c # cs) = (if c = CHR ''='' then Some (rev acc, cs) else split_eq (c # acc) cs)"

definition looks_negative :: "string \<Rightarrow> bool" where
  "looks_negative s = (case s of
     c # cs \<Rightarrow> c = CHR ''-'' \<and>
       ((cs \<noteq> [] \<and> list_all is_digit cs) \<or>
        (case dropWhile is_digit cs of
           d # ds \<Rightarrow> d = CHR ''.'' \<and> ds \<noteq> [] \<and> list_all is_digit ds | [] \<Rightarrow> False))
   | [] \<Rightarrow> False)"

definition classify_prefix :: "string list \<Rightarrow> string \<Rightarrow> arg_class" where
  "classify_prefix option_names s =
     (let (name, expl) = (case split_eq [] s of None \<Rightarrow> (s, None) | Some (n, v) \<Rightarrow> (n, Some v));
          hits = (if prefix ''--'' s then filter (prefix name) option_names
                  else filter (\<lambda>o'. o' = take 2 s) option_names) in
      case hits of
        [o'] \<Rightarrow> Opt o' (if prefix ''--'' s then expl else Some (drop 2 s))
      | _ # _ # _ \<Rightarrow> Ambiguous
      | [] \<Rightarrow> if looks_negative s \<or> CHR '' '' \<in> set s then Value s else Unknown)"

definition classify_arg :: "string list \<Rightarrow> string \<Rightarrow> arg_class" where
  "classify_arg option_names s =
     (if s = [] \<or> hd s \<noteq> CHR ''-'' then Value s
      else if s \<in> set option_names then Opt s None
      else if length s = 1 then Value s
      else case split_eq [] s of
        Some (n, v) \<Rightarrow> if n \<in> set option_names then Opt n (Some v) else classify_prefix option_names s
      | None \<Rightarrow> classify_prefix option_names s)"

subsection \<open>Consuming the options\<close>

definition usage_error :: exn where "usage_error = SystemExit 2"

text \<open>
  The declaration of a parser: the options with a value, those without, and what storing them does
  to the namespace. The options are taken in order; a stray value or an unknown option is only
  reported after the rest has been consumed.
\<close>

record 'n parser =
  value_names :: "string list"
  flag_names :: "string list"
  store_one :: "string \<Rightarrow> string \<Rightarrow> 'n \<Rightarrow> exn + 'n"
  store_none :: "string \<Rightarrow> 'n \<Rightarrow> exn + 'n"

definition option_strings :: "'n parser \<Rightarrow> string list" where
  "option_strings P = flag_names P @ value_names P"

fun consume :: "'n parser \<Rightarrow> arg_class list \<Rightarrow> bool \<Rightarrow> 'n \<Rightarrow> exn + bool \<times> 'n" where
  "consume P [] extras ns = Inr (extras, ns)"
| "consume P (Value _ # cs) extras ns = consume P cs True ns"
| "consume P (Unknown # cs) extras ns = consume P cs True ns"
| "consume P (Ambiguous # cs) extras ns = Inl usage_error"
| "consume P (Opt opt (Some v) # cs) extras ns =
     (if opt \<in> set (value_names P) then
        bindE (store_one P opt v ns) (consume P cs extras)
      else Inl usage_error)"
| "consume P (Opt opt None # cs) extras ns =
     (if opt \<in> set (value_names P) then
        (case cs of Value v # cs' \<Rightarrow> bindE (store_one P opt v ns) (consume P cs' extras)
         | _ \<Rightarrow> Inl usage_error)
      else bindE (store_none P opt ns) (consume P cs extras))"

definition argparse :: "'n parser \<Rightarrow> 'n \<Rightarrow> string list \<Rightarrow> exn + 'n" where
  "argparse P ns0 argv =
     (let cs = map (classify_arg (option_strings P)) argv in
      if Ambiguous \<in> set cs then Inl usage_error
      else bindE (consume P cs False ns0) (\<lambda>(extras, ns).
        if extras then Inl usage_error else Inr ns))"

definition ask_help :: "string \<Rightarrow> bool" where
  "ask_help opt \<longleftrightarrow> opt = ''-h'' \<or> opt = ''--help''"

subsection \<open>The options of \<open>main.py\<close>\<close>

definition value_options :: "string list" where
  "value_options = [''--core-ref'', ''--core-dir'', ''--test-command'', ''--require'', ''--storage'',
     ''--timeout'', ''--output-dir'', ''--build-dir'']"

definition flag_options :: "string list" where
  "flag_options = [''-h'', ''--help'', ''--keep-on-failure'', ''--touch'', ''--build-only'']"

definition require_choices :: "string list" where
  "require_choices = [''usb'', ''ccid'', ''hid'', ''webusb'', ''pcsc'']"

record namespace =
  ns_core_ref :: "string option"
  ns_core_dir :: "string option"
  ns_test_command :: "string option"
  ns_require :: "string list"
  ns_storage :: "string option"
  ns_timeout :: int
  ns_keep_on_failure :: bool
  ns_touch :: bool
  ns_output_dir :: "string option"
  ns_build_only :: bool
  ns_build_dir :: "string option"

definition default_namespace :: namespace where
  "default_namespace = \<lparr>ns_core_ref = None, ns_core_dir = None, ns_test_command = None,
     ns_require = [], ns_storage = None, ns_timeout = 60, ns_keep_on_failure = False,
     ns_touch = False, ns_output_dir = None, ns_build_only = False, ns_build_dir = None\<rparr>"

text \<open>Storing a value: conversion, choices, and the mutually exclusive pair.\<close>

definition store_value :: "string \<Rightarrow> string \<Rightarrow> namespace \<Rightarrow> exn + namespace" where
  "store_value opt v ns =
     (if opt = ''--core-ref'' then
        (if ns_core_dir ns \<noteq> None then Inl usage_error else Inr (ns\<lparr>ns_core_ref := Some v\<rparr>))
      else if opt = ''--core-dir'' then
        (if ns_core_ref ns \<noteq> None then Inl usage_error else Inr (ns\<lparr>ns_core_dir := Some v\<rparr>))
      else if opt = ''--test-command'' then Inr (ns\<lparr>ns_test_command := Some v\<rparr>)
      else if opt = ''--require'' then
        (if v \<in> set require_choices then Inr (ns\<lparr>ns_require := ns_require ns @ [v]\<rparr>)
         else Inl usage_error)
      else if opt = ''--storage'' then Inr (ns\<lparr>ns_storage := Some v\<rparr>)
      else if opt = ''--timeout'' then
        (case py_int v of Some i \<Rightarrow> Inr (ns\<lparr>ns_timeout := i\<rparr>) | None \<Rightarrow> Inl usage_error)
      else if opt = ''--output-dir'' then Inr (ns\<lparr>ns_output_dir := Some v\<rparr>)
      else if opt = ''--build-dir'' then Inr (ns\<lparr>ns_build_dir := Some v\<rparr>)
      else Inl usage_error)"

definition store_flag :: "string \<Rightarrow> namespace \<Rightarrow> exn + namespace" where
  "store_flag opt ns =
     (if ask_help opt then Inl (SystemExit 0)
      else if opt = ''--keep-on-failure'' then Inr (ns\<lparr>ns_keep_on_failure := True\<rparr>)
      else if opt = ''--touch'' then Inr (ns\<lparr>ns_touch := True\<rparr>)
      else if opt = ''--build-only'' then Inr (ns\<lparr>ns_build_only := True\<rparr>)
      else Inl usage_error)"

definition main_parser :: "namespace parser" where
  "main_parser = \<lparr>value_names = value_options, flag_names = flag_options,
     store_one = store_value, store_none = store_flag\<rparr>"

subsection \<open>\<open>parse_args\<close>\<close>

fun drop_dotdot :: "path \<Rightarrow> path \<Rightarrow> path" where
  "drop_dotdot acc [] = rev acc"
| "drop_dotdot acc (c # cs) =
     (if c = ''..'' then drop_dotdot (tl acc) cs else drop_dotdot (c # acc) cs)"

definition absolute_path :: "path \<Rightarrow> string \<Rightarrow> path" where
  "absolute_path cwd raw =
     drop_dotdot [] (if prefix ''/'' raw then path_of raw else cwd @ path_of raw)"

definition resolve_raw :: "host \<Rightarrow> path \<Rightarrow> string \<Rightarrow> path" where
  "resolve_raw h cwd raw = realpath h (absolute_path cwd raw)"

definition options_of :: "host \<Rightarrow> path \<Rightarrow> path \<Rightarrow> string \<Rightarrow> namespace \<Rightarrow> options" where
  "options_of h repo cwd stamp ns =
     \<lparr>repo_dir = repo, caller_dir = cwd, core_ref = ns_core_ref ns,
      core_dir = map_option (resolve_raw h cwd) (ns_core_dir ns),
      test_command = ns_test_command ns,
      opt_storage = map_option (resolve_raw h cwd) (ns_storage ns),
      opt_timeout = ns_timeout ns, keep_on_failure = ns_keep_on_failure ns,
      opt_output_dir = (case ns_output_dir ns of
         None \<Rightarrow> realpath h (cwd @ [''artifacts'', stamp]) | Some d \<Rightarrow> resolve_raw h cwd d),
      build_only = ns_build_only ns,
      build_dir = map_option (absolute_path cwd) (ns_build_dir ns),
      touch = ns_touch ns,
      opt_requirements = dedup (ns_require ns)\<rparr>"

definition parse_args :: "host \<Rightarrow> path \<Rightarrow> path \<Rightarrow> string \<Rightarrow> string list \<Rightarrow> exn + options" where
  "parse_args h repo cwd stamp argv =
     bindE (argparse main_parser default_namespace argv) (\<lambda>ns.
       if ns_timeout ns \<le> 0 then Inl usage_error
       else if \<not> ns_build_only ns \<and> (ns_test_command ns = None \<or> ns_test_command ns = Some [])
       then Inl usage_error
       else Inr (options_of h repo cwd stamp ns))"

text \<open>\<open>raise SystemExit(Harness(parse_args(sys.argv[1:])).execute())\<close>.\<close>

definition main_process :: "env \<Rightarrow> host \<Rightarrow> path \<Rightarrow> path \<Rightarrow> path \<Rightarrow> string \<Rightarrow> string \<Rightarrow> string list
    \<Rightarrow> int outcome \<times> host" where
  "main_process E h repo cwd tmp rid stamp argv =
     (case parse_args h repo cwd stamp argv of
        Inl e \<Rightarrow> (Exn e, h)
      | Inr o' \<Rightarrow> (case execute E (init_harness h tmp rid o') of (r, w) \<Rightarrow> (r, host w)))"

subsection \<open>The command line of \<open>catalog.py\<close>\<close>

record catalog_args =
  ca_profile :: "string option"
  ca_release_map :: bool
  ca_compact :: bool

definition store_profile :: "string \<Rightarrow> string \<Rightarrow> catalog_args \<Rightarrow> exn + catalog_args" where
  "store_profile opt v ns =
     (if ca_release_map ns then Inl usage_error else Inr (ns\<lparr>ca_profile := Some v\<rparr>))"

definition store_catalog_flag :: "string \<Rightarrow> catalog_args \<Rightarrow> exn + catalog_args" where
  "store_catalog_flag opt ns =
     (if ask_help opt then Inl (SystemExit 0)
      else if opt = ''--release-map'' then
        (if ca_profile ns \<noteq> None then Inl usage_error else Inr (ns\<lparr>ca_release_map := True\<rparr>))
      else if opt = ''--compact'' then Inr (ns\<lparr>ca_compact := True\<rparr>)
      else Inl usage_error)"

definition catalog_parser :: "catalog_args parser" where
  "catalog_parser = \<lparr>value_names = [''--profile''],
     flag_names = [''-h'', ''--help'', ''--release-map'', ''--compact''],
     store_one = store_profile, store_none = store_catalog_flag\<rparr>"

text \<open>What \<open>catalog.py\<close> prints, given the documents it loads.\<close>

definition catalog_process :: "json \<Rightarrow> (exn + json) \<Rightarrow> string list \<Rightarrow> exn + string" where
  "catalog_process catalog profiles_doc argv =
     bindE (argparse catalog_parser \<lparr>ca_profile = None, ca_release_map = False, ca_compact = False\<rparr> argv)
       (\<lambda>ns. catalog_main catalog profiles_doc (ca_profile ns) (ca_release_map ns) (ca_compact ns))"

subsection \<open>The command word of \<open>control.py\<close>\<close>

definition control_words :: "(string \<times> control_command) list" where
  "control_words =
     [(''start'', CmdStart), (''stop'', CmdStop), (''attach'', CmdAttach), (''detach'', CmdDetach),
      (''restart'', CmdRestart), (''touch'', CmdTouch), (''collect-debug'', CmdCollectDebug)]"

definition parse_control :: "string list \<Rightarrow> exn + control_command" where
  "parse_control argv = (case argv of
     [w] \<Rightarrow> (case map_of control_words w of Some c \<Rightarrow> Inr c
       | None \<Rightarrow> if w \<in> {''-h'', ''--help''} then Inl (SystemExit 0) else Inl usage_error)
   | _ \<Rightarrow> Inl usage_error)"

end
