(* ===== verification/CliFacts.thy ===== *)
theory CliFacts
  imports Cli PlatformFacts
begin

section \<open>What the command line guarantees\<close>

text \<open>
  Every accepted command line gives options on which the later phases rely, every other one ends
  with a usage error or the help text, and a set of arguments written out from a namespace is read
  back as that namespace.
\<close>

subsection \<open>What a parser keeps\<close>

text \<open>
  The contract of a parser declaration: storing a value keeps an invariant of the namespace, and it
  fails with a usage error only, or with the exit of the help option.
\<close>

locale option_parser =
  fixes P :: "'n parser" and ok :: "'n \<Rightarrow> bool"
  assumes store_one_ok: "store_one P opt v ns = Inr ns' \<Longrightarrow> ok ns \<Longrightarrow> ok ns'"
    and store_none_ok: "store_none P opt ns = Inr ns' \<Longrightarrow> ok ns \<Longrightarrow> ok ns'"
    and store_one_error: "store_one P opt v ns = Inl e \<Longrightarrow> e = SystemExit 2"
    and store_none_error: "store_none P opt ns = Inl e \<Longrightarrow> e = SystemExit 2 \<or> e = SystemExit 0 \<and> ask_help opt"
begin

lemma consume_ok:
  "consume Q cs extras ns = Inr (extras', ns') \<Longrightarrow> Q = P \<Longrightarrow> ok ns \<Longrightarrow> ok ns'"
  by (induction Q cs extras ns rule: consume.induct)
    (auto simp: bindE_Inr_conv split: if_splits list.splits arg_class.splits
      dest: store_one_ok store_none_ok)

lemma consume_error:
  "consume Q cs extras ns = Inl e \<Longrightarrow> Q = P \<Longrightarrow>
     e = SystemExit 2 \<or> e = SystemExit 0 \<and> (\<exists>opt. ask_help opt \<and> Opt opt None \<in> set cs)"
proof (induction Q cs extras ns rule: consume.induct)
  case (6 Q opt cs extras ns)
  show ?case
  proof (cases "opt \<in> set (value_names Q)")
    case True
    show ?thesis
    proof (cases "\<exists>v cs'. cs = Value v # cs'")
      case True
      then obtain v cs' where cs: "cs = Value v # cs'" by blast
      with \<open>opt \<in> _\<close> 6(3,4) consider "store_one P opt v ns = Inl e"
        | ns' where "consume Q cs' extras ns' = Inl e" by (auto simp: bindE_Inl_conv)
      then show ?thesis
        using 6(1) [OF \<open>opt \<in> _\<close> cs refl] 6(4) by cases (auto simp: cs dest: store_one_error)
    next
      case False
      with \<open>opt \<in> _\<close> 6(3) show ?thesis
        by (auto simp: usage_error_def split: list.splits arg_class.splits)
    qed
  next
    case False
    then show ?thesis
      using 6 by (auto simp: bindE_Inl_conv dest!: store_none_error)
  qed
qed (auto simp: bindE_Inl_conv usage_error_def split: if_splits dest!: store_one_error)

lemma argparse_ok: "argparse P ns0 argv = Inr ns \<Longrightarrow> ok ns0 \<Longrightarrow> ok ns"
  using consume_ok by (fastforce simp: argparse_def Let_def bindE_Inr_conv split: if_splits)

lemma argparse_error:
  assumes "argparse P ns0 argv = Inl e"
  shows "e = SystemExit 2 \<or> e = SystemExit 0
    \<and> (\<exists>a \<in> set argv. \<exists>opt. ask_help opt \<and> classify_arg (option_strings P) a = Opt opt None)"
proof -
  have "e = SystemExit 2 \<or> consume P (map (classify_arg (option_strings P)) argv) False ns0 = Inl e"
    using assms by (auto simp: argparse_def Let_def bindE_Inl_conv usage_error_def split: if_splits)
  then show ?thesis using consume_error by fastforce
qed

end

definition namespace_ok :: "namespace \<Rightarrow> bool" where
  "namespace_ok ns \<longleftrightarrow> (ns_core_ref ns = None \<or> ns_core_dir ns = None)
     \<and> set (ns_require ns) \<subseteq> set require_choices"

interpretation main_options: option_parser main_parser namespace_ok
  by unfold_locales (auto simp: main_parser_def store_value_def store_flag_def namespace_ok_def
      usage_error_def split: if_splits option.splits)

interpretation catalog_options: option_parser catalog_parser "\<lambda>ns. ca_profile ns = None \<or> \<not> ca_release_map ns"
  by unfold_locales (auto simp: catalog_parser_def store_profile_def store_catalog_flag_def
      usage_error_def split: if_splits)

subsection \<open>Accepted options\<close>

definition asks_for_help :: "string \<Rightarrow> bool" where
  "asks_for_help a \<longleftrightarrow>
     (\<exists>opt. ask_help opt \<and> classify_arg (option_strings main_parser) a = Opt opt None)"

text \<open>C38. A command line that \<open>parse_args\<close> accepts has a positive time limit, at most one source of
  the core, a nonempty test command unless only a build is asked for, and requirement names that
  are distinct and known to the readiness check. A command line that it does not accept ends the
  program with a usage error, or with status 0 when an argument asks for help, before anything on
  the host has changed.\<close>

theorem accepted_options:
  "case parse_args h repo cwd stamp argv of
     Inr o' \<Rightarrow> 0 < opt_timeout o' \<and> (core_ref o' = None \<or> core_dir o' = None)
       \<and> (build_only o' \<or> (\<exists>c cs. test_command o' = Some (c # cs)))
       \<and> distinct (opt_requirements o')
       \<and> list_all (\<lambda>n. n \<in> set requirement_names) (opt_requirements o')
   | Inl e \<Rightarrow> (e = SystemExit 2 \<or> e = SystemExit 0
         \<and> (\<exists>a \<in> set argv. asks_for_help a))
       \<and> main_process E h repo cwd tmp rid stamp argv = (Exn e, h)"
proof (cases "parse_args h repo cwd stamp argv")
  case (Inl e)
  then have "argparse main_parser default_namespace argv = Inl e \<or> e = SystemExit 2"
    by (auto simp: parse_args_def bindE_Inl_conv usage_error_def split: if_splits)
  with main_options.argparse_error have "e = SystemExit 2 \<or> e = SystemExit 0
      \<and> (\<exists>a \<in> set argv. asks_for_help a)" unfolding asks_for_help_def by blast
  with Inl show ?thesis by (simp add: main_process_def)
next
  case (Inr o')
  then obtain ns where ns: "argparse main_parser default_namespace argv = Inr ns" "o' = options_of h repo cwd stamp ns"
    "0 < ns_timeout ns" "ns_build_only ns \<or> ns_test_command ns \<notin> {None, Some []}"
    by (auto simp: parse_args_def bindE_Inr_conv split: if_splits)
  have names: "set require_choices = set requirement_names"
    by (simp add: require_choices_def requirement_names_def)
  from main_options.argparse_ok [OF ns(1)] have "ns_core_ref ns = None \<or> ns_core_dir ns = None"
    "set (ns_require ns) \<subseteq> set requirement_names"
    unfolding namespace_ok_def names by (simp_all add: default_namespace_def)
  with ns(3,4) Inr show ?thesis
    by (auto simp: ns(2) options_of_def list_all_iff neq_Nil_conv)
qed

subsection \<open>Writing a namespace out\<close>

text \<open>One argument per option, in the form \<open>--name=value\<close>, which takes any value.\<close>

definition opt_arg :: "string \<Rightarrow> string option \<Rightarrow> string list" where
  "opt_arg name v = (case v of None \<Rightarrow> [] | Some s \<Rightarrow> [name @ ''='' @ s])"

definition flag_arg :: "string \<Rightarrow> bool \<Rightarrow> string list" where
  "flag_arg name b = (if b then [name] else [])"

definition require_args :: "string list \<Rightarrow> string list" where
  "require_args rs = map (\<lambda>r. ''--require='' @ r) rs"

definition timeout_args :: "int \<Rightarrow> string list" where
  "timeout_args i = [''--timeout='' @ show_int i]"

definition write_args :: "namespace \<Rightarrow> string list" where
  "write_args ns = opt_arg ''--core-ref'' (ns_core_ref ns) @ opt_arg ''--core-dir'' (ns_core_dir ns)
     @ opt_arg ''--test-command'' (ns_test_command ns)
     @ require_args (ns_require ns)
     @ opt_arg ''--storage'' (ns_storage ns) @ timeout_args (ns_timeout ns)
     @ flag_arg ''--keep-on-failure'' (ns_keep_on_failure ns) @ flag_arg ''--touch'' (ns_touch ns)
     @ opt_arg ''--output-dir'' (ns_output_dir ns) @ flag_arg ''--build-only'' (ns_build_only ns)
     @ opt_arg ''--build-dir'' (ns_build_dir ns)"

abbreviation main_class :: "string \<Rightarrow> arg_class" where
  "main_class \<equiv> classify_arg (option_strings main_parser)"

lemma main_parser_simps [simp]:
  "value_names main_parser = value_options" "flag_names main_parser = flag_options"
  "store_one main_parser = store_value" "store_none main_parser = store_flag"
  by (simp_all add: main_parser_def)

lemma split_eq_name: "CHR ''='' \<notin> set n \<Longrightarrow> split_eq acc (n @ CHR ''='' # v) = Some (rev acc @ n, v)"
  by (induction n arbitrary: acc) auto

lemma value_option_names:
  "n \<in> set value_options \<Longrightarrow> CHR ''='' \<notin> set n \<and> hd n = CHR ''-'' \<and> n \<noteq> []"
  by (auto simp: value_options_def)

lemma option_string_plain: "s \<in> set (option_strings main_parser) \<Longrightarrow> CHR ''='' \<notin> set s"
  by (auto simp: option_strings_def value_options_def flag_options_def)

lemma classify_eq_arg:
  assumes "n \<in> set names" "CHR ''='' \<notin> set n" "hd n = CHR ''-''" "n \<noteq> []"
    and "\<And>s. s \<in> set names \<Longrightarrow> CHR ''='' \<notin> set s"
  shows "classify_arg names (n @ CHR ''='' # v) = Opt n (Some v)"
proof -
  have "n @ CHR ''='' # v \<notin> set names" using assms(5) by fastforce
  moreover have "length (n @ CHR ''='' # v) \<noteq> 1" using assms(4) by (cases n) auto
  ultimately show ?thesis using assms split_eq_name [of n "[]" v] by (simp add: classify_arg_def)
qed

lemma classify_value_arg:
  assumes "n \<in> set value_options"
  shows "main_class (n @ CHR ''='' # v) = Opt n (Some v)"
  using value_option_names [OF assms] option_string_plain assms
  by (intro classify_eq_arg) (auto simp: option_strings_def)

lemma classify_flag_arg: "n \<in> set flag_options \<Longrightarrow> main_class n = Opt n None"
  by (auto simp: classify_arg_def flag_options_def option_strings_def)

abbreviation read_args :: "string list \<Rightarrow> arg_class list \<Rightarrow> namespace \<Rightarrow> exn + bool \<times> namespace" where
  "read_args args rest ns \<equiv> consume main_parser (map main_class args @ rest) False ns"

lemma read_opt_arg:
  "n \<in> set value_options \<Longrightarrow> read_args (opt_arg n v) rest ns = (case v of
     None \<Rightarrow> consume main_parser rest False ns | Some s \<Rightarrow> bindE (store_value n s ns) (consume main_parser rest False))"
  by (simp add: opt_arg_def classify_value_arg split: option.split)

lemma read_flag_arg:
  "n \<in> set flag_options \<Longrightarrow> read_args (flag_arg n b) rest ns =
     (if b then bindE (store_flag n ns) (consume main_parser rest False) else consume main_parser rest False ns)"
  by (auto simp: flag_arg_def classify_flag_arg flag_options_def value_options_def)

text \<open>Each option sets its field; the fields are still at their defaults.\<close>

lemma read_values:
  "ns_core_ref ns = None \<Longrightarrow> v = None \<or> ns_core_dir ns = None \<Longrightarrow>
     read_args (opt_arg ''--core-ref'' v) rest ns = consume main_parser rest False (ns\<lparr>ns_core_ref := v\<rparr>)"
  "ns_core_dir ns = None \<Longrightarrow> v = None \<or> ns_core_ref ns = None \<Longrightarrow>
     read_args (opt_arg ''--core-dir'' v) rest ns = consume main_parser rest False (ns\<lparr>ns_core_dir := v\<rparr>)"
  "ns_test_command ns = None \<Longrightarrow>
     read_args (opt_arg ''--test-command'' v) rest ns = consume main_parser rest False (ns\<lparr>ns_test_command := v\<rparr>)"
  "ns_storage ns = None \<Longrightarrow>
     read_args (opt_arg ''--storage'' v) rest ns = consume main_parser rest False (ns\<lparr>ns_storage := v\<rparr>)"
  "ns_output_dir ns = None \<Longrightarrow>
     read_args (opt_arg ''--output-dir'' v) rest ns = consume main_parser rest False (ns\<lparr>ns_output_dir := v\<rparr>)"
  "ns_build_dir ns = None \<Longrightarrow>
     read_args (opt_arg ''--build-dir'' v) rest ns = consume main_parser rest False (ns\<lparr>ns_build_dir := v\<rparr>)"
  by (subst read_opt_arg; cases v; cases ns; simp add: value_options_def store_value_def)+

lemma read_flags:
  "\<not> ns_keep_on_failure ns \<Longrightarrow>
     read_args (flag_arg ''--keep-on-failure'' b) rest ns = consume main_parser rest False (ns\<lparr>ns_keep_on_failure := b\<rparr>)"
  "\<not> ns_touch ns \<Longrightarrow>
     read_args (flag_arg ''--touch'' b) rest ns = consume main_parser rest False (ns\<lparr>ns_touch := b\<rparr>)"
  "\<not> ns_build_only ns \<Longrightarrow>
     read_args (flag_arg ''--build-only'' b) rest ns = consume main_parser rest False (ns\<lparr>ns_build_only := b\<rparr>)"
  by (subst read_flag_arg; cases b; cases ns; simp add: flag_options_def store_flag_def ask_help_def)+

lemma read_timeout:
  "read_args (timeout_args i) rest ns = consume main_parser rest False (ns\<lparr>ns_timeout := i\<rparr>)"
  using classify_value_arg [of "''--timeout''" "show_int i"]
  by (simp add: value_options_def store_value_def py_int_show_int timeout_args_def)

lemma read_requirements:
  "set rs \<subseteq> set require_choices \<Longrightarrow> read_args (require_args rs) rest ns =
     consume main_parser rest False (ns\<lparr>ns_require := ns_require ns @ rs\<rparr>)"
proof (induction rs arbitrary: ns)
  case (Cons r rs)
  then show ?case
    using classify_value_arg [of "''--require''" r]
    by (simp add: value_options_def store_value_def require_args_def)
qed (simp add: require_args_def)

lemma not_ambiguous:
  "n \<in> set value_options \<Longrightarrow> Ambiguous \<notin> main_class ` set (opt_arg n v)"
  "m \<in> set flag_options \<Longrightarrow> Ambiguous \<notin> main_class ` set (flag_arg m b)"
  by (cases v; simp add: opt_arg_def classify_value_arg)
    (cases b; simp add: flag_arg_def classify_flag_arg)

lemma not_ambiguous_lists:
  "Ambiguous \<notin> main_class ` set (require_args rs)"
  "Ambiguous \<notin> main_class ` set (timeout_args i)"
  using classify_value_arg [of "''--require''"] classify_value_arg [of "''--timeout''"]
  by (auto simp: require_args_def timeout_args_def value_options_def image_iff)

lemma written_not_ambiguous: "Ambiguous \<notin> main_class ` set (write_args ns)"
  unfolding write_args_def set_append image_Un Un_iff
  by (simp only: not_ambiguous not_ambiguous_lists value_options_def flag_options_def list.set
      insert_iff simp_thms)

text \<open>C39. Reading the arguments written from a namespace gives that namespace back, for every value of
  every option, even one that starts with a dash or is empty, if it names at most one core source
  and only known requirements.\<close>

theorem arguments_roundtrip:
  assumes "ns_core_ref ns = None \<or> ns_core_dir ns = None" "set (ns_require ns) \<subseteq> set require_choices"
  shows "argparse main_parser default_namespace (write_args ns) = Inr ns"
proof -
  have "consume main_parser (map main_class (write_args ns)) False default_namespace = Inr (False, ns)"
    unfolding write_args_def map_append
    using assms
    by (cases ns) (auto simp add: default_namespace_def read_values read_flags read_timeout read_requirements
        read_values(6) [where rest = "[]", unfolded append_Nil2]
        simp del: map_append list.map append_Cons append_Nil)
  then show ?thesis
    using written_not_ambiguous [of ns] by (simp add: argparse_def)
qed

theorem arguments_roundtrip_witness:
  "argparse main_parser default_namespace [''--core-ref=v1'', ''--test-command=-x'', ''--require=hid'', ''--timeout=-3'', ''--touch'']
    = Inr (default_namespace\<lparr>ns_core_ref := Some ''v1'', ns_test_command := Some ''-x'',
        ns_require := [''hid''], ns_timeout := -3, ns_touch := True\<rparr>)"
proof -
  let ?ns = "default_namespace\<lparr>ns_core_ref := Some ''v1'', ns_test_command := Some ''-x'',
        ns_require := [''hid''], ns_timeout := -3, ns_touch := True\<rparr>"
  have "show_int (- 3) = ''-3''" by code_simp
  then have "write_args ?ns
      = [''--core-ref=v1'', ''--test-command=-x'', ''--require=hid'', ''--timeout=-3'', ''--touch'']"
    by (simp add: write_args_def opt_arg_def flag_arg_def require_args_def timeout_args_def
        default_namespace_def)
  then show ?thesis
    using arguments_roundtrip [of ?ns] by (simp add: default_namespace_def require_choices_def)
qed

end
