(* ===== verification/CatalogFacts.thy ===== *)
theory CatalogFacts
  imports CliFacts
begin

section \<open>What a profile lists\<close>

text \<open>
  On a catalog of the documented shape, the two loops of \<open>list_firmwares\<close> compute what a reader
  of the profile expects: every requested name is expanded, repeated ids are dropped, and every id
  is looked up in the catalog. The reference functions below work on plain strings.
\<close>

subsection \<open>The reference\<close>

definition expand_name :: "string list \<Rightarrow> (string \<times> string) list \<Rightarrow> string \<Rightarrow> string list" where
  "expand_name ids aliases r =
     (if r = ''all-supported-releases'' then filter (\<lambda>i. i \<noteq> ''head'') ids
      else [case map_of aliases r of Some i \<Rightarrow> i | None \<Rightarrow> r])"

definition wanted_ids :: "string list \<Rightarrow> (string \<times> string) list \<Rightarrow> string list \<Rightarrow> string list" where
  "wanted_ids ids aliases requests = concat (map (expand_name ids aliases) requests)"

definition entry_of :: "string list \<Rightarrow> json list \<Rightarrow> string \<Rightarrow> json" where
  "entry_of ids entries i = the (map_of (rev (zip ids entries)) i)"

text \<open>A catalog document: entries with text ids, aliases from text to text, release mappings.\<close>

definition is_catalog ::
  "json \<Rightarrow> json list \<Rightarrow> string list \<Rightarrow> (string \<times> string) list \<Rightarrow> bool" where
  "is_catalog catalog entries ids aliases \<longleftrightarrow>
     json_get catalog ''firmwares'' = Inr (JList entries)
   \<and> json_get catalog ''aliases'' = Inr (JObj (map (\<lambda>(k, v). (k, JStr v)) aliases))
   \<and> list_all2 (\<lambda>e i. json_get e ''id'' = Inr (JStr i)) entries ids"

text \<open>A profile document in which \<open>name\<close> requests the names \<open>requests\<close>.\<close>

definition requests_of :: "json \<Rightarrow> string \<Rightarrow> string list \<Rightarrow> bool" where
  "requests_of doc name requests \<longleftrightarrow> (\<exists>profiles p.
     json_get doc ''profiles'' = Inr (JObj profiles) \<and> map_of profiles name = Some p
   \<and> json_get p ''firmwares'' = Inr (JList (map JStr requests)))"

subsection \<open>The index\<close>

lemma map_of_text_keys: "map_of (map (\<lambda>(k, v). (JStr k, v)) xs) (JStr i) = map_of xs i"
  by (induction xs) auto

lemma index_entries_spec:
  assumes "list_all2 (\<lambda>e i. json_get e ''id'' = Inr (JStr i)) entries ids"
  shows "\<exists>by_id. index_entries entries = Inr by_id
    \<and> (\<forall>i. map_of by_id (JStr i) = map_of (rev (zip ids entries)) i)"
proof -
  have "mapE (\<lambda>e. bindE (entry_id e) (\<lambda>k. Inr (k, e))) entries
      = Inr (map (\<lambda>(k, v). (JStr k, v)) (zip ids entries))"
    using assms
    by (induction rule: list_all2_induct) (simp_all add: entry_id_def json_key_def json_hashable_def)
  then show ?thesis
    by (simp add: index_entries_def map_of_dict_update rev_map map_of_text_keys)
qed

lemma known_id:
  "length entries = length ids \<Longrightarrow> map_of (rev (zip ids entries)) i = None \<longleftrightarrow> i \<notin> set ids"
  by (simp add: map_of_eq_None_iff flip: set_map)

subsection \<open>The expansion\<close>

lemma expand_request_spec:
  assumes "list_all2 (\<lambda>e i. json_get e ''id'' = Inr (JStr i)) entries ids"
  shows "expand_request entries (JObj (map (\<lambda>(k, v). (k, JStr v)) aliases)) (JStr r)
    = Inr (map JStr (expand_name ids aliases r))"
proof -
  have "mapE (\<lambda>e. json_get e ''id'') entries = Inr (map JStr ids)"
    using assms by (induction rule: list_all2_induct) simp_all
  moreover have "map_of (map (\<lambda>(k, v). (k, JStr v)) aliases) r = map_option JStr (map_of aliases r)"
    by (induction aliases) auto
  ultimately show ?thesis
    by (simp add: expand_request_def expand_name_def json_key_def json_hashable_def filter_map comp_def
        split: option.split)
qed

lemma select_ids_append:
  "select_ids profile by_id acc (xs @ ys) =
     bindE (select_ids profile by_id acc xs) (\<lambda>acc'. select_ids profile by_id acc' ys)"
  by (induction profile by_id acc xs rule: select_ids.induct)
    (auto simp: bindE_def split: sum.split option.split)

lemma select_requests_flat:
  "(\<And>r. r \<in> set rs \<Longrightarrow> expand_request entries aliases r = Inr (f r)) \<Longrightarrow>
     select_requests profile entries aliases by_id acc rs = select_ids profile by_id acc (concat (map f rs))"
proof (induction rs arbitrary: acc)
  case Nil
  then show ?case by (cases acc) simp
next
  case (Cons r rs)
  then show ?case by (simp add: select_ids_append)
qed

text \<open>One pass over the ids keeps the first occurrence of each, and stops at the first unknown one.\<close>

lemma select_ids_spec:
  "select_ids profile by_id (selected, map JStr seen) (map JStr is) =
     (case filter (\<lambda>i. map_of by_id (JStr i) = None) is of
        i # _ \<Rightarrow> Inl (unknown_firmware profile (JStr i))
      | [] \<Rightarrow> Inr (selected @ map (\<lambda>i. the (map_of by_id (JStr i))) (dedup_from seen is),
                map JStr (seen @ dedup_from seen is)))"
proof (induction "is" arbitrary: selected seen)
  case (Cons i "is")
  have "dedup_from (seen @ [i]) is = dedup_from (i # seen) is" by (rule dedup_from_seen_cong) simp
  then show ?case
    using Cons.IH [of selected seen] Cons.IH [of "selected @ [the (map_of by_id (JStr i))]" "seen @ [i]"]
    by (auto simp: json_key_def json_hashable_def inj_on_image_mem_iff split: option.split list.split)
qed simp

subsection \<open>The listing\<close>

lemma list_firmwares_spec:
  assumes "is_catalog catalog entries ids aliases" "requests_of doc name requests"
  shows "list_firmwares catalog (Inr doc) (Some name) =
    (case filter (\<lambda>i. i \<notin> set ids) (wanted_ids ids aliases requests) of
       i # _ \<Rightarrow> Inl (unknown_firmware name (JStr i))
     | [] \<Rightarrow> Inr (JList (map (entry_of ids entries) (dedup (wanted_ids ids aliases requests)))))"
proof -
  let ?aliases = "JObj (map (\<lambda>(k, v). (k, JStr v)) aliases)"
  have ids: "list_all2 (\<lambda>e i. json_get e ''id'' = Inr (JStr i)) entries ids"
    using assms(1) by (simp add: is_catalog_def)
  then obtain by_id where index: "index_entries entries = Inr by_id"
    and look: "\<And>i. map_of by_id (JStr i) = map_of (rev (zip ids entries)) i"
    using index_entries_spec by blast
  obtain profiles p where doc: "json_get doc ''profiles'' = Inr (JObj profiles)"
    "map_of profiles name = Some p" "json_get p ''firmwares'' = Inr (JList (map JStr requests))"
    using assms(2) by (auto simp: requests_of_def)
  have "select_requests name entries ?aliases by_id ([], []) (map JStr requests)
      = select_ids name by_id ([], map JStr []) (map JStr (wanted_ids ids aliases requests))"
    by (subst select_requests_flat [where f = "\<lambda>r. case r of JStr s \<Rightarrow> map JStr (expand_name ids aliases s)"])
      (auto simp: expand_request_spec [OF ids] wanted_ids_def map_concat comp_def)
  then show ?thesis
    using assms(1) index doc
    by (simp add: list_firmwares_def is_catalog_def json_iter_def profile_firmwares_def profile_known_def
        json_get_def [of "JObj profiles"] select_ids_spec [of name by_id "[]" "[]", simplified] look known_id [OF list_all2_lengthD [OF ids]]
        entry_of_def [abs_def] dedup_def split: list.split)
qed

lemma catalog_process_profile:
  "catalog_process catalog doc [''--profile='' @ name] = catalog_main catalog doc (Some name) False False"
proof -
  have "classify_arg (option_strings catalog_parser) (''--profile'' @ CHR ''='' # name)
      = Opt ''--profile'' (Some name)"
    by (rule classify_eq_arg) (auto simp: option_strings_def catalog_parser_def)
  then show ?thesis
    by (simp add: catalog_process_def argparse_def catalog_parser_def store_profile_def)
qed

text \<open>C40. For a catalog and a profile document of the documented shape, \<open>list_firmwares\<close> returns the
  catalog entries of the requested names: \<open>all-supported-releases\<close> stands for every id but
  \<open>head\<close>, an alias for its id, every other name for itself; the order is that of the requests,
  each id is listed once, and of entries that share an id the last one counts. When an id is not
  in the catalog, the error names the first such id. The program, called with that profile, prints a
  list in the first case and exits with status 2 in the second.\<close>

theorem profile_listing:
  assumes "is_catalog catalog entries ids aliases" "requests_of doc name requests"
  shows "case filter (\<lambda>i. i \<notin> set ids) (wanted_ids ids aliases requests) of
       [] \<Rightarrow> list_firmwares catalog (Inr doc) (Some name)
              = Inr (JList (map (entry_of ids entries) (dedup (wanted_ids ids aliases requests))))
          \<and> (\<exists>s. catalog_process catalog (Inr doc) [''--profile='' @ name] = Inr s)
     | i # _ \<Rightarrow> list_firmwares catalog (Inr doc) (Some name) = Inl (unknown_firmware name (JStr i))
          \<and> catalog_process catalog (Inr doc) [''--profile='' @ name] = Inl (SystemExit 2)"
  using list_firmwares_spec [OF assms] catalog_process_profile [of catalog "Inr doc" name]
  by (auto simp: catalog_main_def unknown_firmware_def split: list.split)

definition small_catalog :: json where
  "small_catalog = JObj
     [(''aliases'', JObj [(''oldest-supported'', JStr ''1.3''), (''latest'', JStr ''4.0.0'')]),
      (''firmwares'', JList [JObj [(''id'', JStr ''1.3'')], JObj [(''id'', JStr ''4.0.0'')],
                           JObj [(''id'', JStr ''head'')]])]"

definition small_profiles :: json where
  "small_profiles = JObj [(''profiles'', JObj [(''night'', JObj [(''firmwares'', JList
     [JStr ''all-supported-releases'', JStr ''latest'', JStr ''head''])])])]"

theorem profile_listing_witness:
  "list_firmwares small_catalog (Inr small_profiles) (Some ''night'') = Inr (JList
     [JObj [(''id'', JStr ''1.3'')], JObj [(''id'', JStr ''4.0.0'')], JObj [(''id'', JStr ''head'')]])"
proof -
  let ?ids = "[''1.3'', ''4.0.0'', ''head'']"
  let ?aliases = "[(''oldest-supported'', ''1.3''), (''latest'', ''4.0.0'')]"
  let ?requests = "[''all-supported-releases'', ''latest'', ''head'']"
  have "is_catalog small_catalog [JObj [(''id'', JStr ''1.3'')], JObj [(''id'', JStr ''4.0.0'')],
      JObj [(''id'', JStr ''head'')]] ?ids ?aliases"
    by (simp add: is_catalog_def small_catalog_def json_get_def)
  moreover have "requests_of small_profiles ''night'' ?requests"
    by (simp add: requests_of_def small_profiles_def json_get_def)
  moreover have "wanted_ids ?ids ?aliases ?requests = [''1.3'', ''4.0.0'', ''4.0.0'', ''head'']"
    by (simp add: wanted_ids_def expand_name_def)
  ultimately show ?thesis
    using profile_listing [of small_catalog _ ?ids ?aliases small_profiles "''night''" ?requests]
    by (fastforce simp: entry_of_def dedup_def)
qed

end
