(* ===== verification/RunEnds.thy ===== *)
theory RunEnds
  imports TestFacts ExecuteFacts ControlFacts CliFacts
begin

section \<open>The programs end\<close>

text \<open>
  The whole of \<open>main.py\<close> and the whole of \<open>control.py\<close> end. \<open>git\<close> and \<open>cmake\<close> are the only
  commands that are run without a time limit, so their ending is the one thing that a run takes
  from its environment, together with the documented behaviour of process groups in \<open>keeps_leaders\<close>.
\<close>

subsection \<open>Commands without a time limit\<close>

definition finishes :: "env \<Rightarrow> bool" where
  "finishes E \<longleftrightarrow> (\<forall>args cwd h prog. prog \<in> {''git'', ''cmake''} \<longrightarrow>
     (case fst (ext_run E (prog # args) cwd h) of
        SpawnFailed _ _ \<Rightarrow> True | Finished _ _ _ d \<Rightarrow> d \<noteq> None))"

abbreviation returns :: "('s, 'a) act \<Rightarrow> bool" where
  "returns \<equiv> ends (\<lambda>_. True) False"

lemma returns_run:
  assumes "finishes E" "prog \<in> {''git'', ''cmake''}"
  shows "returns (run_command E (prog # args) cwd t log chk)"
proof -
  have ended: False if "ext_run E (prog # args) cwd h = (Finished rc out err None, h')" for h rc out err h'
  proof -
    have "case fst (ext_run E (prog # args) cwd h) of
        SpawnFailed _ _ \<Rightarrow> True | Finished _ _ _ d \<Rightarrow> d \<noteq> None"
      using assms unfolding finishes_def by blast
    with that show False by simp
  qed
  have "returns (subprocess_run E (prog # args) cwd t)"
    unfolding subprocess_run_def
    by (rule ends_hostA) (auto simp: Let_def split: prod.split run_result.split option.split dest: ended)
  then show ?thesis
    unfolding run_command_def finish_command_def Let_def
    by (intro ends_rules) (auto intro: ends_rules split: option.split)
qed

lemma returns_catch: "returns m \<Longrightarrow> (\<And>e. returns (k e)) \<Longrightarrow> returns (catchA m (onA p k))"
  by (rule ends_catch_onA [where Y = "\<lambda>_. True"]) simp_all

text \<open>From here on, a command needs a time limit or the assumption.\<close>

declare ends_run_command [ends_rules del] ends_git_value [ends_rules del]

lemma returns_timed [ends_rules]: "returns (run_command E argv cwd (Some t) log chk)"
  by (rule ends_run_command) simp_all

lemma returns_git_value:
  assumes "finishes E" shows "returns (git_value E p args dflt)"
proof -
  have "returns (run_command E (''git'' # ''-C'' # path_str p # args) None None None True)"
    by (rule returns_run [OF assms]) simp
  then show ?thesis
    unfolding git_value_def by (intro returns_catch ends_rules) simp
qed

lemma returns_git_run: "finishes E \<Longrightarrow> returns (git_run E (''git'' # args))"
  unfolding git_run_def by (intro ends_rules returns_run) simp_all

lemma returns_base_metadata: "finishes E \<Longrightarrow> returns (base_metadata E)"
  unfolding base_metadata_def by (intro ends_rules returns_git_value)

lemma returns_save_metadata: "returns save_metadata"
  by (rule ends_mono [OF ends_save_metadata]) simp_all

lemma returns_execute_setup: "finishes E \<Longrightarrow> returns (execute_setup E)"
  unfolding execute_setup_def
  by (intro ends_rules returns_base_metadata returns_save_metadata; simp)

subsection \<open>The phases\<close>

lemma returns_resolve_core:
  assumes "finishes E" shows "returns (resolve_core E)"
proof -
  have patches: "returns (apply_core_compatibility E d sha)" for d sha
    unfolding apply_core_compatibility_def apply_patch_def
    by (intro ends_rules returns_catch returns_run [OF assms]) simp_all
  have finish: "returns (finish_core E d sha ref dirty)" for d sha ref dirty
    unfolding finish_core_def core_usb_identity_def firmware_version_for_sha_def Let_def
    by (intro ends_rules returns_catch patches) auto
  have fetch: "returns (fetch_core E d ref)" for d ref
    unfolding fetch_core_def fetch_ref_for_def Let_def
    by (intro ends_rules returns_catch returns_git_run returns_git_value finish assms) auto
  have "returns (snapshot_core E d source ref)" for d source ref
    unfolding snapshot_core_def
    by (intro ends_rules returns_catch returns_git_value finish assms) auto
  then show ?thesis
    unfolding resolve_core_def by (intro ends_rules fetch)
qed

lemma returns_build: 
  assumes "finishes E" shows "returns (build E)"
  unfolding build_def build_with_def run_cmake_def built_binary_def cmake_configure_def cmake_build_def
  by (intro ends_rules) (auto intro!: ends_rules returns_catch returns_run [OF assms] split: list.split)

lemma returns_prepare_phases:
  assumes "finishes E" shows "returns (prepare_phases E)"
  unfolding prepare_phases_def acquire_lock_def record_core_def initial_metadata_def enter_def
    set_metadata_def set_usb_identity_def
  by (intro ends_rules returns_resolve_core returns_build returns_base_metadata returns_save_metadata
      assms) auto

lemma returns_start_server: "returns (start_server E)"
proof -
  have "returns (start_round E)"
    unfolding start_round_def poll_server_def by (intro ends_rules returns_catch) auto
  then show ?thesis
    unfolding start_server_def await_server_def write_state_def
    by (intro ends_rules start_poll.poll_ends) auto
qed

lemma returns_device_phases: "returns (device_phases E)"
proof -
  have "returns (prepare_host E)" "returns (attach E before)" for before
    by (rule ends_mono [OF ends_prepare_host] ends_mono [OF ends_attach]; simp)+
  then show ?thesis
    unfolding device_phases_def enter_def set_metadata_def write_state_def matching_usb_devices_def
    by (intro ends_rules returns_start_server ends_wait_ready) auto
qed

lemma returns_iff: "returns m \<longleftrightarrow> (\<forall>s. fst (m s) \<noteq> Blocked)"
  by (simp add: ends_def split: outcome.split)

lemma returns_execute_try:
  assumes "keeps_leaders E" "finishes E" shows "returns (execute_try E)"
proof -
  have "returns (run_test E ready)" for ready
    using run_test_ends [OF assms(1)] by (simp add: returns_iff)
  then show ?thesis
    unfolding execute_try_def run_phases_def test_phase_def set_result_def set_failure_def
    by (intro ends_rules returns_prepare_phases returns_device_phases assms(2))
qed

subsection \<open>The control commands\<close>

lemma returns_platform:
  "returns (detach E)" "returns (attach E before)" "returns (prepare_host E)" "returns (collect_debug E)"
  by (rule ends_mono [OF ends_detach] ends_mono [OF ends_attach] ends_mono [OF ends_prepare_host]
      ends_mono [OF ends_collect_debug]; simp)+

lemma returns_stop_pid: "returns (stop_pid E pid)"
  by (rule ends_mono [OF ends_stop_pid]) simp_all

lemma returns_save_state: "returns save_state"
  by (rule ends_mono [OF ends_save_state]) simp_all

lemma returns_configure_platform: "returns configure_platform"
  unfolding configure_platform_def state_get_def state_get_or_def set_usb_identity_def
  by (intro ends_rules) auto

lemma returns_start: "returns (start E)"
proof -
  have "returns (start_rollback E p e)" for p e
    unfolding start_rollback_def state_set_def
    by (intro ends_rules returns_catch returns_platform returns_stop_pid returns_save_state) auto
  then have "returns (start_guarded E before p)" for before p
    unfolding start_guarded_def by (intro ends_catchA [OF ends_start_attempt]) auto
  then show ?thesis
    unfolding start_def launch_command_def state_get_def state_get_or_def state_set_def
      matching_usb_devices_def
    by (intro ends_rules returns_configure_platform returns_platform returns_save_state) auto
qed

lemma returns_wait_old_reader: "returns (wait_old_reader E)"
proof -
  have "returns (removed_round E reader)" for reader
    by (rule ends_mono [OF ends_removed_round]) simp_all
  then show ?thesis
    unfolding wait_old_reader_def wait_reader_removed_def
    by (intro ends_rules removed_poll.poll_ends) (auto intro!: ends_rules removed_poll.poll_ends split: list.split)
qed

lemma returns_stop_device: "returns (stop_device E)"
  unfolding stop_device_def state_get_or_def state_set_def
  by (intro ends_rules returns_platform returns_stop_pid returns_save_state) auto

lemma returns_dispatch: "returns (dispatch E command)"
proof (cases command)
  case CmdAttach
  then show ?thesis
    unfolding CmdAttach dispatch.simps attach_again_def state_set_def matching_usb_devices_def
    by (intro ends_rules returns_platform ends_wait_ready returns_save_state)
next
  case CmdDetach
  then show ?thesis
    unfolding CmdDetach dispatch.simps detach_recorded_def state_set_def
    by (intro ends_rules returns_platform returns_save_state)
next
  case CmdTouch
  then show ?thesis
    unfolding CmdTouch dispatch.simps touch_device_def state_get_def by (intro ends_rules) auto
qed (simp_all, (intro ends_rules returns_start returns_stop_device returns_wait_old_reader
    returns_platform)+)

lemma returns_control_process: "returns (control_process E command)"
  unfolding control_process_def control_main_def configure_helper_def load_state_def recall_port_def
    state_get_or_def
  by (intro returns_catch ends_rules returns_configure_platform returns_dispatch)
    (auto intro!: ends_rules split: list.split)

subsection \<open>Both programs\<close>

text \<open>C4. The runner always ends, for every command line, every host and every behaviour of the test
  command, the server, PC/SC and the tools, if \<open>git\<close> and \<open>cmake\<close> end and a process that leads its
  group keeps leading it. The control helpers always end, with no assumption at all on \<open>git\<close> and
  \<open>cmake\<close>.\<close>

theorem programs_end:
  assumes "keeps_leaders E" "finishes E"
  shows "fst (main_process E h repo cwd tmp rid stamp argv) \<noteq> Blocked
    \<and> fst (control_process E' command w) \<noteq> Blocked"
proof -
  have "fst (execute E v) \<noteq> Blocked" for v
  proof
    assume "fst (execute E v) = Blocked"
    then have "execute E v = (Blocked, snd (execute E v))" by (cases "execute E v") simp
    from execute_blocks [OF this] returns_execute_setup [OF assms(2)] returns_execute_try [OF assms]
    show False by (auto simp: returns_iff)
  qed
  then have "fst (main_process E h repo cwd tmp rid stamp argv) \<noteq> Blocked"
    by (auto simp: main_process_def split: sum.split prod.split) (metis fst_conv)
  moreover have "fst (control_process E' command w) \<noteq> Blocked"
    using returns_control_process by (simp add: returns_iff)
  ultimately show ?thesis ..
qed

theorem programs_end_witness:
  "fst (main_process quiet sample_host [''repo''] [''work''] [''tmp''] ''r1'' ''now''
     [''--core-dir=/core'', ''--test-command=true'']) \<noteq> Blocked"
  using programs_end [of quiet] by (simp add: keeps_leaders_def finishes_def scripted_def)

end
